(* ===== verification/Go_Strings.thy ===== *)
theory Go_Strings
  imports Main "HOL-Library.Sublist"
begin

text \<open>
  The part of Go's \<^verbatim>\<open>strings\<close> and \<^verbatim>\<open>strconv\<close> packages that the relay uses, on byte
  strings: a Go \<^verbatim>\<open>string\<close> is a sequence of bytes, and so is Isabelle's \<^typ>\<open>string\<close>
  (a \<^typ>\<open>char\<close> is one byte, so \<^term>\<open>length\<close> is Go's \<^verbatim>\<open>len\<close>). A UTF-8 character beyond
  ASCII is several \<^typ>\<open>char\<close>s. Every component theory imports this one for the functions and
  the lemmas about splitting, joining, trimming and number conversion.
\<close>

section \<open>Collections of facts\<close>

named_theorems go_defs \<open>definitions of Go library functions, for evaluation\<close>
named_theorems ok_iff \<open>characterisations of an operation returning without error\<close>

text \<open>A Go function that returns \<open>(T, error)\<close> returns a sum: the error's text or the value.\<close>

type_synonym 'a result = "string + 'a"

text \<open>Instants and durations are integers in nanoseconds.\<close>

type_synonym time = int

section \<open>Bytes\<close>

abbreviation byte :: "char \<Rightarrow> nat" where
  "byte c \<equiv> of_char c"

definition is_digit :: "char \<Rightarrow> bool" where
  "is_digit c \<longleftrightarrow> 48 \<le> byte c \<and> byte c \<le> 57"

definition is_lower :: "char \<Rightarrow> bool" where
  "is_lower c \<longleftrightarrow> 97 \<le> byte c \<and> byte c \<le> 122"

definition is_upper :: "char \<Rightarrow> bool" where
  "is_upper c \<longleftrightarrow> 65 \<le> byte c \<and> byte c \<le> 90"

definition is_alnum :: "char \<Rightarrow> bool" where
  "is_alnum c \<longleftrightarrow> is_digit c \<or> is_lower c \<or> is_upper c"

text \<open>Printable ASCII without the blank: what names, keys and addresses are made of.\<close>

definition graphic :: "char \<Rightarrow> bool" where
  "graphic c \<longleftrightarrow> 33 \<le> byte c \<and> byte c \<le> 126"

lemmas byte_class_defs = is_digit_def is_lower_def is_upper_def is_alnum_def graphic_def
declare byte_class_defs [go_defs]

lemma is_alnum_graphic [simp]: "is_alnum c \<Longrightarrow> graphic c"
  by (auto simp: byte_class_defs)

section \<open>Prefixes, suffixes, substrings\<close>

text \<open>\<^verbatim>\<open>strings.HasPrefix\<close>, \<^verbatim>\<open>strings.HasSuffix\<close>, \<^verbatim>\<open>strings.Contains\<close> and \<^verbatim>\<open>strings.ContainsAny\<close>.\<close>

abbreviation HasPrefix :: "string \<Rightarrow> string \<Rightarrow> bool" where
  "HasPrefix s p \<equiv> prefix p s"

abbreviation HasSuffix :: "string \<Rightarrow> string \<Rightarrow> bool" where
  "HasSuffix s p \<equiv> suffix p s"

abbreviation Contains :: "string \<Rightarrow> string \<Rightarrow> bool" where
  "Contains s p \<equiv> sublist p s"

definition ContainsAny :: "string \<Rightarrow> string \<Rightarrow> bool" where
  "ContainsAny s chars \<longleftrightarrow> list_ex (\<lambda>c. c \<in> set chars) s"

definition TrimPrefix :: "string \<Rightarrow> string \<Rightarrow> string" where
  "TrimPrefix s p = (if HasPrefix s p then drop (length p) s else s)"

definition TrimSuffix :: "string \<Rightarrow> string \<Rightarrow> string" where
  "TrimSuffix s p = (if HasSuffix s p then take (length s - length p) s else s)"

text \<open>\<^verbatim>\<open>strings.Index\<close>, with \<open>None\<close> for Go's \<open>-1\<close>.\<close>

fun Index :: "string \<Rightarrow> string \<Rightarrow> nat option" where
  "Index [] p = (if p = [] then Some 0 else None)"
| "Index (c # s) p = (if HasPrefix (c # s) p then Some 0 else map_option Suc (Index s p))"

declare ContainsAny_def [go_defs] TrimPrefix_def [go_defs] TrimSuffix_def [go_defs]

lemma TrimPrefix_append [simp]: "TrimPrefix (p @ s) p = s"
  by (simp add: TrimPrefix_def)

lemma TrimSuffix_append [simp]: "TrimSuffix (s @ p) p = s"
  by (simp add: TrimSuffix_def suffixI)

lemma not_prefix_Cons: "x \<noteq> y \<Longrightarrow> \<not> prefix (x # xs) (y # ys)"
  by simp

lemma Index_single: "Index s [c] = (if c \<in> set s then Some (length (takeWhile (\<lambda>x. x \<noteq> c) s)) else None)"
  by (induction s) auto

lemma Index_None_iff: "Index s p = None \<longleftrightarrow> \<not> Contains s p"
proof (induction s)
  case Nil
  then show ?case by simp
next
  case (Cons c s)
  then show ?case by (auto simp: sublist_Cons_right)
qed

lemma Index_Some: "Index s p = Some i \<Longrightarrow> i \<le> length s \<and> HasPrefix (drop i s) p"
  by (induction s arbitrary: i) (auto split: if_splits)

section \<open>Splitting and joining\<close>

text \<open>
  \<^verbatim>\<open>strings.Split\<close> with a one-byte separator, which is the only kind the relay uses, and
  \<^verbatim>\<open>strings.Join\<close>.
\<close>

fun Split :: "string \<Rightarrow> char \<Rightarrow> string list" where
  "Split [] c = [[]]"
| "Split (x # s) c =
     (if x = c then [] # Split s c
      else (case Split s c of [] \<Rightarrow> [[x]] | y # ys \<Rightarrow> (x # y) # ys))"

fun Join :: "string list \<Rightarrow> string \<Rightarrow> string" where
  "Join [] sep = []"
| "Join [s] sep = s"
| "Join (s # t # ts) sep = s @ sep @ Join (t # ts) sep"

text \<open>\<^verbatim>\<open>strings.Cut\<close> at a byte: \<open>None\<close> when the separator does not occur.\<close>

fun Cut :: "string \<Rightarrow> char \<Rightarrow> (string \<times> string) option" where
  "Cut [] c = None"
| "Cut (x # s) c =
     (if x = c then Some ([], s)
      else (case Cut s c of None \<Rightarrow> None | Some (a, b) \<Rightarrow> Some (x # a, b)))"

text \<open>\<^verbatim>\<open>strings.SplitN\<close>: at most \<open>n\<close> pieces, the last one unsplit.\<close>

fun SplitN :: "string \<Rightarrow> char \<Rightarrow> nat \<Rightarrow> string list" where
  "SplitN s c 0 = []"
| "SplitN s c (Suc 0) = [s]"
| "SplitN s c (Suc (Suc n)) =
     (case Cut s c of None \<Rightarrow> [s] | Some (a, b) \<Rightarrow> a # SplitN b c (Suc n))"

lemma Split_not_Nil [simp]: "Split s c \<noteq> []"
  by (induction s) (auto split: list.splits)

lemma Split_pieces: "p \<in> set (Split s c) \<Longrightarrow> c \<notin> set p"
  by (induction s arbitrary: p) (auto split: list.splits if_splits)

lemma Split_piece_subset: "p \<in> set (Split s c) \<Longrightarrow> set p \<subseteq> set s"
proof (induction s arbitrary: p)
  case Nil
  then show ?case by simp
next
  case (Cons x s)
  then show ?case by (fastforce split: list.splits if_splits)
qed

lemma Split_no_sep [simp]: "c \<notin> set s \<Longrightarrow> Split s c = [s]"
  by (induction s) auto

lemma Split_append_sep: "Split (a @ c # b) c = Split a c @ Split b c"
  by (induction a) (auto split: list.splits)

lemma Split_append_no_sep:
  "c \<notin> set a \<Longrightarrow> Split (a @ s) c = (a @ hd (Split s c)) # tl (Split s c)"
  by (induction a) (auto split: list.splits)

lemma Join_Cons: "ts \<noteq> [] \<Longrightarrow> Join (s # ts) sep = s @ sep @ Join ts sep"
  by (cases ts) auto

lemma Join_append:
  "xs \<noteq> [] \<Longrightarrow> ys \<noteq> [] \<Longrightarrow> Join (xs @ ys) sep = Join xs sep @ sep @ Join ys sep"
  by (induction xs rule: induct_list012) (auto simp: Join_Cons)

theorem Join_Split [simp]: "Join (Split s c) [c] = s"
proof (induction s)
  case Nil
  then show ?case by simp
next
  case (Cons x s)
  then show ?case
    by (cases "Split s c" rule: list.exhaust[case_names Nil Cons])
       (auto simp: Join_Cons split: list.splits, (metis Join.simps(2,3) append_Cons neq_Nil_conv)+)
qed

theorem Split_Join:
  "ls \<noteq> [] \<Longrightarrow> (\<And>l. l \<in> set ls \<Longrightarrow> c \<notin> set l) \<Longrightarrow> Split (Join ls [c]) c = ls"
proof (induction ls rule: induct_list012)
  case 1
  then show ?case by simp
next
  case (2 x)
  then show ?case by simp
next
  case (3 x y zs)
  then show ?case using Split_append_sep [of x c "Join (y # zs) [c]"] by simp
qed

lemma Join_hd: "x \<noteq> [] \<Longrightarrow> Join (x # xs) d \<noteq> [] \<and> hd (Join (x # xs) d) = hd x"
  by (cases xs) auto

lemma Join_last: "x \<noteq> [] \<Longrightarrow> Join (xs @ [x]) d \<noteq> [] \<and> last (Join (xs @ [x]) d) = last x"
  by (cases "xs = []") (auto simp: Join_append)

lemma Cut_None_iff: "Cut s c = None \<longleftrightarrow> c \<notin> set s"
  by (induction s) (auto split: option.splits)

lemma Cut_append [simp]: "c \<notin> set a \<Longrightarrow> Cut (a @ c # b) c = Some (a, b)"
  by (induction a) auto

lemma Cut_Some_iff: "Cut s c = Some (a, b) \<longleftrightarrow> s = a @ c # b \<and> c \<notin> set a"
proof
  show "Cut s c = Some (a, b) \<Longrightarrow> s = a @ c # b \<and> c \<notin> set a"
    by (induction s arbitrary: a b) (auto split: option.splits if_splits)
qed auto

section \<open>Trimming white space\<close>

text \<open>
  \<^verbatim>\<open>strings.TrimSpace\<close> strips Unicode white space, here as the UTF-8 encodings of the
  characters with Go's \<^verbatim>\<open>White_Space\<close> property: the six ASCII ones, U+0085, U+00A0, U+1680,
  U+2000 to U+200A, U+2028, U+2029, U+202F, U+205F and U+3000.
\<close>

definition space_seqs :: "string list" where
  "space_seqs =
     [[CHR 0x20], [CHR 0x09], [CHR 0x0A], [CHR 0x0B], [CHR 0x0C], [CHR 0x0D],
      [CHR 0xC2, CHR 0x85], [CHR 0xC2, CHR 0xA0], [CHR 0xE1, CHR 0x9A, CHR 0x80],
      [CHR 0xE2, CHR 0x80, CHR 0x80], [CHR 0xE2, CHR 0x80, CHR 0x81],
      [CHR 0xE2, CHR 0x80, CHR 0x82], [CHR 0xE2, CHR 0x80, CHR 0x83],
      [CHR 0xE2, CHR 0x80, CHR 0x84], [CHR 0xE2, CHR 0x80, CHR 0x85],
      [CHR 0xE2, CHR 0x80, CHR 0x86], [CHR 0xE2, CHR 0x80, CHR 0x87],
      [CHR 0xE2, CHR 0x80, CHR 0x88], [CHR 0xE2, CHR 0x80, CHR 0x89],
      [CHR 0xE2, CHR 0x80, CHR 0x8A], [CHR 0xE2, CHR 0x80, CHR 0xA8],
      [CHR 0xE2, CHR 0x80, CHR 0xA9], [CHR 0xE2, CHR 0x80, CHR 0xAF],
      [CHR 0xE2, CHR 0x81, CHR 0x9F], [CHR 0xE3, CHR 0x80, CHR 0x80]]"

lemma space_seqs_nonempty: "w \<in> set space_seqs \<Longrightarrow> 0 < length w"
  by (auto simp: space_seqs_def)

function TrimLeftSpace :: "string \<Rightarrow> string" where
  "TrimLeftSpace s =
     (case find (\<lambda>w. prefix w s) space_seqs of
        None \<Rightarrow> s
      | Some w \<Rightarrow> TrimLeftSpace (drop (length w) s))"
  by pat_completeness auto
termination
proof (relation "measure length")
  fix s w
  assume "find (\<lambda>w. prefix w s) space_seqs = Some w"
  then have "w \<in> set space_seqs" and "prefix w s"
    by (auto simp: find_Some_iff)
  then show "(drop (length w) s, s) \<in> measure length"
    using space_seqs_nonempty [of w] prefix_length_le [of w s]
    by (simp del: length_greater_0_conv)
qed simp

function TrimRightSpace :: "string \<Rightarrow> string" where
  "TrimRightSpace s =
     (case find (\<lambda>w. suffix w s) space_seqs of
        None \<Rightarrow> s
      | Some w \<Rightarrow> TrimRightSpace (take (length s - length w) s))"
  by pat_completeness auto
termination
proof (relation "measure length")
  fix s w
  assume "find (\<lambda>w. suffix w s) space_seqs = Some w"
  then have "w \<in> set space_seqs" and "suffix w s"
    by (auto simp: find_Some_iff)
  then show "(take (length s - length w) s, s) \<in> measure length"
    using space_seqs_nonempty [of w] suffix_length_le [of w s]
    by (simp del: length_greater_0_conv)
qed simp

declare TrimLeftSpace.simps [simp del] TrimRightSpace.simps [simp del]

definition TrimSpace :: "string \<Rightarrow> string" where
  "TrimSpace s = TrimRightSpace (TrimLeftSpace s)"

text \<open>No white space starts or ends with a graphic character.\<close>

lemma space_seqs_not_graphic:
  "w \<in> set space_seqs \<Longrightarrow> \<not> graphic (hd w) \<and> \<not> graphic (last w)"
  by (auto simp: space_seqs_def graphic_def)

lemma TrimLeftSpace_graphic [simp]:
  assumes "graphic c"
  shows "TrimLeftSpace (c # s) = c # s"
proof -
  have "\<not> prefix w (c # s)" if "w \<in> set space_seqs" for w
    using space_seqs_not_graphic [OF that] space_seqs_nonempty [OF that] assms
    by (cases w) auto
  then have "find (\<lambda>w. prefix w (c # s)) space_seqs = None"
    by (simp add: find_None_iff)
  then show ?thesis by (subst TrimLeftSpace.simps) simp
qed

lemma TrimRightSpace_graphic [simp]:
  assumes "graphic c"
  shows "TrimRightSpace (s @ [c]) = s @ [c]"
proof -
  have "\<not> suffix w (s @ [c])" if "w \<in> set space_seqs" for w
    using space_seqs_not_graphic [OF that] space_seqs_nonempty [OF that] assms
    by (cases w rule: rev_cases) (auto simp: suffix_def)
  then have "find (\<lambda>w. suffix w (s @ [c])) space_seqs = None"
    by (simp add: find_None_iff)
  then show ?thesis by (subst TrimRightSpace.simps) simp
qed

text \<open>A character that no white space begins or ends with.\<close>

definition not_space :: "char \<Rightarrow> bool" where
  "not_space c \<longleftrightarrow> list_all (\<lambda>w. hd w \<noteq> c \<and> last w \<noteq> c) space_seqs"

lemma not_spaceD: "not_space c \<Longrightarrow> w \<in> set space_seqs \<Longrightarrow> hd w \<noteq> c \<and> last w \<noteq> c"
  by (simp add: not_space_def list_all_iff)

lemma graphic_not_space: "graphic c \<Longrightarrow> not_space c"
  using space_seqs_not_graphic by (auto simp: not_space_def list_all_iff)

lemma TrimLeftSpace_not_space:
  assumes "not_space c"
  shows "TrimLeftSpace (c # s) = c # s"
proof -
  have "\<not> prefix w (c # s)" if "w \<in> set space_seqs" for w
    using not_spaceD [OF assms that] space_seqs_nonempty [OF that] by (cases w) auto
  then have "find (\<lambda>w. prefix w (c # s)) space_seqs = None" by (simp add: find_None_iff)
  then show ?thesis by (subst TrimLeftSpace.simps) simp
qed

lemma TrimRightSpace_not_space:
  assumes "not_space c"
  shows "TrimRightSpace (s @ [c]) = s @ [c]"
proof -
  have "\<not> suffix w (s @ [c])" if "w \<in> set space_seqs" for w
    using not_spaceD [OF assms that] space_seqs_nonempty [OF that]
    by (cases w rule: rev_cases) (auto simp: suffix_def)
  then have "find (\<lambda>w. suffix w (s @ [c])) space_seqs = None" by (simp add: find_None_iff)
  then show ?thesis by (subst TrimRightSpace.simps) simp
qed

lemma TrimSpace_newline:
  assumes "s \<noteq> []" "not_space (hd s)" "not_space (last s)"
  shows "TrimSpace (s @ [CHR 0x0A]) = s" "TrimSpace s = s"
proof -
  obtain c r where s: "s = c # r" "not_space c" using assms by (cases s) auto
  have right: "TrimRightSpace s = s"
    using TrimRightSpace_not_space [OF assms(3), of "butlast s"] append_butlast_last_id [OF assms(1)] by simp
  have left: "TrimLeftSpace (s @ t) = s @ t" for t
    using TrimLeftSpace_not_space [OF s(2), of "r @ t"] by (simp add: s(1))
  have "TrimRightSpace (s @ [CHR 0x0A]) = TrimRightSpace s"
    by (subst TrimRightSpace.simps) (simp add: space_seqs_def suffix_def)
  then show "TrimSpace (s @ [CHR 0x0A]) = s" using left right by (simp add: TrimSpace_def)
  show "TrimSpace s = s" using left [of "[]"] right by (simp add: TrimSpace_def)
qed

lemma TrimLeftSpace_Nil [simp]: "TrimLeftSpace [] = []"
  by (subst TrimLeftSpace.simps) (simp add: space_seqs_def)

lemma TrimRightSpace_Nil [simp]: "TrimRightSpace [] = []"
  by (subst TrimRightSpace.simps) (simp add: space_seqs_def)

lemma TrimLeftSpace_blank [simp]: "TrimLeftSpace (CHR 0x20 # s) = TrimLeftSpace s"
  by (subst TrimLeftSpace.simps) (simp add: space_seqs_def)

lemma TrimRightSpace_blank [simp]: "TrimRightSpace (s @ [CHR 0x20]) = TrimRightSpace s"
  by (subst TrimRightSpace.simps) (simp add: space_seqs_def suffix_def)

lemma TrimSpace_Nil [simp]: "TrimSpace [] = []"
  by (simp add: TrimSpace_def)

lemma TrimSpace_graphic:
  assumes "s \<noteq> []" "graphic (hd s)" "graphic (last s)"
  shows "TrimSpace s = s"
proof -
  have "TrimLeftSpace s = s" using assms by (cases s) auto
  moreover have "TrimRightSpace s = s" using assms by (cases s rule: rev_cases) auto
  ultimately show ?thesis by (simp add: TrimSpace_def)
qed

lemma TrimSpace_all_graphic [simp]: "list_all graphic s \<Longrightarrow> TrimSpace s = s"
  by (cases "s = []") (auto simp: TrimSpace_graphic list_all_iff)

lemma TrimSpace_blank_left [simp]: "TrimSpace (CHR 0x20 # s) = TrimSpace s"
  by (simp add: TrimSpace_def)

section \<open>Fields\<close>

text \<open>\<^verbatim>\<open>strings.Fields\<close>: the maximal runs of characters that are not white space.\<close>

fun until_space :: "string \<Rightarrow> string \<times> string" where
  "until_space [] = ([], [])"
| "until_space (c # s) =
     (if list_ex (\<lambda>w. prefix w (c # s)) space_seqs then ([], c # s)
      else (let (a, b) = until_space s in (c # a, b)))"

lemma until_space_length: "length (snd (until_space s)) \<le> length s"
  by (induction s) (auto split: prod.splits)

lemma TrimLeftSpace_length: "length (TrimLeftSpace s) \<le> length s"
proof (induction s rule: TrimLeftSpace.induct)
  case (1 s)
  show ?case
  proof (cases "find (\<lambda>w. prefix w s) space_seqs")
    case None
    then show ?thesis by (subst TrimLeftSpace.simps) simp
  next
    case (Some w)
    then have "TrimLeftSpace s = TrimLeftSpace (drop (length w) s)" by (subst TrimLeftSpace.simps) simp
    then show ?thesis using 1 [OF Some] by simp
  qed
qed

fun fields_loop :: "nat \<Rightarrow> string \<Rightarrow> string list" where
  "fields_loop 0 s = []"
| "fields_loop (Suc n) s =
     (let t = TrimLeftSpace s in
      if t = [] then [] else (let (a, b) = until_space t in a # fields_loop n b))"

definition Fields :: "string \<Rightarrow> string list" where
  "Fields s = fields_loop (length s) s"

lemma TrimLeftSpace_no_space:
  "TrimLeftSpace s = c # t \<Longrightarrow> \<not> list_ex (\<lambda>w. prefix w (c # t)) space_seqs"
proof (induction s rule: TrimLeftSpace.induct)
  case (1 s)
  show ?case
  proof (cases "find (\<lambda>w. prefix w s) space_seqs")
    case None
    then have "s = c # t" using 1(2) by (subst (asm) TrimLeftSpace.simps) simp
    then show ?thesis using None by (auto simp: find_None_iff list_ex_iff)
  next
    case (Some w)
    then have "TrimLeftSpace (drop (length w) s) = c # t" using 1(2) by (subst (asm) TrimLeftSpace.simps) simp
    then show ?thesis by (rule 1(1) [OF Some])
  qed
qed

text \<open>The fuel of the loop is enough: every field has at least one byte.\<close>

lemma fields_step:
  assumes "TrimLeftSpace s = c # t"
  obtains a b where "until_space (c # t) = (c # a, b)" "length b < length s"
proof -
  obtain a b where ab: "until_space t = (a, b)" by (cases "until_space t")
  have "until_space (c # t) = (c # a, b)" using TrimLeftSpace_no_space [OF assms] ab by simp
  moreover have "length b < length s"
    using until_space_length [of t] TrimLeftSpace_length [of s] assms ab by simp
  ultimately show ?thesis by (rule that)
qed

lemma fields_loop_enough: "length s \<le> n \<Longrightarrow> length s \<le> m \<Longrightarrow> fields_loop n s = fields_loop m s"
proof (induction n arbitrary: m s)
  case 0
  then show ?case by (cases m) simp_all
next
  case (Suc n)
  show ?case
  proof (cases "TrimLeftSpace s")
    case Nil
    then show ?thesis by (cases m) simp_all
  next
    case (Cons c t)
    obtain a b where ab: "until_space (c # t) = (c # a, b)" "length b < length s"
      using fields_step [OF Cons] .
    then obtain k where "m = Suc k" using Suc.prems by (cases m) auto
    moreover have "fields_loop n b = fields_loop k b" if "m = Suc k" for k
      using ab(2) Suc.prems that by (intro Suc.IH) auto
    ultimately show ?thesis
      unfolding \<open>m = Suc k\<close> fields_loop.simps Let_def Cons ab(1) by simp
  qed
qed

section \<open>Lower case\<close>

text \<open>
  \<^verbatim>\<open>strings.ToLower\<close>. The relay only compares its result with ASCII constants, so what matters
  is which inputs give ASCII bytes: the ASCII letters, and the two characters beyond ASCII whose
  lower case is ASCII, U+0130 (to \<open>i\<close>) and U+212A (to \<open>k\<close>). All other bytes beyond ASCII are kept,
  where Go may put other bytes beyond ASCII.
\<close>

definition lower_char :: "char \<Rightarrow> char" where
  "lower_char c = (if is_upper c then char_of (byte c + 32) else c)"

function ToLower :: "string \<Rightarrow> string" where
  "ToLower s =
     (case s of
        [] \<Rightarrow> []
      | c # cs \<Rightarrow>
          if prefix [CHR 0xC4, CHR 0xB0] s then CHR ''i'' # ToLower (drop 2 s)
          else if prefix [CHR 0xE2, CHR 0x84, CHR 0xAA] s then CHR ''k'' # ToLower (drop 3 s)
          else lower_char c # ToLower cs)"
  by pat_completeness auto
termination
  by (relation "measure length") auto

declare ToLower.simps [simp del]

definition ascii :: "char \<Rightarrow> bool" where
  "ascii c \<longleftrightarrow> byte c < 128"

lemma ToLower_Nil [simp]: "ToLower [] = []"
  by (subst ToLower.simps) simp

lemma ToLower_ascii: "ascii c \<Longrightarrow> ToLower (c # s) = lower_char c # ToLower s"
  by (subst ToLower.simps) (auto simp: ascii_def)

section \<open>Decimal numbers\<close>

text \<open>
  \<^verbatim>\<open>strconv.Itoa\<close> (and the \<^verbatim>\<open>%d\<close> verb) and \<^verbatim>\<open>strconv.Atoi\<close>, which fails outside
  the range of a 64-bit integer.
\<close>

definition digit_char :: "nat \<Rightarrow> char" where
  "digit_char n = char_of (48 + n)"

fun nat_digits :: "nat \<Rightarrow> string" where
  "nat_digits n =
     (if n < 10 then [digit_char n] else nat_digits (n div 10) @ [digit_char (n mod 10)])"

declare nat_digits.simps [simp del]

definition Itoa :: "int \<Rightarrow> string" where
  "Itoa i = (if i < 0 then CHR ''-'' # nat_digits (nat (- i)) else nat_digits (nat i))"

definition digits_val :: "string \<Rightarrow> nat" where
  "digits_val s = foldl (\<lambda>a c. 10 * a + (byte c - 48)) 0 s"

definition in_int64 :: "int \<Rightarrow> bool" where
  "in_int64 i \<longleftrightarrow> - (2 ^ 63) \<le> i \<and> i < 2 ^ 63"

definition Atoi :: "string \<Rightarrow> int option" where
  "Atoi s =
     (let (neg, ds) =
        (case s of
           [] \<Rightarrow> (False, [])
         | c # r \<Rightarrow> if c = CHR ''-'' then (True, r) else if c = CHR ''+'' then (False, r) else (False, s))
      in if ds = [] \<or> \<not> list_all is_digit ds then None
         else let v = (if neg then - int (digits_val ds) else int (digits_val ds))
              in if in_int64 v then Some v else None)"

lemma byte_digit_char: "n < 10 \<Longrightarrow> byte (digit_char n) = 48 + n"
  by (simp add: digit_char_def)

lemma is_digit_digit_char: "n < 10 \<Longrightarrow> is_digit (digit_char n)"
  by (simp add: is_digit_def byte_digit_char)

lemma nat_digits_not_Nil [simp]: "nat_digits n \<noteq> []"
  by (subst nat_digits.simps) simp

lemma nat_digits_digits: "list_all is_digit (nat_digits n)"
proof (induction n rule: nat_digits.induct)
  case (1 n)
  then show ?case
    by (subst nat_digits.simps) (auto simp: is_digit_digit_char)
qed

lemma digits_val_snoc: "digits_val (s @ [c]) = 10 * digits_val s + (byte c - 48)"
  by (simp add: digits_val_def)

lemma digits_val_nat_digits: "digits_val (nat_digits n) = n"
proof (induction n rule: nat_digits.induct)
  case (1 n)
  show ?case
  proof (cases "n < 10")
    case True
    then show ?thesis
      by (subst nat_digits.simps) (simp add: digits_val_def byte_digit_char)
  next
    case False
    then have "digits_val (nat_digits n) = 10 * digits_val (nat_digits (n div 10)) + n mod 10"
      by (subst nat_digits.simps) (simp add: digits_val_snoc byte_digit_char)
    also have "\<dots> = n" using 1 False by simp
    finally show ?thesis .
  qed
qed

lemma digits_not_sign: "list_all is_digit s \<Longrightarrow> s \<noteq> [] \<Longrightarrow> hd s \<noteq> CHR ''-'' \<and> hd s \<noteq> CHR ''+''"
  by (cases s) (auto simp: is_digit_def)

theorem Atoi_Itoa: "in_int64 i \<Longrightarrow> Atoi (Itoa i) = Some i"
proof (cases "i < 0")
  case True
  then show "in_int64 i \<Longrightarrow> Atoi (Itoa i) = Some i"
    by (simp add: Atoi_def Itoa_def nat_digits_digits digits_val_nat_digits)
next
  case False
  obtain c r where cr: "nat_digits (nat i) = c # r"
    by (cases "nat_digits (nat i)") auto
  have "c \<noteq> CHR ''-''" "c \<noteq> CHR ''+''"
    using digits_not_sign [OF nat_digits_digits, of "nat i"] cr by auto
  moreover have "list_all is_digit (c # r)" using nat_digits_digits [of "nat i"] cr by simp
  moreover have "digits_val (c # r) = nat i" using digits_val_nat_digits [of "nat i"] cr by simp
  ultimately show "in_int64 i \<Longrightarrow> Atoi (Itoa i) = Some i"
    using False cr by (simp add: Atoi_def Itoa_def)
qed

lemma is_digit_graphic [simp]: "is_digit c \<Longrightarrow> graphic c"
  by (auto simp: is_digit_def graphic_def)

lemma nat_digits_graphic: "list_all graphic (nat_digits n)"
  using nat_digits_digits [of n] by (auto simp: list_all_iff)

lemma Itoa_graphic: "0 \<le> i \<Longrightarrow> list_all graphic (Itoa i)"
  by (simp add: Itoa_def nat_digits_graphic)

lemma Itoa_digits: "0 \<le> i \<Longrightarrow> list_all is_digit (Itoa i)"
  by (simp add: Itoa_def nat_digits_digits)

section \<open>Anchored character-class patterns\<close>

text \<open>
  The relay's validation patterns have the form \<open>^[class]{lo,hi}$\<close>. In Go's \<^verbatim>\<open>regexp\<close>
  the \<open>$\<close> of such a pattern matches at the end of the text only, not before a final newline.
\<close>

definition matches_class :: "(char \<Rightarrow> bool) \<Rightarrow> nat \<Rightarrow> nat \<Rightarrow> string \<Rightarrow> bool" where
  "matches_class ok lo hi s \<longleftrightarrow> lo \<le> length s \<and> length s \<le> hi \<and> list_all ok s"

definition name_char :: "char \<Rightarrow> bool" where
  "name_char c \<longleftrightarrow> is_alnum c \<or> c = CHR ''_'' \<or> c = CHR ''-''"

lemma name_char_graphic [simp]: "name_char c \<Longrightarrow> graphic c"
  by (auto simp: name_char_def graphic_def is_alnum_def byte_class_defs)

declare matches_class_def [go_defs] name_char_def [go_defs]

end
