(* ===== verification/Go_Path.thy ===== *)
theory Go_Path
  imports Go_Strings
begin

text \<open>
  Go's \<^verbatim>\<open>path/filepath\<close> on Unix, as far as the relay uses it: \<^verbatim>\<open>Clean\<close>, \<^verbatim>\<open>Join\<close>, \<^verbatim>\<open>Base\<close>,
  \<^verbatim>\<open>Dir\<close> and \<^verbatim>\<open>IsAbs\<close>. These are lexical functions on strings. The lemmas say what a cleaned path
  looks like (no empty, \<open>.\<close> or \<open>..\<close> component when it is absolute) and what joining a plain
  name to a cleaned directory gives, which is what the path guards of the components rest on.
\<close>

section \<open>Definitions\<close>

abbreviation sep :: char where
  "sep \<equiv> CHR 0x2F"

definition IsAbs :: "string \<Rightarrow> bool" where
  "IsAbs p \<longleftrightarrow> HasPrefix p [sep]"

text \<open>One component after another; \<open>acc\<close> is the output so far, last component first.\<close>

fun clean_comps :: "bool \<Rightarrow> string list \<Rightarrow> string list \<Rightarrow> string list" where
  "clean_comps rooted acc [] = rev acc"
| "clean_comps rooted acc (c # cs) =
     (if c = [] \<or> c = ''.'' then clean_comps rooted acc cs
      else if c = ''..'' then
        (case acc of
           [] \<Rightarrow> clean_comps rooted (if rooted then [] else [''..'']) cs
         | a # as \<Rightarrow> clean_comps rooted (if a = ''..'' then c # acc else as) cs)
      else clean_comps rooted (c # acc) cs)"

definition Clean :: "string \<Rightarrow> string" where
  "Clean p =
     (let out = (if IsAbs p then [sep] else []) @ Join (clean_comps (IsAbs p) [] (Split p sep)) [sep]
      in if out = [] then ''.'' else out)"

definition JoinPath :: "string \<Rightarrow> string \<Rightarrow> string" where
  "JoinPath a b =
     (if a \<noteq> [] then Clean (a @ [sep] @ b) else if b \<noteq> [] then Clean b else [])"

definition strip_trailing_seps :: "string \<Rightarrow> string" where
  "strip_trailing_seps p = rev (dropWhile (\<lambda>c. c = sep) (rev p))"

definition BasePath :: "string \<Rightarrow> string" where
  "BasePath p =
     (if p = [] then ''.''
      else let q = rev (takeWhile (\<lambda>c. c \<noteq> sep) (rev (strip_trailing_seps p)))
           in if q = [] then [sep] else q)"

definition DirPath :: "string \<Rightarrow> string" where
  "DirPath p = Clean (rev (dropWhile (\<lambda>c. c \<noteq> sep) (rev p)))"

lemmas path_defs = IsAbs_def Clean_def JoinPath_def strip_trailing_seps_def BasePath_def DirPath_def
declare path_defs [go_defs]

section \<open>Plain components\<close>

text \<open>A plain component is a file name: not empty, not \<open>.\<close> or \<open>..\<close>, without a separator.\<close>

definition plain :: "string \<Rightarrow> bool" where
  "plain c \<longleftrightarrow> c \<noteq> [] \<and> c \<noteq> ''.'' \<and> c \<noteq> ''..'' \<and> sep \<notin> set c"

lemma plain_not_Nil [dest]: "plain c \<Longrightarrow> c \<noteq> []"
  by (simp add: plain_def)

lemma clean_comps_plain:
  "list_all plain cs \<Longrightarrow> clean_comps r acc cs = rev acc @ cs"
  by (induction cs arbitrary: acc) (auto simp: plain_def)

lemma clean_comps_rooted_plain:
  "list_all plain acc \<Longrightarrow> (\<And>c. c \<in> set cs \<Longrightarrow> sep \<notin> set c)
     \<Longrightarrow> list_all plain (clean_comps True acc cs)"
proof (induction cs arbitrary: acc)
  case Nil
  then show ?case by (simp add: list_all_iff)
next
  case (Cons c cs)
  then show ?case by (cases acc) (auto simp: plain_def)
qed

lemma clean_comps_append:
  "clean_comps r acc (xs @ ys) = clean_comps r (rev (clean_comps r acc xs)) ys"
proof (induction xs arbitrary: acc)
  case Nil
  then show ?case by simp
next
  case (Cons x xs)
  then show ?case by (cases acc) auto
qed

section \<open>Absolute paths as lists of components\<close>

text \<open>An absolute clean path is \<open>abs_path cs\<close> for its plain components \<open>cs\<close>.\<close>

definition abs_path :: "string list \<Rightarrow> string" where
  "abs_path cs = sep # Join cs [sep]"

lemma Split_abs: "Split (sep # p) sep = [] # Split p sep"
  by simp

lemma Clean_abs: "IsAbs p \<Longrightarrow> Clean p = abs_path (clean_comps True [] (Split p sep))"
  by (simp add: Clean_def abs_path_def)

lemma Clean_abs_comps:
  assumes "IsAbs p"
  obtains cs where "list_all plain cs" "Clean p = abs_path cs"
  using assms clean_comps_rooted_plain [of "[]" "Split p sep"]
  by (auto simp: Clean_abs dest: Split_pieces)

lemma IsAbs_abs_path [simp]: "IsAbs (abs_path cs)"
  by (simp add: IsAbs_def abs_path_def)

lemma plain_no_sep: "list_all plain cs \<Longrightarrow> c \<in> set cs \<Longrightarrow> sep \<notin> set c"
  by (auto simp: list_all_iff plain_def)

lemma Split_abs_path:
  "list_all plain cs \<Longrightarrow> Split (abs_path cs) sep = [] # (if cs = [] then [[]] else cs)"
  using Split_Join [of cs sep] by (auto simp: abs_path_def dest: plain_no_sep)

lemma Clean_abs_path [simp]:
  assumes "list_all plain cs"
  shows "Clean (abs_path cs) = abs_path cs"
  using assms by (auto simp: Clean_abs Split_abs_path clean_comps_plain)

lemma abs_path_snoc:
  "abs_path (cs @ [c]) = (if cs = [] then sep # c else abs_path cs @ sep # c)"
  by (auto simp: abs_path_def Join_append)

lemma JoinPath_abs:
  assumes "list_all plain cs" "plain c"
  shows "JoinPath (abs_path cs) c = abs_path (cs @ [c])"
proof -
  have "Split (abs_path cs @ sep # c) sep = [] # (if cs = [] then [[]] else cs) @ [c]"
    using assms Split_abs_path [OF assms(1)] by (simp add: Split_append_sep plain_def)
  moreover have "IsAbs (abs_path cs @ sep # c)"
    by (simp add: IsAbs_def abs_path_def)
  ultimately have "Clean (abs_path cs @ sep # c) = abs_path (cs @ [c])"
    using assms by (auto simp: Clean_abs clean_comps_append clean_comps_plain plain_def)
  then show ?thesis
    using assms by (auto simp: JoinPath_def abs_path_def)
qed

lemma DirPath_abs:
  assumes "list_all plain cs" "plain c"
  shows "DirPath (abs_path (cs @ [c])) = abs_path cs"
proof -
  have nosep: "sep \<notin> set c" using assms(2) by (simp add: plain_def)
  have dw: "dropWhile (\<lambda>x. x \<noteq> sep) (rev (d @ sep # c)) = sep # rev d" for d
    using nosep by (simp add: dropWhile_append)
  show ?thesis
  proof (cases "cs = []")
    case True
    then show ?thesis
      using dw [of "[]"] by (simp add: DirPath_def abs_path_def Clean_def IsAbs_def)
  next
    case False
    have "DirPath (abs_path (cs @ [c])) = Clean (abs_path cs @ [sep])"
      using False dw [of "abs_path cs"] by (simp add: DirPath_def abs_path_snoc)
    also have "Split (abs_path cs @ [sep]) sep = [] # cs @ [[]]"
      using False assms(1) Split_append_sep [of "abs_path cs" sep "[]"] by (simp add: Split_abs_path)
    then have "Clean (abs_path cs @ [sep]) = abs_path cs"
      using assms(1) by (simp add: Clean_abs IsAbs_def abs_path_def clean_comps_append clean_comps_plain)
    finally show ?thesis .
  qed
qed

lemma BasePath_abs:
  assumes "plain c"
  shows "BasePath (abs_path (cs @ [c])) = c"
proof -
  have nosep: "sep \<notin> set c" and ne: "c \<noteq> []" using assms by (auto simp: plain_def)
  then obtain b x where c: "c = b @ [x]" "x \<noteq> sep" by (cases c rule: rev_cases) auto
  have strip: "strip_trailing_seps (d @ sep # c) = d @ sep # c" for d
    using c by (simp add: strip_trailing_seps_def)
  have "takeWhile (\<lambda>x. x \<noteq> sep) (rev c @ sep # r) = rev c" for r
    using nosep by (simp add: takeWhile_append)
  then have base: "BasePath (d @ sep # c) = c" for d
    using ne by (simp add: BasePath_def strip)
  show ?thesis
  proof (cases "cs = []")
    case True
    then show ?thesis using base [of "[]"] by (simp add: abs_path_def)
  next
    case False
    then show ?thesis using base [of "abs_path cs"] by (simp add: abs_path_snoc)
  qed
qed

lemma abs_path_inj:
  assumes "list_all plain cs" "list_all plain ds" "abs_path cs = abs_path ds"
  shows "cs = ds"
proof -
  have "Split (abs_path cs) sep = Split (abs_path ds) sep" using assms(3) by simp
  then show ?thesis using assms(1,2)
    by (auto simp: Split_abs_path plain_def split: if_splits)
qed

text \<open>A path below a directory: the directory's components, then more.\<close>

lemma abs_path_under:
  assumes "cs \<noteq> []" "ds \<noteq> []"
  shows "HasPrefix (abs_path (cs @ ds)) (abs_path cs @ [sep])"
  using assms by (simp add: abs_path_def Join_append)

lemma clean_comps_no_dotdot:
  assumes "\<And>c. c \<in> set cs \<Longrightarrow> c \<noteq> ''..''"
  shows "clean_comps r acc cs = rev acc @ filter (\<lambda>c. c \<noteq> [] \<and> c \<noteq> ''.'') cs"
  using assms by (induction cs arbitrary: acc) auto


text \<open>Joining a proper name to an absolute path, cleaned or not.\<close>

lemma JoinPath_plain:
  assumes "IsAbs d" "plain n"
  obtains cs where "list_all plain cs" "Clean d = abs_path cs" "JoinPath d n = abs_path (cs @ [n])"
proof -
  let ?cs = "clean_comps True [] (Split d sep)"
  have abs: "IsAbs (d @ sep # n)" using assms(1) by (auto simp: IsAbs_def prefix_def)
  have "list_all plain ?cs"
    by (rule clean_comps_rooted_plain) (simp_all add: Split_pieces)
  moreover have "Split (d @ sep # n) sep = Split d sep @ [n]"
    using assms(2) by (simp add: Split_append_sep plain_def)
  then have "clean_comps True [] (Split (d @ sep # n) sep) = ?cs @ [n]"
    using assms(2) by (simp add: clean_comps_append plain_def)
  moreover have "d \<noteq> []" using assms(1) by (auto simp: IsAbs_def)
  ultimately show ?thesis
    using that [of ?cs] Clean_abs [OF assms(1)] Clean_abs [OF abs] by (simp add: JoinPath_def)
qed

text \<open>A cleaned path below a top-level directory: absolute, with proper names all the way.\<close>

lemma clean_comps_proper:
  "list_all (\<lambda>c. c \<noteq> [] \<and> sep \<notin> set c) acc \<Longrightarrow> list_all (\<lambda>c. sep \<notin> set c) cs \<Longrightarrow>
     list_all (\<lambda>c. c \<noteq> [] \<and> sep \<notin> set c) (clean_comps r acc cs)"
proof (induction cs arbitrary: acc)
  case (Cons c cs)
  then have IH: "list_all (\<lambda>c. c \<noteq> [] \<and> sep \<notin> set c) acc' \<Longrightarrow>
      list_all (\<lambda>c. c \<noteq> [] \<and> sep \<notin> set c) (clean_comps r acc' cs)" for acc' by simp
  show ?case
  proof (cases "c = [] \<or> c = ''.''")
    case True
    then show ?thesis using IH [of acc] Cons.prems by auto
  next
    case False
    then show ?thesis
      using IH [of acc] IH [of "c # acc"] IH [of "tl acc"] IH [of "[]"] IH [of "[''..'']"] IH [of "''..'' # acc"] Cons.prems
      by (cases acc; cases r) (simp_all, auto)
  qed
qed (simp add: list_all_iff)

lemma Clean_sep_IsAbs:
  assumes "HasPrefix (Clean p) (sep # q)"
  shows "IsAbs p"
proof (rule ccontr)
  assume n: "\<not> IsAbs p"
  let ?cs = "clean_comps False [] (Split p sep)"
  have "list_all (\<lambda>c. c \<noteq> [] \<and> sep \<notin> set c) ?cs"
    by (rule clean_comps_proper) (simp_all add: list_all_iff Split_pieces)
  moreover have "Clean p = (if Join ?cs [sep] = [] then ''.'' else Join ?cs [sep])"
    using n by (simp add: Clean_def Let_def)
  moreover have "\<not> prefix (sep # q) (Join (c # xs) [sep])" if "c \<noteq> []" "sep \<notin> set c" for c xs
  proof
    assume "prefix (sep # q) (Join (c # xs) [sep])"
    then have "hd c = sep" using Join_hd [OF that(1), of xs "[sep]"] by (auto simp: prefix_def)
    then show False using that hd_in_set [of c] by simp
  qed
  ultimately show False using assms by (cases ?cs) (auto split: if_splits)
qed

lemma allowed_prefix:
  assumes "HasPrefix (Clean dir) (sep # root @ [sep])" "plain root"
  obtains cs where "cs \<noteq> []" "list_all plain (root # cs)" "Clean dir = abs_path (root # cs)"
proof -
  have "IsAbs dir" using assms(1) by (rule Clean_sep_IsAbs)
  then obtain ds where ds: "list_all plain ds" "Clean dir = abs_path ds" by (rule Clean_abs_comps)
  obtain rest where r: "abs_path ds = sep # root @ sep # rest"
    using assms(1) ds(2) by (auto simp: prefix_def)
  have "Split (abs_path ds) sep = [] # root # Split rest sep"
    using assms(2) by (simp add: r Split_append_sep plain_def)
  then have "ds \<noteq> []" "ds = root # Split rest sep"
    using ds(1) assms(2) by (auto simp: Split_abs_path plain_def split: if_splits)
  then show ?thesis using that [of "Split rest sep"] ds by simp
qed

end
