(* ===== verification/Go_Http.thy ===== *)
theory Go_Http
  imports Go_Strings
begin

text \<open>
  Requests and responses as the handlers see them. A request carries the fields of
  \<^verbatim>\<open>http.Request\<close> that the relay reads; the query is the decoded list of pairs, in order.
  A response is either \<^verbatim>\<open>http.Error\<close> with its status and text, or a status with a payload
  (the value handed to the JSON encoder, if any). Also the non-blocking send on a buffered Go
  channel, which the hub and the permission broker share.
\<close>

section \<open>Requests and responses\<close>

record http_request =
  req_Method :: string
  req_Path :: string
  req_Query :: "(string \<times> string) list"
  req_RemoteAddr :: string
  req_Authorization :: string
  req_Body :: string

text \<open>\<^verbatim>\<open>r.URL.Query().Get(key)\<close>: the first value, or the empty string.\<close>

definition query_get :: "http_request \<Rightarrow> string \<Rightarrow> string" where
  "query_get r key = (case map_of (req_Query r) key of None \<Rightarrow> [] | Some v \<Rightarrow> v)"

datatype 'b http_response =
    HttpError nat string
  | HttpReply nat "'b option"

fun status_of :: "'b http_response \<Rightarrow> nat" where
  "status_of (HttpError n _) = n"
| "status_of (HttpReply n _) = n"

definition Unauthorized :: "'b http_response" where
  "Unauthorized = HttpError 401 ''Unauthorized''"

lemma status_Unauthorized [simp]: "status_of Unauthorized = 401"
  by (simp add: Unauthorized_def)

text \<open>\<^verbatim>\<open>http.MaxBytesReader\<close>: reading more than the limit is an error.\<close>

definition max_bytes :: "nat \<Rightarrow> string \<Rightarrow> string option" where
  "max_bytes limit body = (if length body \<le> limit then Some body else None)"

section \<open>Buffered channels\<close>

text \<open>\<^verbatim>\<open>select { case ch <- v: default: }\<close> on a channel with \<open>cap\<close> places: never blocks.\<close>

definition try_send :: "nat \<Rightarrow> 'a \<Rightarrow> 'a list \<Rightarrow> 'a list" where
  "try_send cap v buf = (if length buf < cap then buf @ [v] else buf)"

lemma length_try_send: "length buf \<le> cap \<Longrightarrow> length (try_send cap v buf) \<le> cap"
  by (simp add: try_send_def)

lemma set_try_send: "set (try_send cap v buf) \<subseteq> insert v (set buf)"
  by (auto simp: try_send_def)

lemma prefix_try_send: "prefix buf (try_send cap v buf)"
  by (simp add: try_send_def)

end
