(* ===== verification/Interfaces.thy ===== *)
theory Interfaces
  imports Go_Strings Go_Path Go_Http
begin

text \<open>
  The contracts between the components, as locales: what a client relies on, with the client's
  facts proved once. Each is interpreted in the theory of the component that provides it.
  \<^item> \<open>keyed_store\<close>: a mutex-protected Go map (hub sessions, activity tokens, clients, pending
    permissions, tracked sessions);
  \<^item> \<open>path_guard\<close>: a function from user-supplied names to paths below one directory (shared
    files, project clones);
  \<^item> \<open>request_guard\<close>: an authentication check in front of handlers (bearer and basic);
  \<^item> \<open>env_policy\<close>: an environment handed to a child process that must not hold secrets (PTY,
    git, sandbox);
  \<^item> \<open>invariant_system\<close>: a step relation with an inductive invariant.
\<close>

section \<open>Keyed stores\<close>

locale keyed_store =
  fixes lookup :: "'s \<Rightarrow> 'k \<Rightarrow> 'v option"
    and store :: "'k \<Rightarrow> 'v \<Rightarrow> 's \<Rightarrow> 's"
    and remove :: "'k \<Rightarrow> 's \<Rightarrow> 's"
  assumes lookup_store: "lookup (store k v s) j = (if j = k then Some v else lookup s j)"
    and lookup_remove: "lookup (remove k s) j = (if j = k then None else lookup s j)"
begin

lemma store_hit: "lookup (store k v s) k = Some v"
  by (simp add: lookup_store)

lemma store_frame: "j \<noteq> k \<Longrightarrow> lookup (store k v s) j = lookup s j"
  by (simp add: lookup_store)

lemma remove_hit: "lookup (remove k s) k = None"
  by (simp add: lookup_remove)

lemma remove_frame: "j \<noteq> k \<Longrightarrow> lookup (remove k s) j = lookup s j"
  by (simp add: lookup_remove)

lemma remove_store: "lookup (remove k (store k v s)) = lookup (remove k s)"
  by (rule ext) (simp add: lookup_store lookup_remove)

lemma last_store_wins: "lookup (store k w (store k v s)) = lookup (store k w s)"
  by (rule ext) (simp add: lookup_store)

lemma dom_store: "dom (lookup (store k v s)) = insert k (dom (lookup s))"
  by (auto simp: lookup_store split: if_splits)

lemma dom_remove: "dom (lookup (remove k s)) = dom (lookup s) - {k}"
  by (auto simp: lookup_remove split: if_splits)

lemma finite_store_remove:
  "finite (dom (lookup s)) \<Longrightarrow>
     finite (dom (lookup (store k v s))) \<and> finite (dom (lookup (remove k s)))"
  by (simp add: dom_store dom_remove)

end

section \<open>Path guards\<close>

text \<open>\<open>p\<close> is a direct child, called \<open>n\<close>, of the directory \<open>base\<close>.\<close>

definition child_of :: "string \<Rightarrow> string \<Rightarrow> string \<Rightarrow> bool" where
  "child_of base n p \<longleftrightarrow>
     (\<exists>cs. list_all plain cs \<and> plain n \<and> base = abs_path cs \<and> p = abs_path (cs @ [n]))"

lemma child_ofE:
  assumes "child_of base n p"
  obtains cs where "list_all plain cs" "plain n" "base = abs_path cs" "p = abs_path (cs @ [n])"
  using assms by (auto simp: child_of_def)

lemma child_of_dir: "child_of base n p \<Longrightarrow> DirPath p = base"
  by (auto elim!: child_ofE simp: DirPath_abs)

lemma child_of_base: "child_of base n p \<Longrightarrow> BasePath p = n"
  by (auto elim!: child_ofE simp: BasePath_abs)

lemma child_of_neq: "child_of base n p \<Longrightarrow> p \<noteq> base"
proof (elim child_ofE)
  fix cs
  assume a: "list_all plain cs" "plain n" "base = abs_path cs" "p = abs_path (cs @ [n])"
  show "p \<noteq> base"
  proof
    assume "p = base"
    then have "abs_path (cs @ [n]) = abs_path cs" using a by simp
    with a(1,2) have "cs @ [n] = cs"
      by (intro abs_path_inj) auto
    then show False by simp
  qed
qed

locale path_guard =
  fixes base :: "'g \<Rightarrow> string"
    and resolve :: "'g \<Rightarrow> string \<Rightarrow> string result"
    and wf :: "'g \<Rightarrow> bool"
  assumes resolve_child: "wf g \<Longrightarrow> resolve g n = Inr p \<Longrightarrow> child_of (base g) n p"
begin

lemma resolved_in_base: "wf g \<Longrightarrow> resolve g n = Inr p \<Longrightarrow> DirPath p = base g \<and> p \<noteq> base g"
  using resolve_child child_of_dir child_of_neq by blast

lemma resolved_name: "wf g \<Longrightarrow> resolve g n = Inr p \<Longrightarrow> BasePath p = n"
  using resolve_child child_of_base by blast

lemma resolve_inj: "wf g \<Longrightarrow> resolve g n = Inr p \<Longrightarrow> resolve g m = Inr p \<Longrightarrow> n = m"
  using resolved_name by blast

lemma resolved_plain: "wf g \<Longrightarrow> resolve g n = Inr p \<Longrightarrow> plain n"
  using resolve_child by (auto elim: child_ofE)

end

section \<open>Request guards\<close>

text \<open>
  A guard runs on the authenticator's state before the handler; a refused request gets 401 and
  leaves everything but the authenticator alone.
\<close>

definition guarded ::
  "('r \<Rightarrow> 'a \<Rightarrow> bool \<times> 'a) \<Rightarrow> ('r \<Rightarrow> 's \<Rightarrow> 'b http_response \<times> 's) \<Rightarrow>
   'r \<Rightarrow> 'a \<times> 's \<Rightarrow> 'b http_response \<times> ('a \<times> 's)" where
  "guarded check h r st =
     (let (ok, a) = check r (fst st)
      in if ok then (let (resp, s) = h r (snd st) in (resp, (a, s)))
         else (Unauthorized, (a, snd st)))"

locale request_guard =
  fixes check :: "'r \<Rightarrow> 'a \<Rightarrow> bool \<times> 'a"
    and knows :: "'r \<Rightarrow> 'a \<Rightarrow> bool"
  assumes check_sound: "fst (check r a) \<Longrightarrow> knows r a"
begin

lemma guarded_frame:
  "\<not> knows r a \<Longrightarrow>
     fst (guarded check h r (a, s)) = Unauthorized \<and> snd (snd (guarded check h r (a, s))) = s"
proof -
  assume "\<not> knows r a"
  with check_sound [of r a] obtain a' where "check r a = (False, a')"
    by (cases "check r a") auto
  then show ?thesis by (simp add: guarded_def)
qed

lemma guarded_change:
  "snd (snd (guarded check h r (a, s))) \<noteq> s \<Longrightarrow> knows r a"
  by (rule ccontr) (simp add: guarded_frame)

end

section \<open>Environments of child processes\<close>

locale env_policy =
  fixes build :: "'c \<Rightarrow> string list"
    and secret :: "string \<Rightarrow> bool"
  assumes no_secret: "e \<in> set (build c) \<Longrightarrow> \<not> secret e"
begin

lemma filter_secret: "filter secret (build c) = []"
  using no_secret by (auto simp: filter_empty_conv)

lemma sub_env: "set es \<subseteq> set (build c) \<Longrightarrow> filter secret es = []"
  using no_secret by (auto simp: filter_empty_conv)

end

section \<open>Step relations with an invariant\<close>

locale invariant_system =
  fixes start :: "'s \<Rightarrow> bool"
    and step :: "'s \<Rightarrow> 's \<Rightarrow> bool"
    and inv :: "'s \<Rightarrow> bool"
  assumes start_inv: "start s \<Longrightarrow> inv s"
    and step_inv: "inv s \<Longrightarrow> step s t \<Longrightarrow> inv t"
begin

lemma steps_inv: "step\<^sup>*\<^sup>* s t \<Longrightarrow> inv s \<Longrightarrow> inv t"
  by (induction rule: rtranclp_induct) (auto intro: step_inv)

lemma reachable_inv: "start s \<Longrightarrow> step\<^sup>*\<^sup>* s t \<Longrightarrow> inv t"
  using steps_inv start_inv by blast

end

end
