(* ===== verification/Go_Encoding.thy ===== *)
theory Go_Encoding
  imports Go_Strings
begin

text \<open>
  Go's \<^verbatim>\<open>encoding/base64\<close> (\<^verbatim>\<open>StdEncoding\<close>) and \<^verbatim>\<open>encoding/hex\<close> on byte strings. The decoder
  skips carriage returns and newlines anywhere, wants complete groups of four characters, and takes
  padding only at the end. The round trip says that what the relay encodes it decodes again.
\<close>

section \<open>Base64\<close>

definition b64_alphabet :: string where
  "b64_alphabet = ''ABCDEFGHIJKLMNOPQRSTUVWXYZabcdefghijklmnopqrstuvwxyz0123456789+/''"

definition b64_char :: "nat \<Rightarrow> char" where
  "b64_char n =
     (if n < 26 then char_of (65 + n)
      else if n < 52 then char_of (71 + n)
      else if n < 62 then char_of (n - 4)
      else if n = 62 then CHR ''+'' else CHR 0x2F)"

definition b64_val :: "char \<Rightarrow> nat option" where
  "b64_val c =
     (if is_upper c then Some (byte c - 65)
      else if is_lower c then Some (byte c - 71)
      else if is_digit c then Some (byte c + 4)
      else if c = CHR ''+'' then Some 62
      else if c = CHR 0x2F then Some 63
      else None)"

fun b64_encode :: "string \<Rightarrow> string" where
  "b64_encode [] = []"
| "b64_encode [a] =
     [b64_char (byte a div 4), b64_char ((byte a mod 4) * 16), CHR ''='', CHR ''='']"
| "b64_encode [a, b] =
     [b64_char (byte a div 4), b64_char ((byte a mod 4) * 16 + byte b div 16),
      b64_char ((byte b mod 16) * 4), CHR ''='']"
| "b64_encode (a # b # c # s) =
     [b64_char (byte a div 4), b64_char ((byte a mod 4) * 16 + byte b div 16),
      b64_char ((byte b mod 16) * 4 + byte c div 64), b64_char (byte c mod 64)] @ b64_encode s"

definition quad1 :: "nat \<Rightarrow> nat \<Rightarrow> char" where
  "quad1 x y = char_of (x * 4 + y div 16)"

definition quad2 :: "nat \<Rightarrow> nat \<Rightarrow> char" where
  "quad2 y z = char_of ((y mod 16) * 16 + z div 4)"

definition quad3 :: "nat \<Rightarrow> nat \<Rightarrow> char" where
  "quad3 z w = char_of ((z mod 4) * 64 + w)"

fun b64_groups :: "string \<Rightarrow> string option" where
  "b64_groups [] = Some []"
| "b64_groups (a # b # c # d # s) =
     (case (b64_val a, b64_val b) of
        (Some x, Some y) \<Rightarrow>
          (if c = CHR ''='' then
             (if d = CHR ''='' \<and> s = [] then Some [quad1 x y] else None)
           else
             (case b64_val c of
                None \<Rightarrow> None
              | Some z \<Rightarrow>
                  (if d = CHR ''='' then (if s = [] then Some [quad1 x y, quad2 y z] else None)
                   else
                     (case b64_val d of
                        None \<Rightarrow> None
                      | Some w \<Rightarrow>
                          map_option (\<lambda>r. quad1 x y # quad2 y z # quad3 z w # r) (b64_groups s)))))
      | _ \<Rightarrow> None)"
| "b64_groups _ = None"

definition b64_decode :: "string \<Rightarrow> string option" where
  "b64_decode s = b64_groups (filter (\<lambda>c. c \<noteq> CHR 0x0A \<and> c \<noteq> CHR 0x0D) s)"

section \<open>Hexadecimal\<close>

definition hex_digit :: "nat \<Rightarrow> char" where
  "hex_digit n = (if n < 10 then char_of (48 + n) else char_of (87 + n))"

definition hex_encode :: "string \<Rightarrow> string" where
  "hex_encode s = concat (map (\<lambda>c. [hex_digit (byte c div 16), hex_digit (byte c mod 16)]) s)"

lemma length_hex_encode: "length (hex_encode s) = 2 * length s"
  by (induction s) (auto simp: hex_encode_def)

section \<open>Round trip\<close>

lemma byte_less [simp]: "byte c < 256"
proof -
  have "byte c = byte c mod 256" by simp
  then show ?thesis using mod_less_divisor [of 256 "byte c"] by linarith
qed

lemma byte_char_of: "n < 256 \<Longrightarrow> byte (char_of n) = n"
  by simp

lemma b64_val_char:
  assumes "n < 64"
  shows "b64_val (b64_char n) = Some n"
proof -
  consider "n < 26" | "26 \<le> n" "n < 52" | "52 \<le> n" "n < 62" | "n = 62" | "n = 63"
    using assms by linarith
  then show ?thesis
    by cases (auto simp: b64_char_def b64_val_def byte_class_defs)
qed

lemma b64_val_Some:
  assumes "b64_val c = Some n"
  shows "graphic c" "c \<noteq> CHR ''=''" "c \<noteq> CHR 0x23" "c \<noteq> CHR 0x0A" "c \<noteq> CHR 0x0D"
proof -
  show "graphic c"
    using assms by (auto simp: b64_val_def byte_class_defs split: if_splits)
  show "c \<noteq> CHR ''=''" "c \<noteq> CHR 0x23" "c \<noteq> CHR 0x0A" "c \<noteq> CHR 0x0D"
    using assms by (auto simp: b64_val_def byte_class_defs)
qed

lemmas b64_char_cases = b64_val_char b64_val_Some [OF b64_val_char]

lemma quad_bounds:
  "byte a div 4 < 64" "byte a mod 4 * 16 + byte b div 16 < 64"
  "byte b mod 16 * 4 + byte c div 64 < 64" "byte c mod 64 < 64"
  "byte a mod 4 * 16 < 64" "byte b mod 16 * 4 < 64"
proof -
  have "byte b div 16 < 16" "byte c div 64 < 4" "byte a div 4 < 64"
    using byte_less by (simp_all add: less_mult_imp_div_less)
  moreover have "byte a mod 4 < 4" "byte b mod 16 < 16" "byte c mod 64 < 64" by simp_all
  ultimately show "byte a div 4 < 64" "byte a mod 4 * 16 + byte b div 16 < 64"
    "byte b mod 16 * 4 + byte c div 64 < 64" "byte c mod 64 < 64"
    "byte a mod 4 * 16 < 64" "byte b mod 16 * 4 < 64"
    by linarith+
qed

lemma digit_pair:
  fixes q r k :: nat
  assumes "r < k"
  shows "(q * k + r) div k = q" "(q * k + r) mod k = r"
  using assms by simp_all

lemma quad_values:
  "quad1 (byte a div 4) (byte a mod 4 * 16 + byte b div 16) = a"
  "quad2 (byte a mod 4 * 16 + byte b div 16) (byte b mod 16 * 4 + byte c div 64) = b"
  "quad3 (byte b mod 16 * 4 + byte c div 64) (byte c mod 64) = c"
  "quad1 (byte a div 4) (byte a mod 4 * 16) = a"
  "quad2 (byte a mod 4 * 16 + byte b div 16) (byte b mod 16 * 4) = b"
proof -
  have hb: "byte b div 16 < 16" and hc: "byte c div 64 < 4"
    using byte_less by (simp_all add: less_mult_imp_div_less)
  show "quad1 (byte a div 4) (byte a mod 4 * 16 + byte b div 16) = a"
    by (simp only: quad1_def digit_pair [OF hb] div_mult_mod_eq char_of_char)
  show "quad2 (byte a mod 4 * 16 + byte b div 16) (byte b mod 16 * 4 + byte c div 64) = b"
    by (simp only: quad2_def digit_pair [OF hb] digit_pair [OF hc] div_mult_mod_eq char_of_char)
  show "quad3 (byte b mod 16 * 4 + byte c div 64) (byte c mod 64) = c"
    by (simp only: quad3_def digit_pair [OF hc] div_mult_mod_eq char_of_char)
  show "quad1 (byte a div 4) (byte a mod 4 * 16) = a"
    using digit_pair [of 0 16 "byte a mod 4"] by (simp add: quad1_def)
  show "quad2 (byte a mod 4 * 16 + byte b div 16) (byte b mod 16 * 4) = b"
    by (simp add: quad2_def mod_less [OF hb])
qed

lemma b64_groups_encode: "b64_groups (b64_encode s) = Some s"
  by (induction s rule: b64_encode.induct)
     (simp_all add: b64_char_cases quad_bounds quad_values)

lemma b64_encode_chars:
  "c \<in> set (b64_encode s) \<Longrightarrow> graphic c \<and> c \<noteq> CHR 0x23 \<and> c \<noteq> CHR 0x0A \<and> c \<noteq> CHR 0x0D"
proof (induction s rule: b64_encode.induct)
  case 1
  then show ?case by simp
next
  case (2 a)
  then show ?case by (auto simp: b64_char_cases quad_bounds) (auto simp: graphic_def)
next
  case (3 a b)
  then show ?case by (auto simp: b64_char_cases quad_bounds) (auto simp: graphic_def)
next
  case (4 a b c s)
  then show ?case by (auto simp: b64_char_cases quad_bounds)
qed

theorem b64_decode_encode: "b64_decode (b64_encode s) = Some s"
proof -
  have "filter (\<lambda>c. c \<noteq> CHR 0x0A \<and> c \<noteq> CHR 0x0D) (b64_encode s) = b64_encode s"
    by (rule filter_True) (auto dest: b64_encode_chars)
  then show ?thesis by (simp add: b64_decode_def b64_groups_encode)
qed

lemma b64_encode_graphic: "list_all graphic (b64_encode s)"
  by (auto simp: list_all_iff dest: b64_encode_chars)

lemma b64_encode_not_Nil: "s \<noteq> [] \<Longrightarrow> b64_encode s \<noteq> []"
  by (cases s rule: b64_encode.cases) auto

end
