(* ===== verification/Auth.thy ===== *)
theory Auth
  imports Interfaces Go_Encoding
begin

text \<open>
  \<^verbatim>\<open>internal/auth/auth.go\<close>: the shared authenticator. Its state is the accepted token and, per
  client IP, the instants of recent failures. The clock is an argument: \<open>validate\<close> reads it once
  in \<open>isLocked\<close> and once more in \<open>recordFailure\<close>, so it takes both readings. Every operation runs
  under the authenticator's mutex, so a concurrent execution is a sequence of them.
\<close>

section \<open>State and operations\<close>

definition maxFailures :: nat where
  "maxFailures = 5"

definition lockoutDuration :: time where
  "lockoutDuration = 60 * 1000000000"

record Authenticator =
  auth_token :: string
  auth_failures :: "string \<rightharpoonup> time list"

definition New :: "string \<Rightarrow> Authenticator" where
  "New token = \<lparr>auth_token = token, auth_failures = Map.empty\<rparr>"

definition failures_of :: "Authenticator \<Rightarrow> string \<Rightarrow> time list" where
  "failures_of a ip = (case auth_failures a ip of None \<Rightarrow> [] | Some ts \<Rightarrow> ts)"

definition isLocked :: "time \<Rightarrow> string \<Rightarrow> Authenticator \<Rightarrow> bool \<times> Authenticator" where
  "isLocked now ip a =
     (let cutoff = now - lockoutDuration;
          still = filter (\<lambda>t. cutoff < t) (failures_of a ip);
          a' = (if still = [] then a\<lparr>auth_failures := (auth_failures a)(ip := None)\<rparr>
                else a\<lparr>auth_failures := (auth_failures a)(ip \<mapsto> still)\<rparr>)
      in (maxFailures \<le> length still, a'))"

definition recordFailure :: "time \<Rightarrow> string \<Rightarrow> Authenticator \<Rightarrow> Authenticator" where
  "recordFailure now ip a =
     a\<lparr>auth_failures := (auth_failures a)(ip \<mapsto> failures_of a ip @ [now])\<rparr>"

text \<open>\<^verbatim>\<open>subtle.ConstantTimeCompare\<close> returns 1 exactly for equal byte strings.\<close>

definition validate ::
  "time \<Rightarrow> time \<Rightarrow> string \<Rightarrow> string \<Rightarrow> Authenticator \<Rightarrow> bool \<times> Authenticator" where
  "validate now now' ip provided a =
     (let (locked, a1) = isLocked now ip a
      in if locked then (False, a1)
         else if provided = [] \<or> provided \<noteq> auth_token a1 then (False, recordFailure now' ip a1)
         else (True, a1\<lparr>auth_failures := (auth_failures a1)(ip := None)\<rparr>))"

definition UpdateToken :: "string \<Rightarrow> Authenticator \<Rightarrow> Authenticator" where
  "UpdateToken newToken a = a\<lparr>auth_token := newToken\<rparr>"

definition extractBearer :: "string \<Rightarrow> string" where
  "extractBearer header =
     (let pre = ''Bearer ''
      in if length pre < length header \<and> take (length pre) header = pre
         then drop (length pre) header else [])"

definition extractBasic :: "string \<Rightarrow> string \<Rightarrow> string" where
  "extractBasic header want =
     (let pre = ''Basic ''
      in if length header \<le> length pre \<or> take (length pre) header \<noteq> pre then []
         else
           (case b64_decode (drop (length pre) header) of
              None \<Rightarrow> []
            | Some decoded \<Rightarrow>
                (case Cut decoded (CHR '':'') of
                   None \<Rightarrow> []
                 | Some (user, pass) \<Rightarrow> if user \<noteq> want then [] else pass)))"

text \<open>The loop of \<open>clientIP\<close> from the end of the address to its last colon.\<close>

fun clientIP_loop :: "string \<Rightarrow> nat \<Rightarrow> string" where
  "clientIP_loop host 0 = host"
| "clientIP_loop host (Suc i) = (if host ! i = CHR '':'' then take i host else clientIP_loop host i)"

definition clientIP :: "http_request \<Rightarrow> string" where
  "clientIP r = clientIP_loop (req_RemoteAddr r) (length (req_RemoteAddr r))"

definition ValidateRequest ::
  "time \<Rightarrow> time \<Rightarrow> http_request \<Rightarrow> Authenticator \<Rightarrow> bool \<times> Authenticator" where
  "ValidateRequest now now' r a =
     validate now now' (clientIP r) (extractBearer (req_Authorization r)) a"

definition ValidateBasic ::
  "time \<Rightarrow> time \<Rightarrow> string \<Rightarrow> http_request \<Rightarrow> Authenticator \<Rightarrow> bool \<times> Authenticator" where
  "ValidateBasic now now' username r a =
     validate now now' (clientIP r) (extractBasic (req_Authorization r) username) a"

section \<open>Lookup of failures after each operation\<close>

lemma failures_of_isLocked:
  "failures_of (snd (isLocked now ip a)) j =
     (if j = ip then filter (\<lambda>t. now - lockoutDuration < t) (failures_of a ip) else failures_of a j)"
  by (auto simp: isLocked_def failures_of_def Let_def)

lemma fst_isLocked:
  "fst (isLocked now ip a) \<longleftrightarrow>
     maxFailures \<le> length (filter (\<lambda>t. now - lockoutDuration < t) (failures_of a ip))"
  by (simp add: isLocked_def Let_def)

lemma token_isLocked [simp]: "auth_token (snd (isLocked now ip a)) = auth_token a"
  by (simp add: isLocked_def Let_def)

lemma failures_of_recordFailure:
  "failures_of (recordFailure now ip a) j = failures_of a j @ (if j = ip then [now] else [])"
  by (auto simp: recordFailure_def failures_of_def)

lemma token_recordFailure [simp]: "auth_token (recordFailure now ip a) = auth_token a"
  by (simp add: recordFailure_def)

lemma token_validate [simp]: "auth_token (snd (validate now now' ip p a)) = auth_token a"
  by (auto simp: validate_def Let_def split: prod.splits dest: arg_cong [of _ _ snd])
     (metis snd_conv token_isLocked)+

text \<open>\<open>checked\<close> says that the call got past the lock and compared the token.\<close>

definition checked :: "time \<Rightarrow> string \<Rightarrow> Authenticator \<Rightarrow> bool" where
  "checked now ip a \<longleftrightarrow> \<not> fst (isLocked now ip a)"

lemma fst_validate:
  "fst (validate now now' ip p a) \<longleftrightarrow> checked now ip a \<and> p \<noteq> [] \<and> p = auth_token a"
  by (auto simp: validate_def checked_def split: prod.splits dest: arg_cong [of _ _ snd])
     (metis snd_conv token_isLocked)+

lemma failures_of_validate:
  "failures_of (snd (validate now now' ip p a)) j =
     (if j \<noteq> ip then failures_of a j
      else if fst (validate now now' ip p a) then []
      else filter (\<lambda>t. now - lockoutDuration < t) (failures_of a ip) @
           (if checked now ip a then [now'] else []))"
proof (cases "isLocked now ip a")
  case (Pair locked a1)
  then have f: "failures_of a1 j = (if j = ip
      then filter (\<lambda>t. now - lockoutDuration < t) (failures_of a ip) else failures_of a j)" for j
    using failures_of_isLocked [of now ip a j] by simp
  show ?thesis
    using Pair f [of j] f [of ip]
    by (auto simp: validate_def checked_def failures_of_recordFailure) (auto simp: failures_of_def)
qed

section \<open>Histories\<close>

text \<open>
  A history of the authenticator: checks, each with its two clock readings, the client IP and the
  token presented, and rotations, in the order in which they get the mutex.
\<close>

datatype auth_event =
    Check time time string string
  | Rotate string

fun auth_do :: "auth_event \<Rightarrow> Authenticator \<Rightarrow> Authenticator" where
  "auth_do (Check now now' ip p) a = snd (validate now now' ip p a)"
| "auth_do (Rotate tok) a = UpdateToken tok a"

definition auth_run :: "auth_event list \<Rightarrow> Authenticator \<Rightarrow> Authenticator" where
  "auth_run es a = fold auth_do es a"

lemma auth_run_simps [simp]:
  "auth_run [] a = a" "auth_run (e # es) a = auth_run es (auth_do e a)"
  by (simp_all add: auth_run_def)

text \<open>How many checks of \<open>ip\<close> had their token compared.\<close>

fun attempts :: "string \<Rightarrow> auth_event list \<Rightarrow> Authenticator \<Rightarrow> nat" where
  "attempts ip [] a = 0"
| "attempts ip (e # es) a =
     (case e of
        Check now now' j p \<Rightarrow> if j = ip \<and> checked now j a then 1 else 0
      | Rotate tok \<Rightarrow> 0) + attempts ip es (auth_do e a)"

text \<open>
  How many wrong tokens of \<open>ip\<close> were compared since its last success, with \<open>n\<close> before the history.
\<close>

fun wrong_streak :: "string \<Rightarrow> auth_event list \<Rightarrow> Authenticator \<Rightarrow> nat \<Rightarrow> nat" where
  "wrong_streak ip [] a n = n"
| "wrong_streak ip (e # es) a n =
     wrong_streak ip es (auth_do e a)
       (case e of
          Check now now' j p \<Rightarrow>
            if j = ip \<and> checked now j a then (if fst (validate now now' j p a) then 0 else Suc n) else n
        | Rotate tok \<Rightarrow> n)"

text \<open>\<open>ip\<close> never presents the token that is valid at that time.\<close>

fun never_right :: "string \<Rightarrow> auth_event list \<Rightarrow> Authenticator \<Rightarrow> bool" where
  "never_right ip [] a \<longleftrightarrow> True"
| "never_right ip (e # es) a \<longleftrightarrow>
     (case e of Check now now' j p \<Rightarrow> j = ip \<longrightarrow> p \<noteq> auth_token a | Rotate tok \<Rightarrow> True) \<and>
     never_right ip es (auth_do e a)"

text \<open>All readings fall in the \<open>lockoutDuration\<close> from \<open>t\<close> on.\<close>

fun event_in_window :: "time \<Rightarrow> auth_event \<Rightarrow> bool" where
  "event_in_window t (Check now now' ip p) \<longleftrightarrow> t \<le> now \<and> now < t + lockoutDuration \<and> t \<le> now'"
| "event_in_window t (Rotate tok) \<longleftrightarrow> True"

definition in_window :: "time \<Rightarrow> auth_event list \<Rightarrow> bool" where
  "in_window t es \<longleftrightarrow> list_all (event_in_window t) es"

definition since :: "time \<Rightarrow> time list \<Rightarrow> nat" where
  "since t ts = length (filter (\<lambda>x. t \<le> x) ts)"

lemma failures_of_UpdateToken [simp]: "failures_of (UpdateToken tok a) ip = failures_of a ip"
  by (simp add: UpdateToken_def failures_of_def)

lemma since_still:
  assumes "now < t + lockoutDuration"
  shows "since t (filter (\<lambda>x. now - lockoutDuration < x) ts) = since t ts"
proof -
  have "(now - lockoutDuration < x \<and> t \<le> x) = (t \<le> x)" for x using assms by linarith
  then show ?thesis by (simp add: since_def conj_commute)
qed

lemma since_le_still:
  assumes "now < t + lockoutDuration"
  shows "since t ts \<le> length (filter (\<lambda>x. now - lockoutDuration < x) ts)"
  using since_still [OF assms, of ts] length_filter_le
  by (metis since_def)

text \<open>One wrong call of \<open>ip\<close> adds a failure in the window exactly when it was compared.\<close>

lemma since_wrong_call:
  assumes "t \<le> now" "now < t + lockoutDuration" "t \<le> now'" "p \<noteq> auth_token a"
  shows "since t (failures_of (snd (validate now now' ip p a)) ip) =
           since t (failures_of a ip) + (if checked now ip a then 1 else 0)"
  using assms since_still [OF assms(2), of "failures_of a ip"]
  by (auto simp: failures_of_validate fst_validate since_def)

lemma since_other_call:
  "j \<noteq> ip \<Longrightarrow> failures_of (snd (validate now now' j p a)) ip = failures_of a ip"
  by (simp add: failures_of_validate)

lemma checked_since:
  assumes "now < t + lockoutDuration" "checked now ip a"
  shows "since t (failures_of a ip) < maxFailures"
  using assms since_le_still [OF assms(1), of "failures_of a ip"]
  by (auto simp: checked_def fst_isLocked)

text \<open>The stored failures of the window are the wrong tokens compared since the last success.\<close>

lemma wrong_streak_since:
  assumes "in_window t es" "since t (failures_of a ip) = n" "n \<le> maxFailures"
  shows "wrong_streak ip es a n = since t (failures_of (auth_run es a) ip) \<and>
         wrong_streak ip es a n \<le> maxFailures"
  using assms
proof (induction es arbitrary: a n)
  case Nil
  then show ?case by simp
next
  case (Cons e es)
  show ?case
  proof (cases e)
    case (Check now now' j p)
    have w: "t \<le> now" "now < t + lockoutDuration" "t \<le> now'" and es: "in_window t es"
      using Cons.prems(1) Check by (auto simp: in_window_def)
    show ?thesis
    proof (cases "j = ip \<and> checked now j a")
      case True
      then have few: "n < maxFailures" using checked_since [OF w(2), of ip a] Cons.prems(2) by auto
      show ?thesis
      proof (cases "fst (validate now now' j p a)")
        case ok: True
        then have "failures_of (auth_do e a) ip = []" using True Check by (simp add: failures_of_validate)
        then show ?thesis using Cons.IH [OF es, of "auth_do e a" 0] Check True ok by (auto simp: since_def)
      next
        case wrong: False
        then have "since t (failures_of (auth_do e a) ip) = Suc n"
          using True Check Cons.prems(2) w since_still [OF w(2), of "failures_of a ip"]
          by (auto simp: failures_of_validate since_def)
        then show ?thesis using Cons.IH [OF es, of "auth_do e a" "Suc n"] Check True wrong few by auto
      qed
    next
      case False
      then have "since t (failures_of (auth_do e a) ip) = n"
        using Check Cons.prems(2) since_still [OF w(2), of "failures_of a ip"]
        by (auto simp: failures_of_validate fst_validate)
      then show ?thesis using Cons.IH [OF es, of "auth_do e a" n] Check False Cons.prems(3) by auto
    qed
  next
    case (Rotate tok)
    then show ?thesis using Cons.IH [of "auth_do e a" n] Cons.prems by (simp add: in_window_def)
  qed
qed

lemma wrong_streak_attempts:
  "never_right ip es a \<Longrightarrow> wrong_streak ip es a n = n + attempts ip es a"
  by (induction es arbitrary: a n) (auto simp: fst_validate split: auth_event.splits)

text \<open>
  The checks of \<open>ip\<close> that got past the lock were at most at the instant \<open>t\<close>; refused ones may be later.
\<close>

fun compared_until :: "string \<Rightarrow> time \<Rightarrow> auth_event list \<Rightarrow> Authenticator \<Rightarrow> bool" where
  "compared_until ip t [] a \<longleftrightarrow> True"
| "compared_until ip t (e # es) a \<longleftrightarrow>
     (case e of Check now now' j p \<Rightarrow> j = ip \<and> checked now j a \<longrightarrow> now' \<le> t | Rotate tok \<Rightarrow> True) \<and>
     compared_until ip t es (auth_do e a)"

lemma own_failures_until:
  "compared_until ip t es a \<Longrightarrow> list_all (\<lambda>x. x \<le> t) (failures_of a ip) \<Longrightarrow>
     list_all (\<lambda>x. x \<le> t) (failures_of (auth_run es a) ip)"
proof (induction es arbitrary: a)
  case (Cons e es)
  have "list_all (\<lambda>x. x \<le> t) (failures_of (auth_do e a) ip)"
    using Cons.prems by (cases e) (auto simp: failures_of_validate list_all_iff)
  then show ?case using Cons.IH [of "auth_do e a"] Cons.prems(1) by simp
qed simp

lemma unlocked_later:
  assumes "list_all (\<lambda>x. x \<le> t) (failures_of a ip)" "t + lockoutDuration \<le> now"
  shows "checked now ip a"
proof -
  have "x \<le> now - lockoutDuration" if "x \<in> set (failures_of a ip)" for x
    using assms that by (fastforce simp: list_all_iff)
  then have "filter (\<lambda>x. now - lockoutDuration < x) (failures_of a ip) = []"
    by (simp add: filter_empty_conv not_less)
  then show ?thesis by (simp add: checked_def fst_isLocked maxFailures_def)
qed

section \<open>The failure table stays small\<close>

definition auth_inv :: "Authenticator \<Rightarrow> bool" where
  "auth_inv a \<longleftrightarrow>
     (\<forall>ip ts. auth_failures a ip = Some ts \<longrightarrow> ts \<noteq> [] \<and> length ts \<le> maxFailures)"

lemma auth_invI_failures: "auth_inv a \<Longrightarrow> length (failures_of a ip) \<le> maxFailures"
  by (auto simp: auth_inv_def failures_of_def split: option.splits)

lemma auth_inv_isLocked: "auth_inv a \<Longrightarrow> auth_inv (snd (isLocked now ip a))"
  using order.trans [OF length_filter_le auth_invI_failures [of a ip]]
  by (auto simp: auth_inv_def isLocked_def Let_def)

lemma auth_inv_validate:
  assumes "auth_inv a"
  shows "auth_inv (snd (validate now now' ip p a))"
proof (cases "isLocked now ip a")
  case (Pair locked a1)
  have inv: "auth_inv a1" using auth_inv_isLocked [OF assms, of now ip] Pair by simp
  have few: "length (failures_of a1 ip) < maxFailures" if "\<not> locked"
    using failures_of_isLocked [of now ip a ip] fst_isLocked [of now ip a] that Pair by simp
  show ?thesis
    using inv few Pair by (auto simp: validate_def auth_inv_def recordFailure_def)
qed

lemma auth_inv_UpdateToken: "auth_inv a \<Longrightarrow> auth_inv (UpdateToken tok a)"
  by (simp add: auth_inv_def UpdateToken_def)

lemma auth_inv_run: "auth_inv a \<Longrightarrow> auth_inv (auth_run es a)"
proof (induction es arbitrary: a)
  case (Cons e es)
  then show ?case by (cases e) (auto simp: auth_inv_validate auth_inv_UpdateToken)
qed simp

lemma auth_inv_New: "auth_inv (New token)"
  by (simp add: auth_inv_def New_def)

text \<open>What other goroutines may do to the authenticator between two requests.\<close>

inductive auth_step :: "Authenticator \<Rightarrow> Authenticator \<Rightarrow> bool" where
  validate_step: "auth_step a (snd (validate now now' ip p a))"
| rotate_step: "auth_step a (UpdateToken tok a)"

interpretation auth_system: invariant_system "\<lambda>a. \<exists>token. a = New token" auth_step auth_inv
proof unfold_locales
  fix a
  assume "\<exists>token. a = New token"
  then show "auth_inv a" by (auto simp: auth_inv_def New_def)
next
  fix a b
  assume "auth_inv a" "auth_step a b"
  then show "auth_inv b"
    by (auto elim!: auth_step.cases intro: auth_inv_validate auth_inv_UpdateToken)
qed

section \<open>Guards\<close>

interpretation bearer: request_guard
  "ValidateRequest now now'"
  "\<lambda>r a. extractBearer (req_Authorization r) = auth_token a \<and> auth_token a \<noteq> []"
  for now now'
  by unfold_locales (auto simp: ValidateRequest_def fst_validate)

interpretation basic: request_guard
  "ValidateBasic now now' user"
  "\<lambda>r a. extractBasic (req_Authorization r) user = auth_token a \<and> auth_token a \<noteq> []"
  for now now' user
  by unfold_locales (auto simp: ValidateBasic_def fst_validate)

section \<open>Header extraction\<close>

lemma extractBearer_token: "tok \<noteq> [] \<Longrightarrow> extractBearer (''Bearer '' @ tok) = tok"
  by (simp add: extractBearer_def)

lemma extractBasic_credentials:
  "CHR '':'' \<notin> set user \<Longrightarrow>
     extractBasic (''Basic '' @ b64_encode (user @ CHR '':'' # pass)) user = pass"
  by (simp add: extractBasic_def b64_decode_encode b64_encode_not_Nil)

lemma clientIP_loop_colon:
  "CHR '':'' \<notin> set p \<Longrightarrow> k \<le> length p \<Longrightarrow>
     clientIP_loop (h @ CHR '':'' # p) (Suc (length h) + k) = h"
proof (induction k)
  case 0
  then show ?case by simp
next
  case (Suc k)
  then have "p ! k \<noteq> CHR '':''" by (metis Suc_le_lessD nth_mem)
  moreover have "(h @ CHR '':'' # p) ! (Suc (length h) + k) = p ! k" by (simp add: nth_append)
  ultimately show ?case using Suc by simp
qed

lemma clientIP_port:
  assumes "req_RemoteAddr r = h @ CHR '':'' # p" "CHR '':'' \<notin> set p"
  shows "clientIP r = h"
  using clientIP_loop_colon [OF assms(2), of "length p" h] assms(1)
  by (simp add: clientIP_def)

section \<open>Properties\<close>

text \<open>
  C1: brute-force bound. Take any history of the authenticator and then any 60 seconds of it, with
  any mix of clients, of right and wrong tokens, and of rotations. At every moment of these 60
  seconds the wrong tokens of an IP that were compared in them, since its last success, are at most
  five; so an IP that never presents the valid token gets at most five comparisons in all.
\<close>

theorem brute_force_bound:
  assumes "in_window t es" "a = auth_run past (New token)"
  shows "wrong_streak ip es a (since t (failures_of a ip)) \<le> 5 \<and>
         (never_right ip es a \<longrightarrow> attempts ip es a + since t (failures_of a ip) \<le> 5)"
proof -
  have "since t (failures_of a ip) \<le> length (failures_of a ip)" by (simp add: since_def)
  also have "\<dots> \<le> maxFailures" unfolding assms(2) by (intro auth_invI_failures auth_inv_run auth_inv_New)
  finally have "wrong_streak ip es a (since t (failures_of a ip)) \<le> maxFailures"
    using wrong_streak_since [OF assms(1) refl] by blast
  then show ?thesis using wrong_streak_attempts [of ip es a "since t (failures_of a ip)"] by (auto simp: maxFailures_def)
qed

text \<open>Seven wrong guesses around a success of another address and a rotation.\<close>

definition sample_attack :: "auth_event list" where
  "sample_attack =
     replicate 4 (Check 5 5 ''10.0.0.9'' ''guess'') @ [Check 6 6 ''10.0.0.2'' ''secret'', Rotate ''other''] @
     replicate 3 (Check 7 7 ''10.0.0.9'' ''guess'')"

theorem brute_force_bound_witness:
  "attempts ''10.0.0.9'' sample_attack (New ''secret'') \<le> 5 \<and>
   wrong_streak ''10.0.0.9'' sample_attack (New ''secret'') 0 \<le> 5"
proof -
  have w: "in_window 0 sample_attack"
    by (simp add: in_window_def sample_attack_def lockoutDuration_def numeral_eq_Suc)
  have n: "New ''secret'' = auth_run [] (New ''secret'')" by simp
  have r: "never_right ''10.0.0.9'' sample_attack (New ''secret'')"
    by (simp add: sample_attack_def numeral_eq_Suc UpdateToken_def New_def)
  have z: "since 0 (failures_of (New ''secret'') ''10.0.0.9'') = 0"
    by (simp add: New_def failures_of_def since_def)
  show ?thesis using brute_force_bound [OF w n, of "''10.0.0.9''"] r z by simp
qed

text \<open>
  C13: the lock expires. Whatever other addresses do and however the token is rotated, 60 seconds after
  the last check of an IP that got past the lock the valid token, when it is not empty, is accepted from it, and its
  failures are forgotten: calls that the lock refused do not extend it.
\<close>

theorem lockout_expires:
  assumes "compared_until ip t es (New token)" "t + lockoutDuration \<le> now" "a = auth_run es (New token)" "auth_token a \<noteq> []"
  shows "fst (validate now now' ip (auth_token a) a) \<and>
         failures_of (snd (validate now now' ip (auth_token a) a)) ip = []"
proof -
  have "list_all (\<lambda>x. x \<le> t) (failures_of a ip)"
    unfolding assms(3) using assms(1) by (rule own_failures_until) (simp add: New_def failures_of_def)
  then have "checked now ip a" using assms(2) by (rule unlocked_later)
  then have "fst (validate now now' ip (auth_token a) a)"
    using assms(4) by (simp add: fst_validate)
  then show ?thesis by (simp add: failures_of_validate)
qed

theorem lockout_expires_witness:
  "fst (validate 60000000005 60000000006 ''10.0.0.9'' ''other''
       (auth_run (replicate 9 (Check 5 5 ''10.0.0.9'' ''guess'') @
          [Check 60000000001 60000000001 ''10.0.0.9'' ''guess'', Rotate ''other'']) (New ''secret'')))"
proof -
  let ?es = "replicate 9 (Check 5 5 ''10.0.0.9'' ''guess'') @
      [Check 60000000001 60000000001 ''10.0.0.9'' ''guess'', Rotate ''other'']"
  have c: "compared_until ''10.0.0.9'' 5 ?es (New ''secret'')"
    by (simp add: numeral_eq_Suc checked_def validate_def isLocked_def New_def failures_of_def
        recordFailure_def maxFailures_def lockoutDuration_def)
  have t: "5 + lockoutDuration \<le> 60000000005" by (simp add: lockoutDuration_def)
  have k: "auth_token (auth_run ?es (New ''secret'')) = ''other''"
    by (simp add: numeral_eq_Suc UpdateToken_def)
  show ?thesis using lockout_expires [OF c t refl, of 60000000006] unfolding k by simp
qed

text \<open>
  Bounded table. In every reachable state of the authenticator, under any mix of requests and
  token rotations, each IP in the failure table has between one and five instants.
\<close>

theorem auth_table_bounded:
  assumes "auth_step\<^sup>*\<^sup>* (New token) a" "auth_failures a ip = Some ts"
  shows "ts \<noteq> [] \<and> length ts \<le> 5"
  using auth_system.reachable_inv [of "New token" a] assms
  by (auto simp: auth_inv_def maxFailures_def)

theorem auth_table_bounded_witness: "[5 :: time] \<noteq> [] \<and> length [5 :: time] \<le> 5"
proof -
  have "auth_step\<^sup>*\<^sup>* (New ''secret'') (snd (validate 5 5 ''10.0.0.9'' ''guess'' (New ''secret'')))"
    by (intro r_into_rtranclp validate_step)
  moreover have "auth_failures (snd (validate 5 5 ''10.0.0.9'' ''guess'' (New ''secret''))) ''10.0.0.9'' = Some [5]"
    by (simp add: validate_def isLocked_def New_def failures_of_def recordFailure_def maxFailures_def)
  ultimately show ?thesis by (rule auth_table_bounded)
qed

end
