(* ===== verification/Detector.thy ===== *)
theory Detector
  imports Interfaces "HOL-Library.Multiset"
begin

text \<open>
  \<^verbatim>\<open>internal/detector/detector.go\<close>: the tracker that classifies tmux sessions as working or idle
  and reports the sessions whose classification changed since the last poll. A snapshot is a Go
  map, whose iteration order is unspecified: here it is a list of pairs in the order the iteration
  takes, with distinct names, and the properties hold for every order.
\<close>

section \<open>State and operations\<close>

datatype State = Working | Idle

record entry =
  entry_lastActivity :: time
  entry_state :: State

record Change =
  change_Name :: string
  change_State :: State
  change_LastActivity :: time

record Tracker =
  tracker_idleAfter :: time
  tracker_seen :: "string \<rightharpoonup> entry"

definition New_Tracker :: "time \<Rightarrow> Tracker" where
  "New_Tracker idle = \<lparr>tracker_idleAfter = idle, tracker_seen = Map.empty\<rparr>"

text \<open>\<^verbatim>\<open>Time.Sub\<close> saturates at the range of a 64-bit duration.\<close>

definition time_Sub :: "time \<Rightarrow> time \<Rightarrow> time" where
  "time_Sub t u = max (- (2 ^ 63)) (min (2 ^ 63 - 1) (t - u))"

definition classify :: "time \<Rightarrow> time \<Rightarrow> time \<Rightarrow> State" where
  "classify idle now act = (if time_Sub now act < idle then Working else Idle)"

fun update_loop ::
  "time \<Rightarrow> (string \<times> time) list \<Rightarrow> Tracker \<Rightarrow> Change list \<Rightarrow> Change list \<times> Tracker" where
  "update_loop now [] t changes = (changes, t)"
| "update_loop now ((name, act) # rest) t changes =
     (let state = classify (tracker_idleAfter t) now act;
          changes' =
            (case tracker_seen t name of
               Some prev \<Rightarrow>
                 (if entry_state prev \<noteq> state
                  then changes @ [\<lparr>change_Name = name, change_State = state, change_LastActivity = act\<rparr>]
                  else changes)
             | None \<Rightarrow>
                 changes @ [\<lparr>change_Name = name, change_State = state, change_LastActivity = act\<rparr>]);
          t' = t\<lparr>tracker_seen := (tracker_seen t)
                 (name \<mapsto> \<lparr>entry_lastActivity = act, entry_state = state\<rparr>)\<rparr>
      in update_loop now rest t' changes')"

definition Update :: "time \<Rightarrow> (string \<times> time) list \<Rightarrow> Tracker \<Rightarrow> Change list \<times> Tracker" where
  "Update now activity t =
     (let (changes, t1) = update_loop now activity t []
      in (changes, t1\<lparr>tracker_seen := (\<lambda>name. if name \<in> fst ` set activity
                                            then tracker_seen t1 name else None)\<rparr>))"

definition Forget :: "string \<Rightarrow> Tracker \<Rightarrow> Tracker" where
  "Forget name t = t\<lparr>tracker_seen := (tracker_seen t)(name := None)\<rparr>"

text \<open>The tracked sessions are a keyed store; one poll's assignment is its \<open>store\<close>.\<close>

definition track :: "string \<Rightarrow> entry \<Rightarrow> Tracker \<Rightarrow> Tracker" where
  "track name e t = t\<lparr>tracker_seen := (tracker_seen t)(name \<mapsto> e)\<rparr>"

interpretation tracked: keyed_store tracker_seen track Forget
  by unfold_locales (simp_all add: track_def Forget_def)

section \<open>What one poll reports\<close>

definition entry_of :: "time \<Rightarrow> time \<Rightarrow> time \<Rightarrow> entry" where
  "entry_of idle now act = \<lparr>entry_lastActivity = act, entry_state = classify idle now act\<rparr>"

definition change_of :: "time \<Rightarrow> time \<Rightarrow> string \<times> time \<Rightarrow> Change" where
  "change_of idle now nl =
     \<lparr>change_Name = fst nl, change_State = classify idle now (snd nl), change_LastActivity = snd nl\<rparr>"

definition flips :: "time \<Rightarrow> time \<Rightarrow> (string \<rightharpoonup> entry) \<Rightarrow> string \<times> time \<Rightarrow> bool" where
  "flips idle now seen nl \<longleftrightarrow>
     map_option entry_state (seen (fst nl)) \<noteq> Some (classify idle now (snd nl))"

lemma update_loop_spec:
  "distinct (map fst activity) \<Longrightarrow>
     fst (update_loop now activity t changes) =
       changes @ map (change_of (tracker_idleAfter t) now)
         (filter (flips (tracker_idleAfter t) now (tracker_seen t)) activity) \<and>
     tracker_seen (snd (update_loop now activity t changes)) name =
       (case map_of activity name of
          None \<Rightarrow> tracker_seen t name
        | Some l \<Rightarrow> Some (entry_of (tracker_idleAfter t) now l)) \<and>
     tracker_idleAfter (snd (update_loop now activity t changes)) = tracker_idleAfter t"
proof (induction activity arbitrary: t changes)
  case Nil
  then show ?case by simp
next
  case (Cons nl rest)
  obtain n l where nl: "nl = (n, l)" by (cases nl)
  let ?i = "tracker_idleAfter t"
  let ?t = "t\<lparr>tracker_seen := (tracker_seen t)(n \<mapsto> entry_of ?i now l)\<rparr>"
  let ?new = "if flips ?i now (tracker_seen t) nl then [change_of ?i now nl] else []"
  have step: "update_loop now (nl # rest) t changes = update_loop now rest ?t (changes @ ?new)"
    by (auto simp: nl Let_def flips_def change_of_def entry_of_def split: option.splits)
  have "filter (flips ?i now (tracker_seen ?t)) rest = filter (flips ?i now (tracker_seen t)) rest"
    using Cons.prems by (intro filter_cong) (auto simp: nl flips_def image_iff)
  moreover have "map_of rest n = None"
    using Cons.prems by (simp add: nl map_of_eq_None_iff)
  ultimately show ?case
    using Cons.IH [of ?t "changes @ ?new"] Cons.prems unfolding step
    by (simp add: nl del: fun_upd_apply) (simp split: option.split)
qed

lemma Update_changes:
  "distinct (map fst activity) \<Longrightarrow>
     fst (Update now activity t) =
       map (change_of (tracker_idleAfter t) now)
         (filter (flips (tracker_idleAfter t) now (tracker_seen t)) activity)"
  by (simp add: Update_def case_prod_beta update_loop_spec)

lemma Update_seen:
  "distinct (map fst activity) \<Longrightarrow>
     tracker_seen (snd (Update now activity t)) =
       (\<lambda>n. map_option (entry_of (tracker_idleAfter t) now) (map_of activity n))"
  by (rule ext)
     (auto simp: Update_def case_prod_beta update_loop_spec map_of_eq_None_iff
           split: option.splits dest: map_of_SomeD)

lemma Update_idleAfter:
  "distinct (map fst activity) \<Longrightarrow> tracker_idleAfter (snd (Update now activity t)) = tracker_idleAfter t"
  by (simp add: Update_def case_prod_beta update_loop_spec)

section \<open>A run of polls\<close>

fun polls :: "(time \<times> (string \<times> time) list) list \<Rightarrow> Tracker \<Rightarrow> Change list" where
  "polls [] t = []"
| "polls ((now, activity) # ps) t = fst (Update now activity t) @ polls ps (snd (Update now activity t))"

definition reported :: "string \<Rightarrow> Change list \<Rightarrow> State list" where
  "reported n cs = map change_State (filter (\<lambda>c. change_Name c = n) cs)"

text \<open>Every snapshot is a map that contains \<open>n\<close>.\<close>

definition present :: "string \<Rightarrow> (time \<times> (string \<times> time) list) list \<Rightarrow> bool" where
  "present n ps \<longleftrightarrow> list_all (\<lambda>(_, activity). distinct (map fst activity) \<and> n \<in> fst ` set activity) ps"

lemma filter_key_distinct:
  "distinct (map fst al) \<Longrightarrow> map_of al n = Some l \<Longrightarrow> filter (\<lambda>x. fst x = n) al = [(n, l)]"
proof (induction al)
  case Nil
  then show ?case by simp
next
  case (Cons x al)
  show ?case
  proof (cases "fst x = n")
    case True
    then have "filter (\<lambda>x. fst x = n) al = []"
      using Cons.prems(1) by (auto simp: filter_empty_conv image_iff)
    then show ?thesis using True Cons.prems by (cases x) auto
  next
    case False
    then show ?thesis using Cons by (cases x) auto
  qed
qed

lemma reported_Update:
  assumes "distinct (map fst activity)" "map_of activity n = Some l"
  shows "reported n (fst (Update now activity t)) =
           (if flips (tracker_idleAfter t) now (tracker_seen t) (n, l)
            then [classify (tracker_idleAfter t) now l] else [])"
proof -
  let ?i = "tracker_idleAfter t"
  have "reported n (fst (Update now activity t)) =
      map (change_State \<circ> change_of ?i now)
        (filter (\<lambda>x. flips ?i now (tracker_seen t) x) (filter (\<lambda>x. fst x = n) activity))"
    using assms(1)
    by (simp add: reported_def Update_changes filter_map o_def change_of_def conj_commute)
  then show ?thesis
    using filter_key_distinct [OF assms] by (auto simp: change_of_def)
qed

lemma reported_polls:
  assumes "present n ps" "map_option entry_state (tracker_seen t n) = s"
  shows "distinct_adj (reported n (polls ps t)) \<and>
         (reported n (polls ps t) \<noteq> [] \<longrightarrow> Some (hd (reported n (polls ps t))) \<noteq> s)"
  using assms
proof (induction ps t arbitrary: s rule: polls.induct)
  case (1 t)
  then show ?case by (simp add: reported_def)
next
  case (2 now activity ps t)
  let ?t = "snd (Update now activity t)" and ?i = "tracker_idleAfter t"
  have d: "distinct (map fst activity)" and "n \<in> fst ` set activity" and p: "present n ps"
    using "2.prems" by (auto simp: present_def)
  then obtain l where l: "map_of activity n = Some l"
    by (metis map_of_eq_None_iff not_None_eq)
  have st: "map_option entry_state (tracker_seen ?t n) = Some (classify ?i now l)"
    using d l by (simp add: Update_seen entry_of_def)
  note IH = "2.IH" [OF p st]
  have split: "reported n (polls ((now, activity) # ps) t) =
      reported n (fst (Update now activity t)) @ reported n (polls ps ?t)"
    by (simp add: reported_def)
  show ?case
    using IH "2.prems"(2) unfolding split reported_Update [OF d l]
    by (cases "reported n (polls ps ?t)") (auto simp: flips_def)
qed

section \<open>Properties\<close>

text \<open>
  C12: a poll reports exactly the sessions that are new or whose classification changed, each once
  with its classification and activity, and nothing for the others; and then it tracks exactly the
  sessions of the snapshot, with their current classification and activity.
\<close>

theorem Update_reports_changes:
  assumes "distinct (map fst activity)"
  shows "filter (\<lambda>c. change_Name c = n) (fst (Update now activity t)) =
           (case map_of activity n of
              None \<Rightarrow> []
            | Some l \<Rightarrow>
                (let s = classify (tracker_idleAfter t) now l
                 in if map_option entry_state (tracker_seen t n) = Some s then []
                    else [\<lparr>change_Name = n, change_State = s, change_LastActivity = l\<rparr>])) \<and>
         tracker_seen (snd (Update now activity t)) n =
           map_option (\<lambda>l. \<lparr>entry_lastActivity = l, entry_state = classify (tracker_idleAfter t) now l\<rparr>)
             (map_of activity n)"
proof
  let ?i = "tracker_idleAfter t"
  have c: "filter (\<lambda>c. change_Name c = n) (fst (Update now activity t)) =
      map (change_of ?i now) (filter (flips ?i now (tracker_seen t)) (filter (\<lambda>x. fst x = n) activity))"
    using assms by (simp add: Update_changes filter_map o_def change_of_def conj_commute)
  show "filter (\<lambda>c. change_Name c = n) (fst (Update now activity t)) =
           (case map_of activity n of
              None \<Rightarrow> []
            | Some l \<Rightarrow>
                (let s = classify ?i now l
                 in if map_option entry_state (tracker_seen t n) = Some s then []
                    else [\<lparr>change_Name = n, change_State = s, change_LastActivity = l\<rparr>]))"
  proof (cases "map_of activity n")
    case None
    then have "filter (\<lambda>x. fst x = n) activity = []"
      by (auto simp: map_of_eq_None_iff filter_empty_conv)
    then show ?thesis using None by (simp add: c)
  next
    case (Some l)
    then show ?thesis
      by (simp add: c filter_key_distinct [OF assms] flips_def change_of_def Let_def)
  qed
  show "tracker_seen (snd (Update now activity t)) n =
           map_option (\<lambda>l. \<lparr>entry_lastActivity = l, entry_state = classify ?i now l\<rparr>) (map_of activity n)"
    using assms by (simp add: Update_seen entry_of_def [abs_def])
qed

theorem Update_reports_changes_witness:
  "filter (\<lambda>c. change_Name c = ''cx-a'') (fst (Update 100 [(''b'', 10), (''cx-a'', 90)] (New_Tracker 20))) =
     [\<lparr>change_Name = ''cx-a'', change_State = Working, change_LastActivity = 90\<rparr>]"
  using Update_reports_changes [of "[(''b'', 10), (''cx-a'', 90)]" "''cx-a''" 100 "New_Tracker 20"]
  by (simp add: classify_def time_Sub_def New_Tracker_def)

text \<open>
  The reports do not depend on the order in which Go iterates over the snapshot: any two
  orders give the same changes up to order, and the same tracker.
\<close>

theorem Update_order_independent:
  assumes "distinct (map fst activity)" "mset activity' = mset activity"
  shows "mset (fst (Update now activity' t)) = mset (fst (Update now activity t)) \<and>
         snd (Update now activity' t) = snd (Update now activity t)"
proof -
  have d': "distinct (map fst activity')"
    using assms by (metis mset_eq_imp_distinct_iff mset_map)
  have "map_of activity' = map_of activity"
    using assms d' by (metis map_of_inject_set mset_eq_setD)
  then have "tracker_seen (snd (Update now activity' t)) = tracker_seen (snd (Update now activity t))"
    using assms d' by (simp add: Update_seen)
  moreover have "tracker_idleAfter (snd (Update now activity' t)) = tracker_idleAfter (snd (Update now activity t))"
    using assms d' by (simp add: Update_idleAfter)
  moreover have "mset (fst (Update now activity' t)) = mset (fst (Update now activity t))"
    using assms d' by (simp add: Update_changes)
  ultimately show ?thesis by (simp add: Tracker.equality)
qed

theorem Update_order_independent_witness:
  "mset (fst (Update 100 [(''b'', 10), (''a'', 90)] (New_Tracker 20))) =
   mset (fst (Update 100 [(''a'', 90), (''b'', 10)] (New_Tracker 20)))"
  by (rule Update_order_independent [THEN conjunct1]) (simp_all add: add_mset_commute)

text \<open>
  C14: reports alternate. Over any run of polls in which a session stays present, the states
  reported for it strictly alternate between working and idle: no state is reported twice in a row.
\<close>

theorem polls_alternate:
  assumes "present n ps"
  shows "distinct_adj (reported n (polls ps t))"
  using reported_polls [OF assms refl] by simp

theorem polls_alternate_witness:
  "reported ''a'' (polls [(100, [(''a'', 90)]), (105, [(''a'', 90)]), (200, [(''a'', 90)])] (New_Tracker 20))
     = [Working, Idle] \<and>
   distinct_adj (reported ''a''
     (polls [(100, [(''a'', 90)]), (105, [(''a'', 90)]), (200, [(''a'', 90)])] (New_Tracker 20)))"
  using polls_alternate [of "''a''" "[(100, [(''a'', 90)]), (105, [(''a'', 90)]), (200, [(''a'', 90)])]" "New_Tracker 20"]
  by (simp add: present_def reported_def Update_def classify_def time_Sub_def New_Tracker_def)

end
