(* ===== verification/Permission.thy ===== *)
theory Permission
  imports Interfaces
begin

text \<open>
  \<^verbatim>\<open>internal/relay/permission.go\<close>: the broker that matches a tool-permission prompt with the
  answer posted by the client that owns it. A Go channel is a reference: the model keeps a store of
  channel buffers, addressed by number, so a prompt registered again under the same id gets a new
  channel while its first waiter keeps the old one. \<open>Respond\<close> looks the prompt up under the mutex
  and sends after releasing it, so the two halves are separate steps of the concurrent system.
\<close>

section \<open>State and operations\<close>

record pendingPerm =
  perm_ch :: nat
  perm_ownerIP :: string

record PermissionBroker =
  broker_pending :: "string \<rightharpoonup> pendingPerm"
  chan_buf :: "nat \<Rightarrow> bool list"
  chan_next :: nat

definition NewPermissionBroker :: PermissionBroker where
  "NewPermissionBroker = \<lparr>broker_pending = Map.empty, chan_buf = (\<lambda>_. []), chan_next = 0\<rparr>"

definition RegisterPending :: "string \<Rightarrow> string \<Rightarrow> PermissionBroker \<Rightarrow> nat \<times> PermissionBroker" where
  "RegisterPending rid ownerIP b =
     (let ch = chan_next b
      in (ch, b\<lparr>chan_buf := (chan_buf b)(ch := []), chan_next := Suc ch,
               broker_pending := (broker_pending b)(rid \<mapsto> \<lparr>perm_ch = ch, perm_ownerIP = ownerIP\<rparr>)\<rparr>))"

definition RemovePending :: "string \<Rightarrow> PermissionBroker \<Rightarrow> PermissionBroker" where
  "RemovePending rid b = b\<lparr>broker_pending := (broker_pending b)(rid := None)\<rparr>"

text \<open>The two halves of \<open>Respond\<close>: the lookup under the mutex, and the send after it.\<close>

definition Respond_lookup :: "string \<Rightarrow> string \<Rightarrow> PermissionBroker \<Rightarrow> nat option" where
  "Respond_lookup requestID responderIP b =
     (case broker_pending b requestID of
        None \<Rightarrow> None
      | Some p \<Rightarrow> if perm_ownerIP p \<noteq> responderIP then None else Some (perm_ch p))"

definition Respond_send :: "nat \<Rightarrow> bool \<Rightarrow> PermissionBroker \<Rightarrow> PermissionBroker" where
  "Respond_send ch allow b = b\<lparr>chan_buf := (chan_buf b)(ch := try_send 1 allow (chan_buf b ch))\<rparr>"

definition Respond :: "string \<Rightarrow> string \<Rightarrow> bool \<Rightarrow> PermissionBroker \<Rightarrow> bool \<times> PermissionBroker" where
  "Respond requestID responderIP allow b =
     (case Respond_lookup requestID responderIP b of
        None \<Rightarrow> (False, b)
      | Some ch \<Rightarrow> (True, Respond_send ch allow b))"

text \<open>The pending prompts are a keyed store.\<close>

definition put_pending :: "string \<Rightarrow> pendingPerm \<Rightarrow> PermissionBroker \<Rightarrow> PermissionBroker" where
  "put_pending rid p b = b\<lparr>broker_pending := (broker_pending b)(rid \<mapsto> p)\<rparr>"

interpretation pending_store: keyed_store broker_pending put_pending RemovePending
  by unfold_locales (simp_all add: put_pending_def RemovePending_def)

lemma RegisterPending_put:
  "broker_pending (snd (RegisterPending rid ip b)) =
     broker_pending (put_pending rid \<lparr>perm_ch = chan_next b, perm_ownerIP = ip\<rparr> b)"
  by (simp add: RegisterPending_def put_pending_def Let_def)

section \<open>What other requests do to the broker\<close>

text \<open>
  The operations of other requests between two looks of one request at the broker, in their order.
  A response counts where it is sent; the halves of \<open>Respond\<close> are taken apart in the next section.
\<close>

datatype broker_op =
    OpRegister string string
  | OpRemove string
  | OpRespond string string bool

fun run_op :: "broker_op \<Rightarrow> PermissionBroker \<Rightarrow> PermissionBroker" where
  "run_op (OpRegister rid ip) b = snd (RegisterPending rid ip b)"
| "run_op (OpRemove rid) b = RemovePending rid b"
| "run_op (OpRespond rid ip allow) b = snd (Respond rid ip allow b)"

definition broker_wf :: "PermissionBroker \<Rightarrow> bool" where
  "broker_wf b \<longleftrightarrow> (\<forall>rid p. broker_pending b rid = Some p \<longrightarrow> perm_ch p < chan_next b)"

text \<open>The channel \<open>ch\<close> belongs to the prompt \<open>pid\<close> of \<open>ip\<close>, and holds only answers of \<open>ip\<close> to it.\<close>

definition owned_by :: "string \<Rightarrow> string \<Rightarrow> nat \<Rightarrow> broker_op list \<Rightarrow> PermissionBroker \<Rightarrow> bool" where
  "owned_by pid ip ch ops b \<longleftrightarrow>
     ch < chan_next b \<and>
     (\<forall>rid p. broker_pending b rid = Some p \<and> perm_ch p = ch \<longrightarrow> rid = pid \<and> perm_ownerIP p = ip) \<and>
     (\<forall>v. v \<in> set (chan_buf b ch) \<longrightarrow> OpRespond pid ip v \<in> set ops)"

lemma broker_wf_New: "broker_wf NewPermissionBroker"
  by (simp add: broker_wf_def NewPermissionBroker_def)

lemma broker_wf_Remove: "broker_wf b \<Longrightarrow> broker_wf (RemovePending rid b)"
  by (simp add: broker_wf_def RemovePending_def)

lemma broker_wf_op: "broker_wf b \<Longrightarrow> broker_wf (run_op oper b)"
  by (cases oper)
     (auto simp: broker_wf_def RegisterPending_def RemovePending_def Respond_def Respond_send_def Let_def
        less_Suc_eq split: option.splits)

lemma owned_by_op:
  assumes "owned_by pid ip ch ops b"
  shows "owned_by pid ip ch (ops @ [oper]) (run_op oper b)"
proof (cases oper)
  case (OpRespond rid r v)
  show ?thesis
  proof (cases "Respond_lookup rid r b")
    case None
    then show ?thesis using assms by (auto simp: OpRespond Respond_def owned_by_def)
  next
    case (Some c)
    then have "c = ch \<Longrightarrow> rid = pid \<and> r = ip"
      using assms by (auto simp: Respond_lookup_def owned_by_def split: option.splits if_splits)
    then show ?thesis
      using assms Some set_try_send [of 1 v "chan_buf b ch"]
      by (auto simp: OpRespond Respond_def Respond_send_def owned_by_def)
  qed
qed (use assms in \<open>auto simp: owned_by_def RegisterPending_def RemovePending_def Let_def\<close>)

lemma owned_by_run:
  "owned_by pid ip ch ops b \<Longrightarrow> owned_by pid ip ch (ops @ ops') (fold run_op ops' b)"
proof (induction ops' arbitrary: ops b)
  case (Cons oper ops')
  show ?case using Cons.IH [OF owned_by_op [OF Cons.prems, of oper]] by simp
qed simp

lemma broker_wf_run: "broker_wf b \<Longrightarrow> broker_wf (fold run_op ops b)"
  by (induction ops arbitrary: b) (simp_all add: broker_wf_op)

text \<open>An answer that arrives on a prompt's channel was posted for it, from its owner's address.\<close>

lemma answer_from_owner:
  assumes "broker_wf b" "RegisterPending pid ip b = (ch, b1)" "v \<in> set (chan_buf (fold run_op ops b1) ch)"
  shows "OpRespond pid ip v \<in> set ops"
proof -
  have fresh: "broker_pending b rid = Some p \<Longrightarrow> perm_ch p \<noteq> chan_next b" for rid p
    using assms(1) by (fastforce simp: broker_wf_def)
  have "owned_by pid ip ch [] b1"
    using assms(2) fresh by (auto simp: owned_by_def RegisterPending_def Let_def split: if_splits)
  from owned_by_run [OF this, of ops] show ?thesis using assms(3) by (simp add: owned_by_def)
qed

section \<open>The concurrent system\<close>

text \<open>
  Any number of chat requests and responders run at once. \<open>sys_waiters\<close> are the channels on which a
  chat request blocks, with the prompt's id; \<open>sys_inflight\<close> are responses between lookup and send;
  \<open>sys_results\<close> are the answers chat requests went on with. Two fields only record history: the IP
  that owns each channel, and the responses accepted with the IP that posted them.
\<close>

record sys =
  sys_broker :: PermissionBroker
  sys_waiters :: "nat \<rightharpoonup> string"
  sys_inflight :: "(nat \<times> bool) list"
  sys_results :: "(nat \<times> bool) list"
  hist_owner :: "nat \<rightharpoonup> string"
  hist_accepted :: "(nat \<times> string \<times> bool) set"

definition sys_init :: sys where
  "sys_init = \<lparr>sys_broker = NewPermissionBroker, sys_waiters = Map.empty, sys_inflight = [],
     sys_results = [], hist_owner = Map.empty, hist_accepted = {}\<rparr>"

inductive sys_step :: "sys \<Rightarrow> sys \<Rightarrow> bool" where
  prompt: \<comment> \<open>a chat request registers a prompt and starts to wait\<close>
    "RegisterPending rid ip (sys_broker s) = (ch, b) \<Longrightarrow>
     sys_step s (s\<lparr>sys_broker := b, sys_waiters := (sys_waiters s)(ch \<mapsto> rid),
                   hist_owner := (hist_owner s)(ch \<mapsto> ip)\<rparr>)"
| accept: \<comment> \<open>a response passes the lookup\<close>
    "Respond_lookup rid ip (sys_broker s) = Some ch \<Longrightarrow>
     sys_step s (s\<lparr>sys_inflight := (ch, allow) # sys_inflight s,
                   hist_accepted := insert (ch, ip, allow) (hist_accepted s)\<rparr>)"
| reject: \<comment> \<open>a response is refused\<close>
    "Respond_lookup rid ip (sys_broker s) = None \<Longrightarrow> sys_step s s"
| deliver: \<comment> \<open>an accepted response is sent\<close>
    "sys_inflight s = xs @ (ch, allow) # ys \<Longrightarrow>
     sys_step s (s\<lparr>sys_broker := Respond_send ch allow (sys_broker s), sys_inflight := xs @ ys\<rparr>)"
| receive: \<comment> \<open>the waiting chat request takes the answer; its deferred removal runs\<close>
    "sys_waiters s ch = Some rid \<Longrightarrow> chan_buf (sys_broker s) ch = v # vs \<Longrightarrow>
     sys_step s (s\<lparr>sys_broker := RemovePending rid
                     ((sys_broker s)\<lparr>chan_buf := (chan_buf (sys_broker s))(ch := vs)\<rparr>),
                   sys_waiters := (sys_waiters s)(ch := None), sys_results := (ch, v) # sys_results s\<rparr>)"
| give_up: \<comment> \<open>the timer fires or the request is cancelled: the answer is no\<close>
    "sys_waiters s ch = Some rid \<Longrightarrow>
     sys_step s (s\<lparr>sys_broker := RemovePending rid (sys_broker s),
                   sys_waiters := (sys_waiters s)(ch := None), sys_results := (ch, False) # sys_results s\<rparr>)"

text \<open>The value \<open>v\<close> on channel \<open>ch\<close> came from an accepted response by the channel's owner.\<close>

definition justified :: "sys \<Rightarrow> nat \<Rightarrow> bool \<Rightarrow> bool" where
  "justified s ch v \<longleftrightarrow> (\<exists>ip. hist_owner s ch = Some ip \<and> (ch, ip, v) \<in> hist_accepted s)"

definition sys_inv :: "sys \<Rightarrow> bool" where
  "sys_inv s \<longleftrightarrow>
     (\<forall>rid p. broker_pending (sys_broker s) rid = Some p \<longrightarrow>
        hist_owner s (perm_ch p) = Some (perm_ownerIP p)) \<and>
     (\<forall>ch. chan_next (sys_broker s) \<le> ch \<longrightarrow> hist_owner s ch = None \<and> sys_waiters s ch = None) \<and>
     (\<forall>ch v. (ch, v) \<in> set (sys_inflight s) \<longrightarrow> justified s ch v) \<and>
     (\<forall>ch v. v \<in> set (chan_buf (sys_broker s) ch) \<longrightarrow> justified s ch v) \<and>
     (\<forall>ch. length (chan_buf (sys_broker s) ch) \<le> 1) \<and>
     (\<forall>ch. (ch, True) \<in> set (sys_results s) \<longrightarrow> justified s ch True) \<and>
     (\<forall>ch. ch \<in> fst ` set (sys_results s) \<longrightarrow>
        sys_waiters s ch = None \<and> ch < chan_next (sys_broker s)) \<and>
     distinct (map fst (sys_results s)) \<and>
     (\<forall>ch ip v. (ch, ip, v) \<in> hist_accepted s \<longrightarrow> hist_owner s ch = Some ip)"

text \<open>The invariant's conjuncts, one by one.\<close>

lemma sys_invD:
  assumes "sys_inv s"
  shows "broker_pending (sys_broker s) i = Some p \<Longrightarrow> hist_owner s (perm_ch p) = Some (perm_ownerIP p)"
    and "chan_next (sys_broker s) \<le> c \<Longrightarrow> hist_owner s c = None"
    and "chan_next (sys_broker s) \<le> c \<Longrightarrow> sys_waiters s c = None"
    and "(c, v) \<in> set (sys_inflight s) \<Longrightarrow> justified s c v"
    and "v \<in> set (chan_buf (sys_broker s) c) \<Longrightarrow> justified s c v"
    and "length (chan_buf (sys_broker s) c) \<le> 1"
    and "(c, True) \<in> set (sys_results s) \<Longrightarrow> justified s c True"
    and "c \<in> fst ` set (sys_results s) \<Longrightarrow> sys_waiters s c = None"
    and "c \<in> fst ` set (sys_results s) \<Longrightarrow> c < chan_next (sys_broker s)"
    and "distinct (map fst (sys_results s))"
    and "(c, ip, v) \<in> hist_accepted s \<Longrightarrow> hist_owner s c = Some ip"
  using assms unfolding sys_inv_def by (elim conjE; metis)+

lemma sys_inv_init: "sys_inv sys_init"
  by (simp add: sys_inv_def sys_init_def NewPermissionBroker_def)

lemma waiter_allocated:
  assumes "sys_inv s" "sys_waiters s c = Some i"
  shows "c < chan_next (sys_broker s)" "c \<notin> fst ` set (sys_results s)"
proof -
  show "c < chan_next (sys_broker s)"
  proof (rule ccontr)
    assume "\<not> c < chan_next (sys_broker s)"
    then show False using sys_invD(3) [OF assms(1), of c] assms(2) by simp
  qed
  show "c \<notin> fst ` set (sys_results s)"
    using sys_invD(8) [OF assms(1), of c] assms(2) by auto
qed

lemma sys_inv_prompt:
  assumes "sys_inv s" "RegisterPending rid ip (sys_broker s) = (ch, b)"
  shows "sys_inv (s\<lparr>sys_broker := b, sys_waiters := (sys_waiters s)(ch \<mapsto> rid),
                   hist_owner := (hist_owner s)(ch \<mapsto> ip)\<rparr>)"
proof -
  let ?t = "s\<lparr>sys_broker := b, sys_waiters := (sys_waiters s)(ch \<mapsto> rid),
              hist_owner := (hist_owner s)(ch \<mapsto> ip)\<rparr>"
  note D = sys_invD [OF assms(1)]
  have ch: "ch = chan_next (sys_broker s)"
    and b: "b = (sys_broker s)\<lparr>chan_buf := (chan_buf (sys_broker s))(ch := []), chan_next := Suc ch,
               broker_pending := (broker_pending (sys_broker s))
                 (rid \<mapsto> \<lparr>perm_ch = ch, perm_ownerIP = ip\<rparr>)\<rparr>"
    using assms(2) by (auto simp: RegisterPending_def Let_def)
  have fresh: "hist_owner s ch = None" using D(2) ch by simp
  have owner: "hist_owner s c = Some j \<Longrightarrow> hist_owner ?t c = Some j" for c j
    using fresh by (cases "c = ch") auto
  have just: "justified s c v \<Longrightarrow> justified ?t c v" for c v
  proof -
    assume "justified s c v"
    then obtain j where j: "hist_owner s c = Some j" "(c, j, v) \<in> hist_accepted s"
      unfolding justified_def by blast
    then have "hist_owner ?t c = Some j" "(c, j, v) \<in> hist_accepted ?t"
      using owner [OF j(1)] by simp_all
    then show "justified ?t c v" unfolding justified_def by blast
  qed
  have old: "c \<in> fst ` set (sys_results s) \<Longrightarrow> c \<noteq> ch" for c using D(9) [of c] ch by auto
  show ?thesis unfolding sys_inv_def
  proof (intro conjI allI impI)
    fix i p assume "broker_pending (sys_broker ?t) i = Some p"
    then show "hist_owner ?t (perm_ch p) = Some (perm_ownerIP p)"
      using D(1) [of i p] owner by (cases "i = rid") (auto simp: b)
  next
    fix c assume "chan_next (sys_broker ?t) \<le> c"
    then show "hist_owner ?t c = None" "sys_waiters ?t c = None"
      using D(2,3) [of c] ch by (auto simp: b)
  next
    fix c v assume "(c, v) \<in> set (sys_inflight ?t)"
    then show "justified ?t c v" using D(4) just by simp
  next
    fix c v assume "v \<in> set (chan_buf (sys_broker ?t) c)"
    then show "justified ?t c v" using D(5) just by (cases "c = ch") (auto simp: b)
  next
    fix c show "length (chan_buf (sys_broker ?t) c) \<le> 1" using D(6) [of c] by (simp add: b)
  next
    fix c assume "(c, True) \<in> set (sys_results ?t)"
    then show "justified ?t c True" using D(7) just by simp
  next
    fix c assume "c \<in> fst ` set (sys_results ?t)"
    then show "sys_waiters ?t c = None" "c < chan_next (sys_broker ?t)"
      using D(8,9) [of c] old ch by (auto simp: b)
  next
    show "distinct (map fst (sys_results ?t))" using D(10) by simp
  next
    fix c j v assume "(c, j, v) \<in> hist_accepted ?t"
    then show "hist_owner ?t c = Some j" using D(11) owner by simp
  qed
qed

lemma sys_inv_accept:
  assumes "sys_inv s" "Respond_lookup rid ip (sys_broker s) = Some ch"
  shows "sys_inv (s\<lparr>sys_inflight := (ch, allow) # sys_inflight s,
                   hist_accepted := insert (ch, ip, allow) (hist_accepted s)\<rparr>)"
proof -
  let ?t = "s\<lparr>sys_inflight := (ch, allow) # sys_inflight s,
              hist_accepted := insert (ch, ip, allow) (hist_accepted s)\<rparr>"
  note D = sys_invD [OF assms(1)]
  have just: "justified s c v \<Longrightarrow> justified ?t c v" for c v
    by (auto simp: justified_def)
  have owner: "hist_owner s ch = Some ip"
    using assms(2) D(1) by (auto simp: Respond_lookup_def split: option.splits if_splits)
  then have "justified ?t ch allow" by (simp add: justified_def)
  then show ?thesis
    using D just owner unfolding sys_inv_def by simp
qed

lemma sys_inv_deliver:
  assumes "sys_inv s" "sys_inflight s = xs @ (ch, allow) # ys"
  shows "sys_inv (s\<lparr>sys_broker := Respond_send ch allow (sys_broker s), sys_inflight := xs @ ys\<rparr>)"
proof -
  let ?t = "s\<lparr>sys_broker := Respond_send ch allow (sys_broker s), sys_inflight := xs @ ys\<rparr>"
  note D = sys_invD [OF assms(1)]
  have just: "justified ?t c v = justified s c v" for c v by (simp add: justified_def)
  have "justified s ch allow" using D(4) assms(2) by simp
  then have "v \<in> set (chan_buf (sys_broker ?t) c) \<Longrightarrow> justified s c v" for c v
    using D(5) set_try_send [of 1 allow "chan_buf (sys_broker s) ch"]
    by (cases "c = ch") (auto simp: Respond_send_def)
  moreover have "length (chan_buf (sys_broker ?t) c) \<le> 1" for c
    using D(6) length_try_send [of "chan_buf (sys_broker s) ch" 1 allow]
    by (simp add: Respond_send_def)
  moreover have "broker_pending (sys_broker ?t) = broker_pending (sys_broker s)"
    "chan_next (sys_broker ?t) = chan_next (sys_broker s)" by (simp_all add: Respond_send_def)
  ultimately show ?thesis
    using D assms(2) unfolding sys_inv_def just by simp
qed

lemma sys_inv_answer:
  assumes "sys_inv s" "sys_waiters s ch = Some rid" "v \<longrightarrow> justified s ch True"
    and "set vs \<subseteq> set (chan_buf (sys_broker s) ch)" "length vs \<le> 1"
  shows "sys_inv (s\<lparr>sys_broker := RemovePending rid
                     ((sys_broker s)\<lparr>chan_buf := (chan_buf (sys_broker s))(ch := vs)\<rparr>),
                   sys_waiters := (sys_waiters s)(ch := None), sys_results := (ch, v) # sys_results s\<rparr>)"
    (is "sys_inv ?t")
proof -
  note D = sys_invD [OF assms(1)]
  have just: "justified ?t c w = justified s c w" for c w by (simp add: justified_def)
  have "w \<in> set (chan_buf (sys_broker ?t) c) \<Longrightarrow> justified s c w" for c w
    using D(5) assms(4) by (cases "c = ch") (auto simp: RemovePending_def)
  moreover have "length (chan_buf (sys_broker ?t) c) \<le> 1" for c
    using D(6) [of c] assms(5) by (simp add: RemovePending_def)
  moreover have "broker_pending (sys_broker ?t) i = Some p \<Longrightarrow> broker_pending (sys_broker s) i = Some p" for i p
    by (simp add: RemovePending_def split: if_splits)
  moreover have "chan_next (sys_broker ?t) = chan_next (sys_broker s)" by (simp add: RemovePending_def)
  ultimately show ?thesis
    using D assms(3) waiter_allocated [OF assms(1,2)] unfolding sys_inv_def just
    by (simp add: image_iff) blast
qed

lemma sys_inv_receive:
  assumes "sys_inv s" "sys_waiters s ch = Some rid" "chan_buf (sys_broker s) ch = v # vs"
  shows "sys_inv (s\<lparr>sys_broker := RemovePending rid
                     ((sys_broker s)\<lparr>chan_buf := (chan_buf (sys_broker s))(ch := vs)\<rparr>),
                   sys_waiters := (sys_waiters s)(ch := None), sys_results := (ch, v) # sys_results s\<rparr>)"
  using assms sys_invD(5) [OF assms(1), of v ch] sys_invD(6) [OF assms(1), of ch]
  by (intro sys_inv_answer) auto

lemma sys_inv_give_up:
  assumes "sys_inv s" "sys_waiters s ch = Some rid"
  shows "sys_inv (s\<lparr>sys_broker := RemovePending rid (sys_broker s),
                   sys_waiters := (sys_waiters s)(ch := None), sys_results := (ch, False) # sys_results s\<rparr>)"
  using sys_inv_answer [OF assms, of False "chan_buf (sys_broker s) ch"] sys_invD(6) [OF assms(1), of ch]
  by (simp add: RemovePending_def)

lemmas sys_inv_steps =
  sys_inv_prompt sys_inv_accept sys_inv_deliver sys_inv_receive sys_inv_give_up

interpretation broker_system: invariant_system "\<lambda>s. s = sys_init" sys_step sys_inv
proof unfold_locales
  fix s t
  assume "sys_inv s" "sys_step s t"
  from \<open>sys_step s t\<close> \<open>sys_inv s\<close> show "sys_inv t"
    by cases (auto intro: sys_inv_steps)
qed (simp add: sys_inv_init)

section \<open>Properties\<close>

text \<open>
  C8: a tool runs only on its owner's word. However prompts, answers, timeouts and sends are
  interleaved, a chat request that goes on with the answer yes waited on a channel whose owner,
  the client IP that got the prompt, itself posted an accepted yes for it; and no response of
  another IP is ever accepted for that channel.
\<close>

theorem permission_only_from_owner:
  assumes "sys_step\<^sup>*\<^sup>* sys_init s" "(ch, True) \<in> set (sys_results s)"
  shows "\<exists>ip. hist_owner s ch = Some ip \<and> (ch, ip, True) \<in> hist_accepted s \<and>
           (\<forall>ip' v. (ch, ip', v) \<in> hist_accepted s \<longrightarrow> ip' = ip)"
proof -
  have inv: "sys_inv s" using broker_system.reachable_inv [OF refl assms(1)] .
  then obtain ip where ip: "hist_owner s ch = Some ip" "(ch, ip, True) \<in> hist_accepted s"
    using sys_invD(7) [OF inv assms(2)] by (auto simp: justified_def)
  then show ?thesis using sys_invD(11) [OF inv] by fastforce
qed

definition granted_run :: sys where
  "granted_run =
     \<lparr>sys_broker = \<lparr>broker_pending = Map.empty, chan_buf = (\<lambda>_. []), chan_next = 1\<rparr>,
      sys_waiters = Map.empty, sys_inflight = [], sys_results = [(0, True)],
      hist_owner = [0 \<mapsto> ''10.100.0.2''], hist_accepted = {(0, ''10.100.0.2'', True)}\<rparr>"

lemma granted_run_reachable: "sys_step\<^sup>*\<^sup>* sys_init granted_run"
proof -
  let ?p = "\<lparr>perm_ch = 0, perm_ownerIP = ''10.100.0.2''\<rparr>"
  let ?b = "\<lparr>broker_pending = [''r1'' \<mapsto> ?p], chan_buf = (\<lambda>_. []), chan_next = 1\<rparr>"
  let ?s1 = "\<lparr>sys_broker = ?b, sys_waiters = [0 \<mapsto> ''r1''], sys_inflight = [], sys_results = [],
     hist_owner = [0 \<mapsto> ''10.100.0.2''], hist_accepted = {}\<rparr>"
  let ?s2 = "?s1\<lparr>sys_inflight := [(0, True)], hist_accepted := {(0, ''10.100.0.2'', True)}\<rparr>"
  let ?s3 = "?s2\<lparr>sys_broker := ?b\<lparr>chan_buf := (\<lambda>_. [])(0 := [True])\<rparr>, sys_inflight := []\<rparr>"
  have s1: "sys_step sys_init ?s1"
    using sys_step.prompt [of "''r1''" "''10.100.0.2''" sys_init 0 ?b]
    by (simp add: sys_init_def RegisterPending_def NewPermissionBroker_def fun_upd_idem)
  have s2: "sys_step ?s1 ?s2"
    using sys_step.accept [of "''r1''" "''10.100.0.2''" ?s1 0 True] by (simp add: Respond_lookup_def)
  have s3: "sys_step ?s2 ?s3"
    using sys_step.deliver [of ?s2 "[]" 0 True "[]"] by (simp add: Respond_send_def try_send_def)
  have s4: "sys_step ?s3 granted_run"
    using sys_step.receive [of ?s3 0 "''r1''" True "[]"]
    by (simp add: RemovePending_def granted_run_def fun_upd_idem)
  from s4 have "sys_step\<^sup>*\<^sup>* ?s3 granted_run" by (rule r_into_rtranclp)
  with s3 have "sys_step\<^sup>*\<^sup>* ?s2 granted_run" by (rule converse_rtranclp_into_rtranclp)
  with s2 have "sys_step\<^sup>*\<^sup>* ?s1 granted_run" by (rule converse_rtranclp_into_rtranclp)
  with s1 show ?thesis by (rule converse_rtranclp_into_rtranclp)
qed

theorem permission_only_from_owner_witness:
  "\<exists>ip. hist_owner granted_run 0 = Some ip \<and> (0, ip, True) \<in> hist_accepted granted_run"
  using permission_only_from_owner [OF granted_run_reachable, of 0]
  by (auto simp: granted_run_def)

text \<open>
  One answer per prompt. In every reachable state each channel has at most one answer that a
  chat request went on with and holds at most one unread answer, so a late or repeated response
  never changes a decision already taken and never blocks the responder.
\<close>

theorem one_answer_per_prompt:
  assumes "sys_step\<^sup>*\<^sup>* sys_init s"
  shows "distinct (map fst (sys_results s)) \<and> length (chan_buf (sys_broker s) ch) \<le> 1"
proof -
  have "sys_inv s" using broker_system.reachable_inv [OF refl assms] .
  then show ?thesis by (simp add: sys_inv_def)
qed

theorem one_answer_per_prompt_witness:
  "distinct (map fst (sys_results granted_run)) \<and> length (chan_buf (sys_broker granted_run) 0) \<le> 1"
  by (rule one_answer_per_prompt [OF granted_run_reachable])

text \<open>
  Answering from another address, or for an unknown or already removed prompt, is refused and
  changes nothing; the owner's first answer is accepted and is what the waiting request reads.
\<close>

theorem Respond_outcomes:
  "Respond rid ip allow (RemovePending rid b) = (False, RemovePending rid b) \<and>
   (let (ch, b1) = RegisterPending rid owner b
    in (ip \<noteq> owner \<longrightarrow> Respond rid ip allow b1 = (False, b1)) \<and>
       fst (Respond rid owner allow b1) \<and>
       chan_buf (snd (Respond rid owner allow b1)) ch = [allow] \<and>
       snd (Respond rid owner allow' (snd (Respond rid owner allow b1))) = snd (Respond rid owner allow b1))"
  by (simp add: Respond_def Respond_lookup_def RemovePending_def RegisterPending_def Respond_send_def
                try_send_def Let_def)

theorem Respond_outcomes_witness:
  "fst (Respond ''r1'' ''10.100.0.2'' True (snd (RegisterPending ''r1'' ''10.100.0.2'' NewPermissionBroker)))"
  using Respond_outcomes [of "''r1''" "''10.100.0.3''" True NewPermissionBroker "''10.100.0.2''" False]
  by (simp add: RegisterPending_def Let_def)

end
