(* ===== verification/WG_Config.thy ===== *)
theory WG_Config
  imports Go_Strings
begin

text \<open>
  \<^verbatim>\<open>internal/wg/config.go\<close>: the parser of WireGuard configuration files, line by line as the
  scanner delivers them. The state of the loop is the configuration built so far, the section and
  the pending peer. The lemmas give the effect of a block of lines on that state, so that the
  peer manager can say what an appended or removed block does to the parsed configuration.
\<close>

section \<open>Data\<close>

definition maxWGPeers :: nat where
  "maxWGPeers = 100"

record InterfaceConfig =
  if_PrivateKey :: string
  if_Address :: string
  if_ListenPort :: int

record PeerConfig =
  pc_PublicKey :: string
  pc_AllowedIPs :: "string list"
  pc_Endpoint :: string
  pc_PersistentKeepalive :: int
  pc_PreSharedKey :: string

record Config =
  cfg_Interface :: InterfaceConfig
  cfg_Peers :: "PeerConfig list"

definition empty_peer :: PeerConfig where
  "empty_peer = \<lparr>pc_PublicKey = [], pc_AllowedIPs = [], pc_Endpoint = [],
     pc_PersistentKeepalive = 0, pc_PreSharedKey = []\<rparr>"

definition empty_config :: Config where
  "empty_config = \<lparr>cfg_Interface = \<lparr>if_PrivateKey = [], if_Address = [], if_ListenPort = 0\<rparr>, cfg_Peers = []\<rparr>"

section \<open>Keys\<close>

text \<open>The text of an error from \<^verbatim>\<open>strconv\<close> is not kept in the messages.\<close>

definition applyInterfaceKey :: "InterfaceConfig \<Rightarrow> string \<Rightarrow> string \<Rightarrow> InterfaceConfig result" where
  "applyInterfaceKey iface key value =
     (let k = ToLower key
      in if k = ''privatekey'' then Inr (iface\<lparr>if_PrivateKey := value\<rparr>)
         else if k = ''address'' then Inr (iface\<lparr>if_Address := value\<rparr>)
         else if k = ''listenport'' then
           (case Atoi (TrimSpace value) of
              None \<Rightarrow> Inl ''invalid ListenPort''
            | Some port \<Rightarrow>
                if port < 1 \<or> 65535 < port then Inl (''ListenPort must be 1-65535, got '' @ Itoa port)
                else Inr (iface\<lparr>if_ListenPort := port\<rparr>))
         else Inr iface)"

definition split_allowed :: "string \<Rightarrow> string list" where
  "split_allowed value = filter (\<lambda>c. c \<noteq> []) (map TrimSpace (Split value (CHR '','')))"

definition applyPeerKey :: "PeerConfig \<Rightarrow> string \<Rightarrow> string \<Rightarrow> PeerConfig result" where
  "applyPeerKey peer key value =
     (let k = ToLower key
      in if k = ''publickey'' then Inr (peer\<lparr>pc_PublicKey := value\<rparr>)
         else if k = ''allowedips'' then
           Inr (peer\<lparr>pc_AllowedIPs := pc_AllowedIPs peer @ split_allowed value\<rparr>)
         else if k = ''endpoint'' then Inr (peer\<lparr>pc_Endpoint := value\<rparr>)
         else if k = ''persistentkeepalive'' then
           (case Atoi value of
              None \<Rightarrow> Inl ''invalid PersistentKeepalive''
            | Some ka \<Rightarrow> Inr (peer\<lparr>pc_PersistentKeepalive := ka\<rparr>))
         else if k = ''presharedkey'' then Inr (peer\<lparr>pc_PreSharedKey := value\<rparr>)
         else Inr peer)"

section \<open>The line loop\<close>

datatype sect = NoSection | InInterface | InPeer | Unknown

record parse_state =
  ps_cfg :: Config
  ps_section :: sect
  ps_current :: "PeerConfig option"

definition init_state :: parse_state where
  "init_state = \<lparr>ps_cfg = empty_config, ps_section = NoSection, ps_current = None\<rparr>"

text \<open>All peers read so far, the pending one last.\<close>

definition all_peers :: "parse_state \<Rightarrow> PeerConfig list" where
  "all_peers ps = cfg_Peers (ps_cfg ps) @ (case ps_current ps of None \<Rightarrow> [] | Some p \<Rightarrow> [p])"

definition commit :: "parse_state \<Rightarrow> parse_state" where
  "commit ps =
     (case ps_current ps of
        None \<Rightarrow> ps
      | Some p \<Rightarrow> ps\<lparr>ps_cfg := (ps_cfg ps)\<lparr>cfg_Peers := cfg_Peers (ps_cfg ps) @ [p]\<rparr>, ps_current := None\<rparr>)"

definition strip_comment :: "string \<Rightarrow> string" where
  "strip_comment line = (case Index line ''#'' of None \<Rightarrow> line | Some idx \<Rightarrow> take idx line)"

definition is_header :: "string \<Rightarrow> bool" where
  "is_header line \<longleftrightarrow> HasPrefix line ''['' \<and> HasSuffix line '']''"

definition header_name :: "string \<Rightarrow> string" where
  "header_name line = ToLower (TrimSpace (take (length line - 2) (drop 1 line)))"

definition parse_header :: "string \<Rightarrow> parse_state \<Rightarrow> parse_state result" where
  "parse_header header ps =
     (if header = ''interface'' then Inr ((commit ps)\<lparr>ps_section := InInterface\<rparr>)
      else if header = ''peer'' then
        (let ps1 = commit ps
         in if maxWGPeers \<le> length (cfg_Peers (ps_cfg ps1))
            then Inl (''wg config: too many peers (max '' @ Itoa (int maxWGPeers) @ '')'')
            else Inr (ps1\<lparr>ps_current := Some empty_peer, ps_section := InPeer\<rparr>))
      else Inr ((commit ps)\<lparr>ps_section := Unknown\<rparr>))"

definition line_error :: "nat \<Rightarrow> string \<Rightarrow> string" where
  "line_error n e = ''wg: line '' @ Itoa (int n) @ '': '' @ e"

definition parse_key :: "nat \<Rightarrow> string \<Rightarrow> string \<Rightarrow> parse_state \<Rightarrow> parse_state result" where
  "parse_key n key value ps =
     (case ps_section ps of
        InInterface \<Rightarrow>
          (case applyInterfaceKey (cfg_Interface (ps_cfg ps)) key value of
             Inl e \<Rightarrow> Inl (line_error n e)
           | Inr iface \<Rightarrow> Inr (ps\<lparr>ps_cfg := (ps_cfg ps)\<lparr>cfg_Interface := iface\<rparr>\<rparr>))
      | InPeer \<Rightarrow>
          (let peer = (case ps_current ps of None \<Rightarrow> empty_peer | Some p \<Rightarrow> p)
           in case applyPeerKey peer key value of
                Inl e \<Rightarrow> Inl (line_error n e)
              | Inr p \<Rightarrow> Inr (ps\<lparr>ps_current := Some p\<rparr>))
      | _ \<Rightarrow> Inr ps)"

definition parse_line :: "nat \<Rightarrow> string \<Rightarrow> parse_state \<Rightarrow> parse_state result" where
  "parse_line n text ps =
     (let line = TrimSpace (strip_comment text)
      in if line = [] then Inr ps
         else if is_header line then parse_header (header_name line) ps
         else
           (case Cut line (CHR ''='') of
              None \<Rightarrow> Inr ps
            | Some (k, v) \<Rightarrow> parse_key n (TrimSpace k) (TrimSpace v) ps))"

text \<open>
  \<^verbatim>\<open>bufio.Scanner\<close> with \<^verbatim>\<open>ScanLines\<close>: the newline and one carriage return before it are
  dropped, a final empty line is not delivered, and a line of 64 KiB or more is an error.
\<close>

definition maxTokenSize :: int where
  "maxTokenSize = 65536"

definition raw_lines :: "string \<Rightarrow> string list" where
  "raw_lines s = (let ls = Split s (CHR 0x0A) in if last ls = [] then butlast ls else ls)"

definition dropCR :: "string \<Rightarrow> string" where
  "dropCR l = TrimSuffix l [CHR 0x0D]"

fun parse_lines :: "nat \<Rightarrow> string list \<Rightarrow> parse_state \<Rightarrow> parse_state result" where
  "parse_lines n [] ps = Inr ps"
| "parse_lines n (l # ls) ps =
     (if maxTokenSize \<le> int (length l) then Inl ''wg: scan error: bufio.Scanner: token too long''
      else
        (case parse_line (Suc n) (dropCR l) ps of
           Inl e \<Rightarrow> Inl e
         | Inr ps' \<Rightarrow> parse_lines (Suc n) ls ps'))"

definition finish :: "parse_state \<Rightarrow> Config result" where
  "finish ps =
     (let cfg = ps_cfg (commit ps)
      in if maxWGPeers < length (cfg_Peers cfg)
         then Inl (''wg config: too many peers ('' @ Itoa (int (length (cfg_Peers cfg))) @ '', max '' @
                   Itoa (int maxWGPeers) @ '')'')
         else Inr cfg)"

definition ParseString :: "string \<Rightarrow> Config result" where
  "ParseString s =
     (case parse_lines 0 (raw_lines s) init_state of
        Inl e \<Rightarrow> Inl e
      | Inr ps \<Rightarrow> finish ps)"

text \<open>\<open>ParseFile\<close> of a path whose content is given; \<open>None\<close> when it cannot be read.\<close>

definition ParseFile :: "string \<Rightarrow> string option \<Rightarrow> Config result" where
  "ParseFile path content =
     (case content of
        None \<Rightarrow> Inl (''wg: read config file '' @ path)
      | Some data \<Rightarrow> ParseString data)"

section \<open>Facts about single lines\<close>

lemma all_peers_commit [simp]:
  "all_peers (commit ps) = all_peers ps" "ps_current (commit ps) = None"
  "cfg_Peers (ps_cfg (commit ps)) = all_peers ps" "cfg_Interface (ps_cfg (commit ps)) = cfg_Interface (ps_cfg ps)"
  by (auto simp: all_peers_def commit_def split: option.splits)

lemma strip_comment_Cut:
  "strip_comment (a @ CHR 0x23 # b) = a" if "CHR 0x23 \<notin> set a"
  using that by (simp add: strip_comment_def Index_single takeWhile_append)

lemma strip_comment_none: "CHR 0x23 \<notin> set a \<Longrightarrow> strip_comment a = a"
  by (simp add: strip_comment_def Index_single)

lemma Index_eq_Cut: "Index s ''='' = map_option (\<lambda>(a, b). length a) (Cut s (CHR ''=''))"
  by (induction s) (auto split: option.splits)

lemma parse_line_empty [simp]: "parse_line n [] ps = Inr ps"
  by (simp add: parse_line_def strip_comment_def)

lemma dropCR_no_CR: "CHR 0x0D \<notin> set l \<Longrightarrow> dropCR l = l"
  by (auto simp: dropCR_def TrimSuffix_def suffix_def)

lemma parse_lines_append:
  "parse_lines n (xs @ ys) ps =
     (case parse_lines n xs ps of Inl e \<Rightarrow> Inl e | Inr ps' \<Rightarrow> parse_lines (n + length xs) ys ps')"
  by (induction xs arbitrary: n ps) (auto split: sum.splits)

lemma parse_lines_blanks: "set ls \<subseteq> {[]} \<Longrightarrow> parse_lines n ls ps = Inr ps"
  by (induction ls arbitrary: n) (auto simp: maxTokenSize_def dropCR_def TrimSuffix_def)

text \<open>The raw lines are the split lines without blank lines at the end.\<close>

lemma raw_lines_blank:
  obtains bs where "Split s (CHR 0x0A) = raw_lines s @ bs" "set bs \<subseteq> {[]}"
proof (cases "last (Split s (CHR 0x0A)) = []")
  case True
  then have "Split s (CHR 0x0A) = raw_lines s @ [[]]"
    using append_butlast_last_id [of "Split s (CHR 0x0A)"] by (simp add: raw_lines_def)
  then show ?thesis using that by simp
next
  case False
  then show ?thesis using that [of "[]"] by (simp add: raw_lines_def)
qed

lemma parse_lines_Split: "parse_lines n (Split s (CHR 0x0A)) ps = parse_lines n (raw_lines s) ps"
proof -
  obtain bs where "Split s (CHR 0x0A) = raw_lines s @ bs" "set bs \<subseteq> {[]}"
    by (rule raw_lines_blank)
  then show ?thesis by (simp add: parse_lines_append parse_lines_blanks split: sum.splits)
qed

lemma ParseString_Split:
  "ParseString s =
     (case parse_lines 0 (Split s (CHR 0x0A)) init_state of Inl e \<Rightarrow> Inl e | Inr ps \<Rightarrow> finish ps)"
  by (simp add: ParseString_def parse_lines_Split)

section \<open>Invariant of the loop\<close>

definition parse_inv :: "parse_state \<Rightarrow> bool" where
  "parse_inv ps \<longleftrightarrow>
     length (all_peers ps) \<le> maxWGPeers \<and>
     (ps_section ps = InPeer \<longleftrightarrow> ps_current ps \<noteq> None) \<and>
     (let p = if_ListenPort (cfg_Interface (ps_cfg ps)) in 0 \<le> p \<and> p \<le> 65535)"

lemma parse_inv_init: "parse_inv init_state"
  by (simp add: parse_inv_def init_state_def all_peers_def empty_config_def)

lemma applyInterfaceKey_port:
  "applyInterfaceKey iface k v = Inr iface' \<Longrightarrow>
     0 \<le> if_ListenPort iface \<and> if_ListenPort iface \<le> 65535 \<Longrightarrow>
     0 \<le> if_ListenPort iface' \<and> if_ListenPort iface' \<le> 65535"
  by (auto simp: applyInterfaceKey_def Let_def split: if_splits option.splits)

lemma parse_inv_header:
  "parse_inv ps \<Longrightarrow> parse_header h ps = Inr ps' \<Longrightarrow> parse_inv ps'"
  by (auto simp: parse_inv_def parse_header_def Let_def all_peers_def [of "_\<lparr>ps_current := _\<rparr>"]
        all_peers_def [of "_\<lparr>ps_section := _\<rparr>"] split: if_splits)

lemma parse_inv_key:
  "parse_inv ps \<Longrightarrow> parse_key n k v ps = Inr ps' \<Longrightarrow> parse_inv ps'"
  using applyInterfaceKey_port [of "cfg_Interface (ps_cfg ps)" k v]
  by (auto simp: parse_inv_def parse_key_def Let_def all_peers_def
        split: sect.splits sum.splits option.splits)

lemma parse_inv_line:
  "parse_inv ps \<Longrightarrow> parse_line n l ps = Inr ps' \<Longrightarrow> parse_inv ps'"
  by (auto simp: parse_line_def Let_def intro: parse_inv_header parse_inv_key
        split: if_splits option.splits prod.splits)

lemma parse_inv_lines:
  "parse_inv ps \<Longrightarrow> parse_lines n ls ps = Inr ps' \<Longrightarrow> parse_inv ps'"
proof (induction ls arbitrary: n ps)
  case (Cons l ls)
  then show ?case by (auto intro: parse_inv_line split: if_splits sum.splits)
qed simp

text \<open>The final check of the peer count never fails, and \<open>finish\<close> only commits the last peer.\<close>

lemma finish_inv: "parse_inv ps \<Longrightarrow> finish ps = Inr (ps_cfg (commit ps))"
  by (simp add: finish_def parse_inv_def Let_def)

lemma ParseString_Inr_iff [ok_iff]:
  "ParseString s = Inr cfg \<longleftrightarrow>
     (\<exists>ps. parse_lines 0 (raw_lines s) init_state = Inr ps \<and> cfg = ps_cfg (commit ps))"
  using parse_inv_lines [OF parse_inv_init, of 0 "raw_lines s"] finish_inv
  by (auto simp: ParseString_def split: sum.splits)

section \<open>Blocks of lines\<close>

text \<open>What the parser sees of a line, and the two kinds of line inside a peer block.\<close>

definition text_of :: "string \<Rightarrow> string" where
  "text_of l = TrimSpace (strip_comment (dropCR l))"

definition peer_header :: "string \<Rightarrow> bool" where
  "peer_header l \<longleftrightarrow> is_header (text_of l) \<and> header_name (text_of l) = ''peer''"

definition plain_line :: "string \<Rightarrow> bool" where
  "plain_line l \<longleftrightarrow> \<not> is_header (text_of l)"

text \<open>The effect of plain lines on the peer they configure.\<close>

fun body_effect :: "string list \<Rightarrow> PeerConfig \<Rightarrow> PeerConfig option" where
  "body_effect [] p = Some p"
| "body_effect (l # ls) p =
     (if maxTokenSize \<le> int (length l) then None
      else
        (case Cut (text_of l) (CHR ''='') of
           None \<Rightarrow> body_effect ls p
         | Some (k, v) \<Rightarrow>
             (case applyPeerKey p (TrimSpace k) (TrimSpace v) of
                Inl e \<Rightarrow> None
              | Inr p' \<Rightarrow> body_effect ls p')))"

type_synonym block = "string \<times> string list"

definition wf_block :: "block \<Rightarrow> bool" where
  "wf_block b \<longleftrightarrow> peer_header (fst b) \<and> list_all plain_line (snd b)"

definition block_lines :: "block \<Rightarrow> string list" where
  "block_lines b = fst b # snd b"

definition block_peer :: "block \<Rightarrow> PeerConfig option" where
  "block_peer b = (if maxTokenSize \<le> int (length (fst b)) then None else body_effect (snd b) empty_peer)"

lemma parse_lines_body:
  assumes "list_all plain_line ls" "ps_section ps = InPeer" "ps_current ps = Some p"
  shows "parse_lines n ls ps = Inr ps' \<longleftrightarrow>
           (\<exists>p'. body_effect ls p = Some p' \<and> ps' = ps\<lparr>ps_current := Some p'\<rparr>)"
  using assms
proof (induction ls arbitrary: n ps p)
  case Nil
  then show ?case by (cases ps) auto
next
  case (Cons l ls)
  let ?t = "text_of l"
  have pl: "\<not> is_header ?t" using Cons.prems by (simp add: plain_line_def)
  show ?case
  proof (cases "Cut ?t (CHR ''='')")
    case None
    then have "parse_line (Suc n) (dropCR l) ps = Inr ps"
      using pl by (auto simp: parse_line_def text_of_def Let_def)
    then show ?thesis using None Cons by simp
  next
    case (Some kv)
    obtain k v where kv: "kv = (k, v)" by (cases kv)
    have "?t \<noteq> []" using Some by (cases "?t") auto
    then have line: "parse_line (Suc n) (dropCR l) ps =
        (case applyPeerKey p (TrimSpace k) (TrimSpace v) of
           Inl e \<Rightarrow> Inl (line_error (Suc n) e) | Inr p' \<Rightarrow> Inr (ps\<lparr>ps_current := Some p'\<rparr>))"
      using pl Some kv Cons.prems(2,3) by (simp add: parse_line_def text_of_def parse_key_def)
    show ?thesis
    proof (cases "applyPeerKey p (TrimSpace k) (TrimSpace v)")
      case Inl
      then show ?thesis using line Some kv by simp
    next
      case (Inr q)
      then show ?thesis
        using line Some kv Cons.IH [of "ps\<lparr>ps_current := Some q\<rparr>" q "Suc n"] Cons.prems by simp
    qed
  qed
qed

lemma swap_updates:
  "r\<lparr>ps_current := c, ps_section := t\<rparr> = r\<lparr>ps_section := t, ps_current := c\<rparr>"
  by (cases r) simp

lemma parse_lines_block:
  assumes "wf_block b"
  shows "parse_lines n (block_lines b) ps = Inr ps' \<longleftrightarrow>
           length (all_peers ps) < maxWGPeers \<and>
           (\<exists>p. block_peer b = Some p \<and>
                ps' = (commit ps)\<lparr>ps_current := Some p, ps_section := InPeer\<rparr>)"
proof -
  obtain h ls where b: "b = (h, ls)" by (cases b)
  have h: "is_header (text_of h)" "header_name (text_of h) = ''peer''" and ls: "list_all plain_line ls"
    using assms by (auto simp: wf_block_def peer_header_def b)
  let ?ps = "(commit ps)\<lparr>ps_current := Some empty_peer, ps_section := InPeer\<rparr>"
  have "text_of h \<noteq> []" using h(1) by (auto simp: is_header_def)
  then have line: "parse_line (Suc n) (dropCR h) ps =
      (if maxWGPeers \<le> length (all_peers ps)
       then Inl (''wg config: too many peers (max '' @ Itoa (int maxWGPeers) @ '')'') else Inr ?ps)"
    using h by (simp add: parse_line_def text_of_def parse_header_def Let_def)
  have body: "parse_lines (Suc n) ls ?ps = Inr ps' \<longleftrightarrow>
      (\<exists>p. body_effect ls empty_peer = Some p \<and>
           ps' = (commit ps)\<lparr>ps_current := Some p, ps_section := InPeer\<rparr>)"
    by (subst parse_lines_body [OF ls]) (simp_all add: swap_updates)
  show ?thesis
  proof (cases "maxTokenSize \<le> int (length h) \<or> maxWGPeers \<le> length (all_peers ps)")
    case True
    then show ?thesis using line by (auto simp: b block_lines_def block_peer_def)
  next
    case False
    then show ?thesis using line body by (simp add: b block_lines_def block_peer_def)
  qed
qed

lemma all_peers_block:
  "all_peers ((commit ps)\<lparr>ps_current := Some p, ps_section := InPeer\<rparr>) = all_peers ps @ [p]"
  by (simp add: all_peers_def [of "_\<lparr>ps_section := _\<rparr>"])

text \<open>
  A sequence of well-formed blocks parses exactly when each block does and the limit is kept; it
  adds one peer per block and leaves the interface alone.
\<close>

definition flat :: "block list \<Rightarrow> string list" where
  "flat bs = concat (map block_lines bs)"

lemma flat_simps [simp]: "flat [] = []" "flat (b # bs) = block_lines b @ flat bs"
  by (simp_all add: flat_def)

lemma parse_lines_blocksD:
  "list_all wf_block bs \<Longrightarrow> parse_lines n (flat bs) ps = Inr ps' \<Longrightarrow>
     \<exists>qs. map block_peer bs = map Some qs \<and> all_peers ps' = all_peers ps @ qs \<and>
          cfg_Interface (ps_cfg ps') = cfg_Interface (ps_cfg ps)"
proof (induction bs arbitrary: n ps)
  case Nil
  then show ?case by simp
next
  case (Cons b bs)
  then obtain ps1 where ps1: "parse_lines n (block_lines b) ps = Inr ps1"
      "parse_lines (n + length (block_lines b)) (flat bs) ps1 = Inr ps'"
    by (auto simp: parse_lines_append split: sum.splits)
  have "wf_block b" using Cons.prems(1) by simp
  then obtain p where p: "block_peer b = Some p"
    and rest: "parse_lines (n + length (block_lines b)) (flat bs)
        ((commit ps)\<lparr>ps_current := Some p, ps_section := InPeer\<rparr>) = Inr ps'"
    using ps1 by (metis parse_lines_block)
  obtain qs where "map block_peer bs = map Some qs" "all_peers ps' = (all_peers ps @ [p]) @ qs"
    "cfg_Interface (ps_cfg ps') = cfg_Interface (ps_cfg ps)"
    using Cons.IH [OF _ rest] Cons.prems(1) by (auto simp: all_peers_block)
  then show ?case using p by (intro exI [of _ "p # qs"]) simp
qed

lemma parse_lines_blocksI:
  "list_all wf_block bs \<Longrightarrow> map block_peer bs = map Some qs \<Longrightarrow>
     length (all_peers ps) + length bs \<le> maxWGPeers \<Longrightarrow>
     \<exists>ps'. parse_lines n (flat bs) ps = Inr ps' \<and> all_peers ps' = all_peers ps @ qs \<and>
           cfg_Interface (ps_cfg ps') = cfg_Interface (ps_cfg ps)"
proof (induction bs arbitrary: n ps qs)
  case Nil
  then show ?case by simp
next
  case (Cons b bs)
  then obtain p qs' where qs: "qs = p # qs'" "block_peer b = Some p" "map block_peer bs = map Some qs'"
    by (cases qs) auto
  let ?ps = "(commit ps)\<lparr>ps_current := Some p, ps_section := InPeer\<rparr>"
  have "parse_lines n (block_lines b) ps = Inr ?ps"
    using Cons.prems qs by (subst parse_lines_block) auto
  moreover obtain ps' where "parse_lines (n + length (block_lines b)) (flat bs) ?ps = Inr ps'"
    "all_peers ps' = (all_peers ps @ [p]) @ qs'" "cfg_Interface (ps_cfg ps') = cfg_Interface (ps_cfg ps)"
    using Cons.IH [of qs' ?ps "n + length (block_lines b)"] Cons.prems qs(3)
    by (auto simp: all_peers_block)
  ultimately show ?case using qs(1) by (simp add: parse_lines_append)
qed

text \<open>Blank lines after the blocks change nothing; the whole file is a preamble and blocks.\<close>

lemma ParseString_blocksD:
  assumes "Split s (CHR 0x0A) = pre @ flat bs @ zs" "list_all wf_block bs" "set zs \<subseteq> {[]}"
    and "ParseString s = Inr cfg"
  obtains ps qs where "parse_lines 0 pre init_state = Inr ps" "map block_peer bs = map Some qs"
    "cfg_Peers cfg = all_peers ps @ qs" "cfg_Interface cfg = cfg_Interface (ps_cfg ps)"
proof -
  obtain ps' where ps': "parse_lines 0 (pre @ flat bs @ zs) init_state = Inr ps'" "cfg = ps_cfg (commit ps')"
    using assms(4) parse_lines_Split [of 0 s init_state] unfolding ParseString_Inr_iff assms(1) by auto
  then obtain ps where ps: "parse_lines 0 pre init_state = Inr ps"
    "parse_lines (length pre) (flat bs) ps = Inr ps'"
    using parse_lines_blanks [OF assms(3)] by (auto simp: parse_lines_append split: sum.splits)
  then show ?thesis
    using parse_lines_blocksD [OF assms(2) ps(2)] that [OF ps(1)] ps'(2) by auto
qed

lemma ParseString_blocksI:
  assumes "Split s (CHR 0x0A) = pre @ flat bs @ zs" "list_all wf_block bs" "set zs \<subseteq> {[]}"
    and "parse_lines 0 pre init_state = Inr ps" "map block_peer bs = map Some qs"
    and "length (all_peers ps) + length bs \<le> maxWGPeers"
  shows "ParseString s = Inr \<lparr>cfg_Interface = cfg_Interface (ps_cfg ps), cfg_Peers = all_peers ps @ qs\<rparr>"
proof -
  obtain ps' where "parse_lines (length pre) (flat bs) ps = Inr ps'"
    and eq: "all_peers ps' = all_peers ps @ qs" "cfg_Interface (ps_cfg ps') = cfg_Interface (ps_cfg ps)"
    using parse_lines_blocksI [OF assms(2,5,6)] by blast
  then have "parse_lines 0 (raw_lines s) init_state = Inr ps'"
    using assms(4) parse_lines_blanks [OF assms(3)]
    by (simp add: parse_lines_Split [symmetric] assms(1) parse_lines_append)
  moreover have "ps_cfg (commit ps') = \<lparr>cfg_Interface = cfg_Interface (ps_cfg ps), cfg_Peers = all_peers ps @ qs\<rparr>"
    using eq by (intro Config.equality) auto
  ultimately show ?thesis unfolding ParseString_Inr_iff by metis
qed

section \<open>Properties\<close>

text \<open>
  Bounds of a parsed configuration. Whatever the text, a configuration that parses has at most
  100 peers and a listen port that is 0 (not given) or a valid port.
\<close>

theorem ParseString_bounds:
  assumes "ParseString s = Inr cfg"
  shows "length (cfg_Peers cfg) \<le> 100 \<and>
         0 \<le> if_ListenPort (cfg_Interface cfg) \<and> if_ListenPort (cfg_Interface cfg) \<le> 65535"
proof -
  obtain ps where "parse_lines 0 (raw_lines s) init_state = Inr ps" "cfg = ps_cfg (commit ps)"
    using assms unfolding ParseString_Inr_iff by blast
  moreover from this have "parse_inv ps" by (blast intro: parse_inv_lines parse_inv_init)
  ultimately show ?thesis by (simp add: parse_inv_def maxWGPeers_def Let_def)
qed

theorem ParseString_bounds_witness:
  "ParseString (''[Interface]'' @ [CHR 0x0A] @ ''ListenPort = 80'') =
     Inr (empty_config\<lparr>cfg_Interface := \<lparr>if_PrivateKey = [], if_Address = [], if_ListenPort = 80\<rparr>\<rparr>) \<and>
   (0::nat) \<le> 100 \<and> (0::int) \<le> 80 \<and> (80::int) \<le> 65535"
proof -
  have l: "raw_lines (''[Interface]'' @ [CHR 0x0A] @ ''ListenPort = 80'') =
      [''[Interface]'', ''ListenPort = 80'']"
    by code_simp
  have 1: "parse_line 1 ''[Interface]'' init_state = Inr (init_state\<lparr>ps_section := InInterface\<rparr>)"
    by code_simp
  have 2: "parse_line 2 ''ListenPort = 80'' (init_state\<lparr>ps_section := InInterface\<rparr>) =
      Inr \<lparr>ps_cfg = empty_config\<lparr>cfg_Interface := \<lparr>if_PrivateKey = [], if_Address = [], if_ListenPort = 80\<rparr>\<rparr>,
        ps_section = InInterface, ps_current = None\<rparr>"
    by code_simp
  have p: "ParseString (''[Interface]'' @ [CHR 0x0A] @ ''ListenPort = 80'') =
     Inr (empty_config\<lparr>cfg_Interface := \<lparr>if_PrivateKey = [], if_Address = [], if_ListenPort = 80\<rparr>\<rparr>)"
    unfolding ParseString_def l
    using 1 2 by (simp add: maxTokenSize_def dropCR_no_CR finish_def commit_def empty_config_def numeral_2_eq_2)
  show ?thesis using ParseString_bounds [OF p] p by (simp add: empty_config_def)
qed

end
