(* ===== verification/Go_Net.thy ===== *)
theory Go_Net
  imports Go_Strings
begin

text \<open>
  The part of Go's \<^verbatim>\<open>net\<close> package the relay uses: textual addresses of both families, CIDR prefixes,
  and host-port pairs. An address is the list of its 16 bytes, as in \<^verbatim>\<open>net.IP\<close>; an IPv4 address is
  mapped into them.
\<close>

section \<open>Addresses and prefixes\<close>

definition parse_octet :: "string \<Rightarrow> nat option" where
  "parse_octet f =
     (if f = [] \<or> \<not> list_all is_digit f \<or> (hd f = CHR ''0'' \<and> 1 < length f) \<or> 255 < digits_val f
      then None else Some (digits_val f))"

definition parse_ipv4 :: "string \<Rightarrow> nat list option" where
  "parse_ipv4 s =
     (case map parse_octet (Split s (CHR ''.'')) of
        [Some a, Some b, Some c, Some d] \<Rightarrow> Some [a, b, c, d]
      | _ \<Rightarrow> None)"

text \<open>
  \<^verbatim>\<open>netip.ParseAddr\<close>. \<open>ipv6_read n bs ell s\<close> reads \<open>s\<close> with \<open>n\<close> of the eight groups left, after the bytes
  \<open>bs\<close>, with the position of an ellipsis if there was one.
\<close>

definition is_hex_char :: "char \<Rightarrow> bool" where
  "is_hex_char c \<longleftrightarrow> is_digit c \<or> (97 \<le> byte c \<and> byte c \<le> 102) \<or> (65 \<le> byte c \<and> byte c \<le> 70)"

definition hex_digit_val :: "char \<Rightarrow> nat" where
  "hex_digit_val c = (if is_digit c then byte c - 48 else if 97 \<le> byte c then byte c - 87 else byte c - 55)"

text \<open>The two bytes of a group.\<close>

definition group_bytes :: "string \<Rightarrow> nat list" where
  "group_bytes hs = (let v = foldl (\<lambda>a c. 16 * a + hex_digit_val c) 0 hs in [v div 256, v mod 256])"

fun ipv6_read :: "nat \<Rightarrow> nat list \<Rightarrow> nat option \<Rightarrow> string \<Rightarrow> (nat list \<times> nat option) option" where
  "ipv6_read 0 bs ell s = None"
| "ipv6_read (Suc n) bs ell s =
     (let hs = takeWhile is_hex_char s; rest = dropWhile is_hex_char s; bs' = bs @ group_bytes hs in
      if hs = [] \<or> 4 < length hs then None
      else (case rest of
        [] \<Rightarrow> Some (bs', ell)
      | c # r \<Rightarrow>
          if c = CHR ''.'' then
            (if ell = None \<and> length bs \<noteq> 12 \<or> n = 0 then None
             else map_option (\<lambda>q. (bs @ q, ell)) (parse_ipv4 s))
          else if c \<noteq> CHR '':'' \<or> r = [] then None
          else if hd r = CHR '':'' then
            (if ell \<noteq> None then None
             else if tl r = [] then Some (bs', Some (length bs'))
             else ipv6_read n bs' (Some (length bs')) (tl r))
          else ipv6_read n bs' ell r))"

text \<open>The ellipsis stands for at least one byte of zeros.\<close>

definition expand :: "nat list \<times> nat option \<Rightarrow> nat list option" where
  "expand r =
     (case r of
        (bs, None) \<Rightarrow> if length bs = 16 then Some bs else None
      | (bs, Some k) \<Rightarrow>
          if length bs < 16 then Some (take k bs @ replicate (16 - length bs) 0 @ drop k bs) else None)"

definition parse_ipv6 :: "string \<Rightarrow> nat list option" where
  "parse_ipv6 s =
     (if s = ''::'' then Some (replicate 16 0)
      else Option.bind (if HasPrefix s ''::'' then ipv6_read 8 [] (Some 0) (drop 2 s) else ipv6_read 8 [] None s) expand)"

datatype netip_addr = Addr4 "nat list" | Addr6 "nat list"

fun As16 :: "netip_addr \<Rightarrow> nat list" where
  "As16 (Addr4 q) = replicate 10 0 @ [255, 255] @ q"
| "As16 (Addr6 bs) = bs"

fun BitLen :: "netip_addr \<Rightarrow> nat" where
  "BitLen (Addr4 q) = 32"
| "BitLen (Addr6 bs) = 128"

text \<open>An address with a zone counts as none: both callers refuse it.\<close>

definition ParseAddr :: "string \<Rightarrow> netip_addr option" where
  "ParseAddr s =
     (case find (\<lambda>c. c = CHR ''.'' \<or> c = CHR '':'' \<or> c = CHR ''%'') s of
        Some c \<Rightarrow>
          if c = CHR ''.'' then map_option Addr4 (parse_ipv4 s)
          else if c = CHR '':'' \<and> CHR ''%'' \<notin> set s then map_option Addr6 (parse_ipv6 s)
          else None
      | None \<Rightarrow> None)"

text \<open>Whether \<^verbatim>\<open>net.ParseIP\<close> accepts a text.\<close>

definition ParseIP_ok :: "string \<Rightarrow> bool" where
  "ParseIP_ok s \<longleftrightarrow> ParseAddr s \<noteq> None"

text \<open>\<^verbatim>\<open>net.ParseCIDR\<close>, returning the address (not masked), and \<^verbatim>\<open>IP.To4\<close>.\<close>

definition ParseCIDR :: "string \<Rightarrow> nat list option" where
  "ParseCIDR s =
     (case Cut s (CHR 0x2F) of
        None \<Rightarrow> None
      | Some (addr, bits) \<Rightarrow>
          (case ParseAddr addr of
             None \<Rightarrow> None
           | Some ip \<Rightarrow>
               if bits = [] \<or> \<not> list_all is_digit bits \<or> BitLen ip < digits_val bits then None else Some (As16 ip)))"

definition To4 :: "nat list \<Rightarrow> nat list option" where
  "To4 ip = (if length ip = 16 \<and> take 12 ip = replicate 10 0 @ [255, 255] then Some (drop 12 ip) else None)"

definition IP_String :: "nat list \<Rightarrow> string" where
  "IP_String ip = Join (map nat_digits ip) ''.''"

text \<open>
  The canonical text of an IPv6 address: the groups in hexadecimal without leading zeros, with the first of
  the longest runs of at least two zero groups left out.
\<close>

fun hex_digits :: "nat \<Rightarrow> string" where
  "hex_digits n =
     (let d = (if n mod 16 < 10 then char_of (48 + n mod 16) else char_of (87 + n mod 16))
      in if n < 16 then [d] else hex_digits (n div 16) @ [d])"

declare hex_digits.simps [simp del]

definition zero_run :: "nat list \<Rightarrow> nat \<times> nat" where
  "zero_run gs =
     foldl (\<lambda>(st, len) i. let l = length (takeWhile (\<lambda>g. g = 0) (drop i gs)) in
               if 2 \<le> l \<and> len < l then (i, l) else (st, len)) (0, 0) [0 ..< length gs]"

definition ip6_string :: "nat list \<Rightarrow> string" where
  "ip6_string ip =
     (let gs = map (\<lambda>i. 256 * ip ! (2 * i) + ip ! (2 * i + 1)) [0 ..< 8];
          (st, len) = zero_run gs
      in if len = 0 then Join (map hex_digits gs) '':''
         else Join (map hex_digits (take st gs)) '':'' @ ''::'' @ Join (map hex_digits (drop (st + len) gs)) '':'')"

definition IP_text :: "nat list \<Rightarrow> string" where
  "IP_text ip = (case To4 ip of Some q \<Rightarrow> IP_String q | None \<Rightarrow> ip6_string ip)"

lemma nat_digits_lead: "hd (nat_digits n) = CHR ''0'' \<Longrightarrow> n = 0"
proof (induction n rule: nat_digits.induct)
  case (1 n)
  have hd: "hd (nat_digits n) = (if n < 10 then digit_char n else hd (nat_digits (n div 10)))"
    by (subst nat_digits.simps) simp
  show ?case
  proof (cases "n < 10")
    case True
    with 1 hd have "digit_char n = CHR ''0''" by simp
    then have "byte (digit_char n) = 48" by simp
    then show ?thesis using byte_digit_char [OF True] by simp
  next
    case False
    with 1 hd have "n div 10 = 0" by simp
    then show ?thesis using False by simp
  qed
qed

lemma parse_octet_digits: "n < 256 \<Longrightarrow> parse_octet (nat_digits n) = Some n"
  using nat_digits_lead [of n] nat_digits.simps [of 0]
  by (auto simp: parse_octet_def nat_digits_digits digits_val_nat_digits)

lemma nat_digits_no_dot: "CHR ''.'' \<notin> set (nat_digits n)"
  using nat_digits_digits [of n] by (auto simp: list_all_iff is_digit_def)

lemma nat_digits_no_slash: "CHR 0x2F \<notin> set (nat_digits n)"
  using nat_digits_digits [of n] by (auto simp: list_all_iff is_digit_def)

lemma Split_IP_String:
  "Split (IP_String [a, b, c, d]) (CHR ''.'') = map nat_digits [a, b, c, d]"
  unfolding IP_String_def by (rule Split_Join) (auto simp: nat_digits_no_dot)

theorem parse_IP_String:
  assumes "a < 256" "b < 256" "c < 256" "d < 256"
  shows "parse_ipv4 (IP_String [a, b, c, d]) = Some [a, b, c, d]"
  using assms by (simp add: parse_ipv4_def Split_IP_String parse_octet_digits)

lemma IP_String_no_slash: "CHR 0x2F \<notin> set (IP_String [a, b, c, d])"
  by (auto simp: IP_String_def nat_digits_no_slash)

lemma IP_String_graphic: "list_all graphic (IP_String [a, b, c, d])"
  by (auto simp: IP_String_def nat_digits_graphic) (simp_all add: graphic_def)

lemma IP_String_chars:
  "x \<in> set (IP_String [a, b, c, d]) \<Longrightarrow> is_digit x \<or> x = CHR ''.''"
  using nat_digits_digits by (fastforce simp: IP_String_def list_all_iff)

lemma find_skip: "list_all (\<lambda>x. \<not> P x) xs \<Longrightarrow> find P (xs @ ys) = find P ys"
  by (induction xs) auto

lemma ParseAddr_IP_String:
  assumes "a < 256" "b < 256" "c < 256" "d < 256"
  shows "ParseAddr (IP_String [a, b, c, d]) = Some (Addr4 [a, b, c, d])"
proof -
  let ?P = "\<lambda>c. c = CHR ''.'' \<or> c = CHR '':'' \<or> c = CHR ''%''"
  have "list_all (\<lambda>x. \<not> ?P x) (nat_digits a)"
    using nat_digits_digits [of a] by (auto simp: list_all_iff is_digit_def)
  then have "find ?P (IP_String [a, b, c, d]) = Some (CHR ''.'')"
    by (simp add: IP_String_def find_skip)
  then show ?thesis using parse_IP_String [OF assms] by (simp add: ParseAddr_def)
qed

theorem ParseCIDR_host:
  assumes "a < 256" "b < 256" "c < 256" "d < 256"
  shows "ParseCIDR (IP_String [a, b, c, d] @ ''/32'') = Some (As16 (Addr4 [a, b, c, d]))"
  using Cut_append [OF IP_String_no_slash, of a b c d "''32''"] ParseAddr_IP_String [OF assms]
  by (simp add: ParseCIDR_def digits_val_def is_digit_def)

lemma To4_As16: "length q = 4 \<Longrightarrow> To4 (As16 (Addr4 q)) = Some q"
  by (simp add: To4_def)

lemma parse_ipv4_length: "parse_ipv4 s = Some ip \<Longrightarrow> length ip = 4"
  by (auto simp: parse_ipv4_def split: list.splits option.splits)

section \<open>Host-port pairs\<close>

text \<open>The text before and after the last occurrence of a byte.\<close>

definition split_last :: "string \<Rightarrow> char \<Rightarrow> (string \<times> string) option" where
  "split_last s c = map_option (\<lambda>(a, b). (rev b, rev a)) (Cut (rev s) c)"

text \<open>\<^verbatim>\<open>net.SplitHostPort\<close>; every error is \<open>None\<close>.\<close>

definition SplitHostPort :: "string \<Rightarrow> (string \<times> string) option" where
  "SplitHostPort hp =
     (case split_last hp (CHR '':'') of
        None \<Rightarrow> None
      | Some (before, port) \<Rightarrow>
          if HasPrefix hp ''['' then
            (case Cut (tl hp) (CHR '']'') of
               None \<Rightarrow> None
             | Some (host, after) \<Rightarrow>
                 if after = CHR '':'' # port \<and> CHR ''['' \<notin> set (host @ after) \<and> CHR '']'' \<notin> set after
                 then Some (host, port) else None)
          else if CHR '':'' \<in> set before then None
          else if CHR ''['' \<in> set hp \<or> CHR '']'' \<in> set hp then None
          else Some (before, port))"

definition JoinHostPort :: "string \<Rightarrow> string \<Rightarrow> string" where
  "JoinHostPort host port =
     (if CHR '':'' \<in> set host then ''['' @ host @ '']:'' @ port else host @ '':'' @ port)"

lemma split_last_append: "c \<notin> set b \<Longrightarrow> split_last (a @ c # b) c = Some (a, b)"
  using Cut_append [of c "rev b" "rev a"] by (simp add: split_last_def)

lemma SplitHostPort_JoinHostPort:
  assumes "CHR '':'' \<notin> set port" "\<forall>c \<in> {CHR ''['', CHR '']''}. c \<notin> set host \<and> c \<notin> set port"
  shows "SplitHostPort (JoinHostPort host port) = Some (host, port)"
proof (cases "CHR '':'' \<in> set host")
  case True
  have s: "split_last ((''['' @ host @ '']'') @ CHR '':'' # port) (CHR '':'') = Some (''['' @ host @ '']'', port)"
    using assms(1) by (rule split_last_append)
  have c: "Cut (host @ CHR '']'' # CHR '':'' # port) (CHR '']'') = Some (host, CHR '':'' # port)"
    using assms(2) by simp
  show ?thesis using True s c assms(2) by (simp add: SplitHostPort_def JoinHostPort_def)
next
  case False
  have s: "split_last (host @ CHR '':'' # port) (CHR '':'') = Some (host, port)"
    using assms(1) by (rule split_last_append)
  have "\<not> HasPrefix (host @ CHR '':'' # port) ''[''" using assms(2) by (cases host) auto
  then show ?thesis using False s assms(2) by (auto simp: SplitHostPort_def JoinHostPort_def)
qed

end
