(* ===== verification/WG_Server.thy ===== *)
theory WG_Server
  imports WG_Config Go_Encoding Go_Net
begin

text \<open>
  \<^verbatim>\<open>internal/wg/server.go\<close>: bringing the tunnel up, and the configuration text handed to the
  embedded WireGuard device. The device, the TUN library and the commands run are not under
  \<^verbatim>\<open>src/\<close>: a run is the list of calls made to them, and their answers are a parameter
  (\<open>env_err\<close>: the error of a call, \<open>None\<close> when it succeeds).
\<close>

section \<open>Calls to the WireGuard library\<close>

datatype wg_call =
    CreateNetTUN "nat list"
  | CreateTUN string
  | TunName
  | TunClose
  | NewDevice
  | IpcSet string
  | DeviceUp
  | DeviceClose
  | RunCommand "string list"

record wg_env =
  env_GOOS :: string
  env_err :: "wg_call \<Rightarrow> string option"
  env_tun_name :: string

text \<open>\<open>srv_device\<close>, \<open>srv_tunDev\<close> and \<open>srv_Net\<close> tell whether the pointer is set.\<close>

record Server =
  srv_cfg :: Config
  srv_device :: bool
  srv_tunDev :: bool
  srv_Net :: bool

definition New_Server :: "Config option \<Rightarrow> Server result" where
  "New_Server cfg =
     (case cfg of
        None \<Rightarrow> Inl ''wg: config must not be nil''
      | Some c \<Rightarrow>
          if if_PrivateKey (cfg_Interface c) = [] then Inl ''wg: Interface.PrivateKey is required''
          else if if_Address (cfg_Interface c) = [] then Inl ''wg: Interface.Address is required''
          else Inr \<lparr>srv_cfg = c, srv_device = False, srv_tunDev = False, srv_Net = False\<rparr>)"

section \<open>The configuration text\<close>

abbreviation newline :: char where
  "newline \<equiv> CHR 0x0A"

definition validateNoNewlines :: "string \<Rightarrow> string \<Rightarrow> string option" where
  "validateNoNewlines field value =
     (if ContainsAny value [newline, CHR 0x0D]
      then Some (''wg config field '' @ field @ '' contains invalid characters'') else None)"

definition b64ToHex :: "string \<Rightarrow> string result" where
  "b64ToHex b64 =
     (case b64_decode b64 of
        None \<Rightarrow> Inl ''illegal base64 data''
      | Some raw \<Rightarrow>
          if length raw \<noteq> 32 then Inl (''WireGuard key must be 32 bytes, got '' @ Itoa (int (length raw)))
          else Inr (hex_encode raw))"

definition uapi_line :: "string \<Rightarrow> string \<Rightarrow> string" where
  "uapi_line k v = k @ ''='' @ v @ [newline]"

text \<open>The validation loop: the first error of the fields in the order of the checks.\<close>

fun first_error :: "string option list \<Rightarrow> string option" where
  "first_error [] = None"
| "first_error (None # es) = first_error es"
| "first_error (Some e # es) = Some e"

definition validate_config :: "Config \<Rightarrow> string option" where
  "validate_config cfg =
     first_error
       ([validateNoNewlines ''PrivateKey'' (if_PrivateKey (cfg_Interface cfg)),
         validateNoNewlines ''Address'' (if_Address (cfg_Interface cfg))] @
        concat (map (\<lambda>peer.
          [validateNoNewlines ''PublicKey'' (pc_PublicKey peer),
           validateNoNewlines ''Endpoint'' (pc_Endpoint peer),
           validateNoNewlines ''PreSharedKey'' (pc_PreSharedKey peer)]) (cfg_Peers cfg)))"

definition uapi_peer :: "PeerConfig \<Rightarrow> string result" where
  "uapi_peer peer =
     (case b64ToHex (pc_PublicKey peer) of
        Inl e \<Rightarrow> Inl (''peer public_key base64 decode: '' @ e)
      | Inr pubHex \<Rightarrow>
          (case (if pc_PreSharedKey peer = [] then Inr []
                 else (case b64ToHex (pc_PreSharedKey peer) of
                         Inl e \<Rightarrow> Inl (''peer preshared_key base64 decode: '' @ e)
                       | Inr pskHex \<Rightarrow> Inr (uapi_line ''preshared_key'' pskHex))) of
             Inl e \<Rightarrow> Inl e
           | Inr psk \<Rightarrow>
               Inr (uapi_line ''public_key'' pubHex @ psk @
                    ''replace_allowed_ips=true'' @ [newline] @
                    concat (map (uapi_line ''allowed_ip'') (pc_AllowedIPs peer)) @
                    (if pc_Endpoint peer = [] then [] else uapi_line ''endpoint'' (pc_Endpoint peer)) @
                    (if 0 < pc_PersistentKeepalive peer
                     then uapi_line ''persistent_keepalive_interval'' (Itoa (pc_PersistentKeepalive peer))
                     else []))))"

fun uapi_peers :: "PeerConfig list \<Rightarrow> string result" where
  "uapi_peers [] = Inr []"
| "uapi_peers (p # ps) =
     (case uapi_peer p of
        Inl e \<Rightarrow> Inl e
      | Inr s \<Rightarrow> (case uapi_peers ps of Inl e \<Rightarrow> Inl e | Inr t \<Rightarrow> Inr (s @ t)))"

definition buildUAPIConfig :: "Config \<Rightarrow> string result" where
  "buildUAPIConfig cfg =
     (case validate_config cfg of
        Some e \<Rightarrow> Inl e
      | None \<Rightarrow>
          (case b64ToHex (if_PrivateKey (cfg_Interface cfg)) of
             Inl e \<Rightarrow> Inl (''private_key base64 decode: '' @ e)
           | Inr privHex \<Rightarrow>
               (case uapi_peers (cfg_Peers cfg) of
                  Inl e \<Rightarrow> Inl e
                | Inr body \<Rightarrow>
                    Inr (uapi_line ''private_key'' privHex @
                         (if 0 < if_ListenPort (cfg_Interface cfg)
                          then uapi_line ''listen_port'' (Itoa (if_ListenPort (cfg_Interface cfg)))
                          else []) @
                         body @ [newline]))))"

section \<open>Live peers\<close>

text \<open>Result: the error, if any, and the calls made to the device.\<close>

definition AddPeer :: "wg_env \<Rightarrow> Server \<Rightarrow> string \<Rightarrow> string \<Rightarrow> string option \<times> wg_call list" where
  "AddPeer env s pubKeyB64 allowedCIDR =
     (if \<not> srv_device s then (Some ''wg: device not running'', [])
      else case validateNoNewlines ''public_key'' pubKeyB64 of
        Some e \<Rightarrow> (Some e, [])
      | None \<Rightarrow>
        (case validateNoNewlines ''allowed_ip'' allowedCIDR of
           Some e \<Rightarrow> (Some e, [])
         | None \<Rightarrow>
           (case b64ToHex pubKeyB64 of
              Inl e \<Rightarrow> (Some (''wg: public_key decode: '' @ e), [])
            | Inr pubHex \<Rightarrow>
                (let c = IpcSet (uapi_line ''public_key'' pubHex @ uapi_line ''allowed_ip'' allowedCIDR @ [newline])
                 in (env_err env c, [c])))))"

definition RemovePeer :: "wg_env \<Rightarrow> Server \<Rightarrow> string \<Rightarrow> string option \<times> wg_call list" where
  "RemovePeer env s pubKeyB64 =
     (if \<not> srv_device s then (Some ''wg: device not running'', [])
      else case validateNoNewlines ''public_key'' pubKeyB64 of
        Some e \<Rightarrow> (Some e, [])
      | None \<Rightarrow>
        (case b64ToHex pubKeyB64 of
           Inl e \<Rightarrow> (Some (''wg: public_key decode: '' @ e), [])
         | Inr pubHex \<Rightarrow>
             (let c = IpcSet (uapi_line ''public_key'' pubHex @ uapi_line ''remove'' ''true'' @ [newline])
              in (env_err env c, [c]))))"

section \<open>Start and Close\<close>

definition InterfaceIP :: "Server \<Rightarrow> string" where
  "InterfaceIP s =
     (let a = if_Address (cfg_Interface (srv_cfg s))
      in case ParseCIDR a of None \<Rightarrow> a | Some ip \<Rightarrow> IP_text ip)"

definition tunNameRe :: "string \<Rightarrow> bool" where
  "tunNameRe = matches_class name_char 1 16"

definition configureInterface :: "wg_env \<Rightarrow> Server \<Rightarrow> string \<Rightarrow> string option \<times> wg_call list" where
  "configureInterface env s tunName =
     (let addr = if_Address (cfg_Interface (srv_cfg s))
      in if env_GOOS env = ''linux'' then
           (let c1 = RunCommand [''ip'', ''addr'', ''add'', addr, ''dev'', tunName];
                c2 = RunCommand [''ip'', ''link'', ''set'', ''up'', ''dev'', tunName]
            in case env_err env c1 of
                 Some e \<Rightarrow> (Some (''ip addr add: '' @ e), [c1])
               | None \<Rightarrow>
                   (case env_err env c2 of
                      Some e \<Rightarrow> (Some (''ip link set up: '' @ e), [c1, c2])
                    | None \<Rightarrow> (None, [c1, c2])))
         else if env_GOOS env = ''darwin'' then
           (case ParseCIDR addr of
              None \<Rightarrow> (Some (''parse interface address '' @ addr), [])
            | Some ip \<Rightarrow>
                (let c = RunCommand [''ifconfig'', tunName, IP_text ip, IP_text ip,
                                     ''netmask'', ''255.255.255.0'', ''up'']
                 in case env_err env c of
                      Some e \<Rightarrow> (Some (''ifconfig: '' @ e), [c])
                    | None \<Rightarrow> (None, [c])))
         else (Some (''unsupported OS: '' @ env_GOOS env), []))"

text \<open>Configuring the new device is the same three steps in both modes.\<close>

definition configure_device :: "wg_env \<Rightarrow> Server \<Rightarrow> string option \<times> wg_call list" where
  "configure_device env s =
     (case buildUAPIConfig (srv_cfg s) of
        Inl e \<Rightarrow> (Some (''wg: build UAPI config: '' @ e), [NewDevice, DeviceClose])
      | Inr u \<Rightarrow>
          (case env_err env (IpcSet u) of
             Some e \<Rightarrow> (Some (''wg: IpcSet: '' @ e), [NewDevice, IpcSet u, DeviceClose])
           | None \<Rightarrow>
               (case env_err env DeviceUp of
                  Some e \<Rightarrow> (Some (''wg: device.Up: '' @ e), [NewDevice, IpcSet u, DeviceUp, DeviceClose])
                | None \<Rightarrow> (None, [NewDevice, IpcSet u, DeviceUp]))))"

definition startNetstack :: "wg_env \<Rightarrow> Server \<Rightarrow> string option \<times> Server \<times> wg_call list" where
  "startNetstack env s =
     (case ParseCIDR (if_Address (cfg_Interface (srv_cfg s))) of
        None \<Rightarrow> (Some ''wg: parse interface address'', s, [])
      | Some ip \<Rightarrow>
          (case To4 ip of
             None \<Rightarrow> (Some (''wg: invalid IPv4 address: '' @ IP_text ip), s, [])
           | Some addr \<Rightarrow>
               (case env_err env (CreateNetTUN addr) of
                  Some e \<Rightarrow> (Some (''wg: create netstack TUN: '' @ e), s, [CreateNetTUN addr])
                | None \<Rightarrow>
                    (let s1 = s\<lparr>srv_tunDev := True, srv_Net := True\<rparr>;
                         (err, calls) = configure_device env s1
                     in case err of
                          Some e \<Rightarrow> (Some e, s1, CreateNetTUN addr # calls)
                        | None \<Rightarrow> (None, s1\<lparr>srv_device := True\<rparr>, CreateNetTUN addr # calls)))))"

definition startTUN :: "wg_env \<Rightarrow> Server \<Rightarrow> string option \<times> Server \<times> wg_call list" where
  "startTUN env s =
     (case env_err env (CreateTUN ''wg0'') of
        Some e \<Rightarrow> (Some (''wg: create TUN device: '' @ e), s, [CreateTUN ''wg0''])
      | None \<Rightarrow>
          (let s1 = s\<lparr>srv_tunDev := True\<rparr>
           in case env_err env TunName of
                Some e \<Rightarrow> (Some (''wg: get TUN device name: '' @ e), s1, [CreateTUN ''wg0'', TunName, TunClose])
              | None \<Rightarrow>
                  if \<not> tunNameRe (env_tun_name env)
                  then (Some (''wg: unexpected TUN device name: '' @ env_tun_name env), s1,
                        [CreateTUN ''wg0'', TunName, TunClose])
                  else
                    (let (err, calls) = configure_device env s1
                     in case err of
                          Some e \<Rightarrow> (Some e, s1, [CreateTUN ''wg0'', TunName] @ calls)
                        | None \<Rightarrow>
                            (let (err, cmds) = configureInterface env s1 (env_tun_name env)
                             in case err of
                                  Some e \<Rightarrow>
                                    (Some (''wg: configure interface '' @ env_tun_name env @ '': '' @ e), s1,
                                     [CreateTUN ''wg0'', TunName] @ calls @ cmds @ [DeviceClose])
                                | None \<Rightarrow>
                                    (None, s1\<lparr>srv_device := True\<rparr>,
                                     [CreateTUN ''wg0'', TunName] @ calls @ cmds)))))"

definition Start :: "wg_env \<Rightarrow> Server \<Rightarrow> string option \<times> Server \<times> wg_call list" where
  "Start env s = (if env_GOOS env = ''darwin'' then startNetstack env s else startTUN env s)"

definition Close :: "Server \<Rightarrow> Server \<times> wg_call list" where
  "Close s = (s\<lparr>srv_device := False, srv_tunDev := False\<rparr>, if srv_device s then [DeviceClose] else [])"


section \<open>No field of a parsed configuration holds a newline\<close>

definition one_line :: "string \<Rightarrow> bool" where
  "one_line s \<longleftrightarrow> newline \<notin> set s"

definition peer_lines_ok :: "PeerConfig \<Rightarrow> bool" where
  "peer_lines_ok p \<longleftrightarrow>
     one_line (pc_PublicKey p) \<and> one_line (pc_Endpoint p) \<and> one_line (pc_PreSharedKey p) \<and>
     list_all one_line (pc_AllowedIPs p)"

definition state_lines_ok :: "parse_state \<Rightarrow> bool" where
  "state_lines_ok ps \<longleftrightarrow> list_all peer_lines_ok (all_peers ps)"

lemma set_TrimLeftSpace: "set (TrimLeftSpace s) \<subseteq> set s"
proof (induction s rule: TrimLeftSpace.induct)
  case (1 s)
  show ?case
  proof (cases "find (\<lambda>w. prefix w s) space_seqs")
    case (Some w)
    then have "set (TrimLeftSpace s) \<subseteq> set (drop (length w) s)"
      using 1 [OF Some] by (subst TrimLeftSpace.simps) simp
    then show ?thesis using set_drop_subset [of "length w" s] by blast
  qed (subst TrimLeftSpace.simps, simp)
qed

lemma set_TrimRightSpace: "set (TrimRightSpace s) \<subseteq> set s"
proof (induction s rule: TrimRightSpace.induct)
  case (1 s)
  show ?case
  proof (cases "find (\<lambda>w. suffix w s) space_seqs")
    case (Some w)
    then have "set (TrimRightSpace s) \<subseteq> set (take (length s - length w) s)"
      using 1 [OF Some] by (subst TrimRightSpace.simps) simp
    then show ?thesis using set_take_subset [of "length s - length w" s] by blast
  qed (subst TrimRightSpace.simps, simp)
qed

lemma set_TrimSpace: "set (TrimSpace s) \<subseteq> set s"
  using set_TrimLeftSpace set_TrimRightSpace by (fastforce simp: TrimSpace_def)

lemma one_line_TrimSpace: "one_line s \<Longrightarrow> one_line (TrimSpace s)"
  using set_TrimSpace by (auto simp: one_line_def)

lemma one_line_text: "one_line l \<Longrightarrow> one_line (TrimSpace (strip_comment (dropCR l)))"
proof (rule one_line_TrimSpace)
  assume l: "one_line l"
  have "set (strip_comment (dropCR l)) \<subseteq> set l"
    by (auto simp: strip_comment_def dropCR_def TrimSuffix_def split: option.splits dest!: in_set_takeD)
  then show "one_line (strip_comment (dropCR l))" using l by (auto simp: one_line_def)
qed

lemma one_line_split_allowed: "one_line v \<Longrightarrow> list_all one_line (split_allowed v)"
  using Split_piece_subset [of _ v "CHR '',''"] one_line_TrimSpace
  by (fastforce simp: split_allowed_def list_all_iff one_line_def)

lemma peer_lines_apply:
  "applyPeerKey p k v = Inr q \<Longrightarrow> peer_lines_ok p \<Longrightarrow> one_line v \<Longrightarrow> peer_lines_ok q"
  using one_line_split_allowed [of v]
  by (auto simp: applyPeerKey_def peer_lines_ok_def Let_def split: if_splits option.splits)

lemma peer_lines_empty: "peer_lines_ok empty_peer"
  by (simp add: peer_lines_ok_def empty_peer_def one_line_def)

lemma state_lines_header: "parse_header h ps = Inr ps' \<Longrightarrow> state_lines_ok ps \<Longrightarrow> state_lines_ok ps'"
  by (auto simp: parse_header_def state_lines_ok_def Let_def peer_lines_empty
      all_peers_def [of "_\<lparr>ps_current := _\<rparr>"] all_peers_def [of "_\<lparr>ps_section := _\<rparr>"] split: if_splits)

lemma state_lines_key:
  "parse_key n k v ps = Inr ps' \<Longrightarrow> state_lines_ok ps \<Longrightarrow> one_line v \<Longrightarrow> state_lines_ok ps'"
  by (auto simp: parse_key_def state_lines_ok_def all_peers_def peer_lines_empty Let_def
      dest: peer_lines_apply split: sect.splits sum.splits option.splits)

lemma state_lines_line:
  assumes "parse_line n (dropCR l) ps = Inr ps'" "state_lines_ok ps" "one_line l"
  shows "state_lines_ok ps'"
proof -
  let ?t = "TrimSpace (strip_comment (dropCR l))"
  have "Cut ?t c = Some (k, v) \<Longrightarrow> one_line (TrimSpace v)" for c k v
    using one_line_text [OF assms(3)] by (intro one_line_TrimSpace) (auto simp: Cut_Some_iff one_line_def)
  then show ?thesis
    using assms(1,2)
    by (auto simp: parse_line_def Let_def intro: state_lines_header state_lines_key
        split: if_splits option.splits prod.splits)
qed

lemma state_lines_lines:
  "parse_lines n ls ps = Inr ps' \<Longrightarrow> state_lines_ok ps \<Longrightarrow> list_all one_line ls \<Longrightarrow> state_lines_ok ps'"
proof (induction ls arbitrary: n ps)
  case (Cons l ls)
  then show ?case by (auto split: if_splits sum.splits intro: state_lines_line)
qed simp

lemma parsed_peers_one_line:
  assumes "ParseString s = Inr cfg"
  shows "list_all peer_lines_ok (cfg_Peers cfg)"
proof -
  obtain ps where ps: "parse_lines 0 (Split s newline) init_state = Inr ps" "cfg = ps_cfg (commit ps)"
    using assms unfolding ParseString_Inr_iff parse_lines_Split [symmetric] by blast
  have "list_all one_line (Split s newline)"
    using Split_pieces by (auto simp: list_all_iff one_line_def)
  moreover have "state_lines_ok init_state"
    by (simp add: state_lines_ok_def all_peers_def init_state_def empty_config_def)
  ultimately show ?thesis
    using state_lines_lines [OF ps(1)] ps(2) by (simp add: state_lines_ok_def)
qed

section \<open>The configuration text is exactly the entries of the configuration\<close>

definition key_hex :: "string \<Rightarrow> string" where
  "key_hex k = (case b64ToHex k of Inl e \<Rightarrow> [] | Inr h \<Rightarrow> h)"

definition peer_entries :: "PeerConfig \<Rightarrow> (string \<times> string) list" where
  "peer_entries p =
     [(''public_key'', key_hex (pc_PublicKey p))] @
     (if pc_PreSharedKey p = [] then [] else [(''preshared_key'', key_hex (pc_PreSharedKey p))]) @
     [(''replace_allowed_ips'', ''true'')] @
     map (Pair ''allowed_ip'') (pc_AllowedIPs p) @
     (if pc_Endpoint p = [] then [] else [(''endpoint'', pc_Endpoint p)]) @
     (if 0 < pc_PersistentKeepalive p
      then [(''persistent_keepalive_interval'', Itoa (pc_PersistentKeepalive p))] else [])"

definition uapi_entries :: "Config \<Rightarrow> (string \<times> string) list" where
  "uapi_entries cfg =
     [(''private_key'', key_hex (if_PrivateKey (cfg_Interface cfg)))] @
     (if 0 < if_ListenPort (cfg_Interface cfg)
      then [(''listen_port'', Itoa (if_ListenPort (cfg_Interface cfg)))] else []) @
     concat (map peer_entries (cfg_Peers cfg))"

definition entry_text :: "string \<times> string \<Rightarrow> string" where
  "entry_text e = fst e @ ''='' @ snd e"

definition entries_text :: "(string \<times> string) list \<Rightarrow> string" where
  "entries_text es = concat (map (\<lambda>e. entry_text e @ [newline]) es)"

lemma entries_text_simps [simp]:
  "entries_text [] = []" "entries_text (e # es) = entry_text e @ newline # entries_text es"
  "entries_text (es @ fs) = entries_text es @ entries_text fs"
  by (simp_all add: entries_text_def)

lemma uapi_line_entry: "uapi_line k v = entries_text [(k, v)]"
  by (simp add: uapi_line_def entry_text_def)

lemma concat_allowed: "concat (map (uapi_line k) vs) = entries_text (map (Pair k) vs)"
  by (induction vs) (simp_all add: uapi_line_entry)

lemma uapi_peer_text: "uapi_peer p = Inr u \<Longrightarrow> u = entries_text (peer_entries p)"
  by (auto simp: uapi_peer_def peer_entries_def key_hex_def uapi_line_entry concat_allowed entry_text_def
      split: sum.splits if_splits)

lemma uapi_peers_text: "uapi_peers ps = Inr u \<Longrightarrow> u = entries_text (concat (map peer_entries ps))"
  by (induction ps arbitrary: u) (auto split: sum.splits dest: uapi_peer_text)

lemma buildUAPIConfig_text: "buildUAPIConfig cfg = Inr u \<Longrightarrow> u = entries_text (uapi_entries cfg) @ [newline]"
  by (auto simp: buildUAPIConfig_def uapi_entries_def uapi_line_entry key_hex_def
      split: option.splits sum.splits dest: uapi_peers_text)

lemma Split_entries:
  "list_all (\<lambda>e. one_line (entry_text e)) es \<Longrightarrow>
     Split (entries_text es @ [newline]) newline = map entry_text es @ [[], []]"
proof (induction es)
  case (Cons e es)
  then show ?case
    using Split_append_sep [of "entry_text e" newline "entries_text es @ [newline]"]
    by (simp add: one_line_def)
qed simp

lemma hex_digit_not_newline: "n < 16 \<Longrightarrow> hex_digit n \<noteq> newline"
proof
  assume n: "n < 16" and "hex_digit n = newline"
  then have "byte (hex_digit n) = 10" by simp
  moreover have "byte (hex_digit n) = (if n < 10 then 48 + n else 87 + n)"
    using n byte_char_of [of "48 + n"] byte_char_of [of "87 + n"] by (simp only: hex_digit_def) simp
  ultimately show False using n by (simp split: if_splits)
qed

lemma hex_one_line: "one_line (hex_encode s)"
proof -
  have "byte c div 16 < 16" for c
    using byte_less [of c] by (intro less_mult_imp_div_less) simp
  then have "newline \<noteq> hex_digit (byte c div 16)" "newline \<noteq> hex_digit (byte c mod 16)" for c
    using hex_digit_not_newline [of "byte c div 16"] hex_digit_not_newline [of "byte c mod 16"] by auto
  then show ?thesis by (simp add: one_line_def hex_encode_def)
qed

lemma key_hex_one_line: "one_line (key_hex k)"
  using hex_one_line
  by (auto simp: key_hex_def b64ToHex_def one_line_def split: sum.splits option.splits if_splits)

lemma Itoa_one_line: "0 < i \<Longrightarrow> one_line (Itoa i)"
  using Itoa_graphic [of i] by (auto simp: one_line_def list_all_iff graphic_def)

lemma entry_one_line: "newline \<notin> set k \<Longrightarrow> one_line v \<Longrightarrow> one_line (entry_text (k, v))"
  by (simp add: one_line_def entry_text_def)

lemma peer_entries_one_line:
  "peer_lines_ok p \<Longrightarrow> list_all (\<lambda>e. one_line (entry_text e)) (peer_entries p)"
  unfolding peer_entries_def peer_lines_ok_def
  by (auto simp: list_all_iff intro!: entry_one_line key_hex_one_line Itoa_one_line)
     (auto simp: one_line_def)

lemma uapi_entries_one_line:
  assumes "list_all peer_lines_ok (cfg_Peers cfg)"
  shows "list_all (\<lambda>e. one_line (entry_text e)) (uapi_entries cfg)"
proof -
  have "list_all (\<lambda>e. one_line (entry_text e)) (concat (map peer_entries (cfg_Peers cfg)))"
    using assms peer_entries_one_line by (fastforce simp: list_all_iff)
  then show ?thesis
    unfolding uapi_entries_def
    by (auto intro!: entry_one_line key_hex_one_line Itoa_one_line)
qed

section \<open>Properties\<close>

text \<open>
  C6: no injection into the device configuration. For every configuration file that parses and
  whose keys decode, the text handed to the WireGuard device consists of exactly the lines for
  the keys, addresses and options of that configuration, and the closing blank line: no field of
  the file can add a line of its own.
\<close>

theorem uapi_exact_lines:
  assumes "ParseString s = Inr cfg" "buildUAPIConfig cfg = Inr u"
  shows "Split u newline = map entry_text (uapi_entries cfg) @ [[], []]"
  using buildUAPIConfig_text [OF assms(2)] Split_entries
    uapi_entries_one_line [OF parsed_peers_one_line [OF assms(1)]]
  by simp

theorem uapi_exact_lines_witness:
  "\<exists>s cfg u. ParseString s = Inr cfg \<and> buildUAPIConfig cfg = Inr u \<and>
     Split u newline = map entry_text (uapi_entries cfg) @ [[], []]"
proof -
  let ?k = "''a2tra2tra2tra2tra2tra2tra2tra2tra2tra2tra2s=''"
  let ?s = "''[Interface]'' @ newline # ''PrivateKey='' @ ?k"
  let ?cfg = "empty_config\<lparr>cfg_Interface := \<lparr>if_PrivateKey = ?k, if_Address = [], if_ListenPort = 0\<rparr>\<rparr>"
  have l: "raw_lines ?s = [''[Interface]'', ''PrivateKey='' @ ?k]"
    by code_simp
  have 1: "parse_line 1 ''[Interface]'' init_state = Inr (init_state\<lparr>ps_section := InInterface\<rparr>)"
    by code_simp
  have 2: "parse_line 2 (''PrivateKey='' @ ?k) (init_state\<lparr>ps_section := InInterface\<rparr>) =
      Inr \<lparr>ps_cfg = ?cfg, ps_section = InInterface, ps_current = None\<rparr>"
    by code_simp
  have "CHR 0x0D \<notin> set (''PrivateKey='' @ ?k)" "length (''PrivateKey='' @ ?k) = 55"
    by code_simp+
  then have "ParseString ?s = Inr ?cfg"
    unfolding ParseString_def l
    using 1 2 by (simp add: maxTokenSize_def dropCR_no_CR finish_def commit_def empty_config_def numeral_2_eq_2)
  moreover have "buildUAPIConfig ?cfg = Inr (uapi_line ''private_key'' ''6b6b6b6b6b6b6b6b6b6b6b6b6b6b6b6b6b6b6b6b6b6b6b6b6b6b6b6b6b6b6b6b'' @ [newline])"
    by code_simp
  ultimately show ?thesis using uapi_exact_lines by blast
qed

lemma configure_device_calls:
  "configure_device env s = (err, calls) \<Longrightarrow>
     count_list calls NewDevice = 1 \<and> count_list calls DeviceClose = (if err = None then 0 else 1)"
  by (auto simp: configure_device_def split: sum.splits option.splits)

lemma configureInterface_calls:
  "configureInterface env s n = (err, calls) \<Longrightarrow>
     count_list calls NewDevice = 0 \<and> count_list calls DeviceClose = 0"
  by (auto simp: configureInterface_def Let_def split: if_splits option.splits)

definition balanced_start :: "string option \<times> Server \<times> wg_call list \<Rightarrow> bool" where
  "balanced_start r \<longleftrightarrow>
     (case r of (err, s', calls) \<Rightarrow>
        (srv_device s' \<longleftrightarrow> err = None) \<and> count_list calls NewDevice \<le> 1 \<and>
        count_list calls NewDevice = count_list calls DeviceClose + (if err = None then 1 else 0))"

lemma startNetstack_balanced: "\<not> srv_device s \<Longrightarrow> balanced_start (startNetstack env s)"
  using configure_device_calls [of env "s\<lparr>srv_tunDev := True, srv_Net := True\<rparr>"]
  by (auto simp: startNetstack_def balanced_start_def Let_def split: option.splits prod.splits)

lemma startTUN_balanced:
  assumes "\<not> srv_device s"
  shows "balanced_start (startTUN env s)"
proof -
  let ?s = "s\<lparr>srv_tunDev := True\<rparr>"
  obtain e1 c1 where 1: "configure_device env ?s = (e1, c1)" by force
  obtain e2 c2 where 2: "configureInterface env ?s (env_tun_name env) = (e2, c2)" by force
  show ?thesis
    using assms configure_device_calls [OF 1] configureInterface_calls [OF 2]
    by (auto simp: startTUN_def balanced_start_def Let_def 1 2 split: option.splits)
qed

text \<open>
  C15: no device is leaked. Starting a server that is not running, whatever the library and the
  commands answer, and then closing it leaves every device that was created closed exactly once;
  and a failed start leaves the server stopped.
\<close>

theorem Start_Close_balanced:
  assumes "\<not> srv_device s" "Start env s = (err, s', calls)" "Close s' = (s'', closing)"
  shows "count_list (calls @ closing) NewDevice = count_list (calls @ closing) DeviceClose \<and>
         count_list calls NewDevice \<le> 1 \<and> (srv_device s' \<longleftrightarrow> err = None) \<and> \<not> srv_device s''"
proof -
  have "balanced_start (Start env s)"
    using assms(1) startNetstack_balanced startTUN_balanced by (simp add: Start_def)
  then show ?thesis
    using assms(2,3) by (auto simp: balanced_start_def Close_def split: if_splits)
qed

definition sample_server :: Server where
  "sample_server =
     \<lparr>srv_cfg = empty_config\<lparr>cfg_Interface := \<lparr>if_PrivateKey = ''a2tra2tra2tra2tra2tra2tra2tra2tra2tra2tra2s='',
        if_Address = ''10.100.0.1/24'', if_ListenPort = 0\<rparr>\<rparr>,
      srv_device = False, srv_tunDev = False, srv_Net = False\<rparr>"

text \<open>The command that assigns the address fails: the device is closed on the way out.\<close>

theorem Start_Close_balanced_witness:
  "let env = \<lparr>env_GOOS = ''linux'',
              env_err = (\<lambda>c. case c of RunCommand _ \<Rightarrow> Some ''exit status 2'' | _ \<Rightarrow> None),
              env_tun_name = ''wg0''\<rparr>;
       (err, s', calls) = Start env sample_server; (s'', closing) = Close s'
   in count_list (calls @ closing) NewDevice = 1 \<and> count_list (calls @ closing) DeviceClose = 1 \<and>
      err \<noteq> None \<and> \<not> srv_device s''"
proof -
  let ?env = "\<lparr>env_GOOS = ''linux'',
              env_err = (\<lambda>c. case c of RunCommand _ \<Rightarrow> Some ''exit status 2'' | _ \<Rightarrow> None),
              env_tun_name = ''wg0''\<rparr>"
  obtain err s' calls where r: "Start ?env sample_server = (err, s', calls)" by (metis prod_cases3)
  obtain s'' closing where c: "Close s' = (s'', closing)" by force
  have "\<not> srv_device sample_server" by code_simp
  note main = Start_Close_balanced [OF this r c]
  have "case Start ?env sample_server of (err, s', calls) \<Rightarrow>
      err \<noteq> None \<and> count_list (calls @ snd (Close s')) NewDevice = 1"
    by code_simp
  then show ?thesis using main r c by simp
qed

end
