(* ===== verification/Peers.thy ===== *)
theory Peers
  imports WG_Server Interfaces
begin

unbundle bit_operations_syntax

text \<open>
  \<^verbatim>\<open>internal/peers/peers.go\<close>: adding, listing and revoking WireGuard peers, both in the
  configuration file and on the live interface. The state is the text of \<^verbatim>\<open>wg0.conf\<close> and of
  its temporary sibling; the calls to the live device are returned as a list. What the
  operating system, the device and the curve answer is a parameter.
\<close>

section \<open>Data\<close>

definition maxPeers :: nat where
  "maxPeers = 10"

definition peerNameRegex :: "string \<Rightarrow> bool" where
  "peerNameRegex = matches_class name_char 1 64"

record Peer =
  pr_Index :: nat
  pr_Name :: string
  pr_PublicKey :: string
  pr_IP :: string

datatype json_value = JStr string | JNum int

record AddResult =
  ar_Peer :: Peer
  ar_QRPayload :: "(string \<times> json_value) list"

text \<open>The interface to the live tunnel.\<close>

datatype live_call = LiveAdd string string | LiveRemove string

record Manager =
  mg_confPath :: string
  mg_iface :: string
  mg_serverIP :: string
  mg_publicIP :: string
  mg_authToken :: string
  mg_serverPort :: int
  mg_device :: bool

definition NewManager :: "string \<Rightarrow> string \<Rightarrow> string \<Rightarrow> bool \<Rightarrow> Manager" where
  "NewManager confPath publicIP authToken device =
     \<lparr>mg_confPath = confPath, mg_iface = ''wg0'', mg_serverIP = ''10.100.0.1'',
      mg_publicIP = publicIP, mg_authToken = authToken, mg_serverPort = 51820, mg_device = device\<rparr>"

text \<open>
  The answers of the environment during one operation: the device's errors, 32 random bytes or
  an error, the base-point multiplication, the errors of opening, of appending (with the number
  of bytes that reached the file), of writing the temporary file and of renaming it.
\<close>

record peer_env =
  pe_live :: "live_call \<Rightarrow> string option"
  pe_rand :: "string result"
  pe_base_mult :: "string \<Rightarrow> string"
  pe_open :: "string option"
  pe_append :: "(nat \<times> string) option"
  pe_tmp :: "(nat \<times> string) option"
  pe_rename :: "string option"
  pe_hostname :: "string option"

record conf_fs =
  fs_conf :: "string option"
  fs_tmp :: "string option"

section \<open>Sections of the file\<close>

definition is_peer_line :: "string \<Rightarrow> bool" where
  "is_peer_line line = HasPrefix (ToLower (TrimSpace line)) ''[peer]''"

fun split_loop :: "string list \<Rightarrow> string list \<Rightarrow> string \<Rightarrow> bool \<Rightarrow> string list" where
  "split_loop [] parts current first = (if current \<noteq> [] then parts @ [current] else parts)"
| "split_loop (line # ls) parts current first =
     (if is_peer_line line \<and> \<not> first
      then split_loop ls (parts @ [current]) (line @ [newline]) False
      else split_loop ls parts (current @ line @ [newline]) False)"

definition splitSections :: "string \<Rightarrow> string list" where
  "splitSections content = split_loop (Split content newline) [] [] True"

definition peer_line_name :: "string \<Rightarrow> string" where
  "peer_line_name line =
     (let rest = TrimSpace (drop (length ''[Peer]'') (TrimSpace line))
      in case Index rest ''#'' of None \<Rightarrow> [] | Some idx \<Rightarrow> TrimSpace (drop (idx + 1) rest))"

definition readPeerNames :: "string \<Rightarrow> string list" where
  "readPeerNames content = map peer_line_name (filter is_peer_line (Split content newline))"

section \<open>Addresses and keys\<close>

definition used_octets :: "Config \<Rightarrow> nat list" where
  "used_octets cfg =
     1 # concat (map (\<lambda>p. concat (map (\<lambda>cidr. case Option.bind (ParseCIDR cidr) To4 of None \<Rightarrow> [] | Some q \<Rightarrow> [q ! 3])
                              (pc_AllowedIPs p))) (cfg_Peers cfg))"

definition nextAvailableOctet :: "Config \<Rightarrow> nat" where
  "nextAvailableOctet cfg =
     (case find (\<lambda>i. i \<notin> set (used_octets cfg)) [2..<255] of None \<Rightarrow> 254 | Some i \<Rightarrow> i)"

definition clamp :: "string \<Rightarrow> string" where
  "clamp priv =
     (let p1 = priv[0 := char_of (byte (priv ! 0) AND 248)]
      in p1[31 := char_of ((byte (p1 ! 31) AND 127) OR 64)])"

definition generateKeyPair :: "peer_env \<Rightarrow> (string \<times> string) result" where
  "generateKeyPair env =
     (case pe_rand env of
        Inl e \<Rightarrow> Inl e
      | Inr bytes \<Rightarrow>
          (let priv = clamp bytes in Inr (b64_encode priv, b64_encode (pe_base_mult env priv))))"

definition serverPublicKey :: "peer_env \<Rightarrow> Config \<Rightarrow> string result" where
  "serverPublicKey env cfg =
     (case b64_decode (if_PrivateKey (cfg_Interface cfg)) of
        None \<Rightarrow> Inl ''illegal base64 data''
      | Some priv \<Rightarrow>
          if length priv \<noteq> 32 then Inl ''invalid private key length''
          else Inr (b64_encode (pe_base_mult env priv)))"

definition hostname :: "peer_env \<Rightarrow> string" where
  "hostname env = (case pe_hostname env of None \<Rightarrow> ''continuum-server'' | Some h \<Rightarrow> h)"

section \<open>The file\<close>

definition peer_block :: "string \<Rightarrow> string \<Rightarrow> string \<Rightarrow> string" where
  "peer_block name pubKey clientIP =
     [newline] @ ''[Peer]  # '' @ name @ [newline] @ ''PublicKey = '' @ pubKey @ [newline] @
     ''AllowedIPs = '' @ clientIP @ ''/32'' @ [newline]"

definition appendPeer :: "peer_env \<Rightarrow> string \<Rightarrow> string \<Rightarrow> string \<Rightarrow> conf_fs \<Rightarrow> string option \<times> conf_fs" where
  "appendPeer env name pubKey clientIP fs =
     (case (pe_open env, fs_conf fs) of
        (Some e, _) \<Rightarrow> (Some e, fs)
      | (None, None) \<Rightarrow> (Some ''no such file'', fs)
      | (None, Some s) \<Rightarrow>
          (let block = peer_block name pubKey clientIP
           in case pe_append env of
                Some (n, e) \<Rightarrow> (Some e, fs\<lparr>fs_conf := Some (s @ take n block)\<rparr>)
              | None \<Rightarrow> (None, fs\<lparr>fs_conf := Some (s @ block)\<rparr>)))"

definition rewriteWithout :: "peer_env \<Rightarrow> nat \<Rightarrow> conf_fs \<Rightarrow> string option \<times> conf_fs" where
  "rewriteWithout env removeIdx fs =
     (case fs_conf fs of
        None \<Rightarrow> (Some ''no such file'', fs)
      | Some content \<Rightarrow>
          (let parts = splitSections content
           in if length parts \<le> removeIdx + 1 then (Some ''peer index out of range in file'', fs)
              else
                (let peerIdx = removeIdx + 1;
                     out = concat (take peerIdx parts @ drop (peerIdx + 1) parts)
                 in case pe_tmp env of
                      Some (n, e) \<Rightarrow> (Some e, fs\<lparr>fs_tmp := Some (take n out)\<rparr>)
                    | None \<Rightarrow>
                        (case pe_rename env of
                           Some e \<Rightarrow> (Some e, fs\<lparr>fs_tmp := Some out\<rparr>)
                         | None \<Rightarrow> (None, fs\<lparr>fs_conf := Some out, fs_tmp := None\<rparr>)))))"

section \<open>Operations of the manager\<close>

definition list_entry :: "string list \<Rightarrow> nat \<Rightarrow> PeerConfig \<Rightarrow> Peer" where
  "list_entry names i p =
     (let ip = (case pc_AllowedIPs p of [] \<Rightarrow> [] | a # _ \<Rightarrow> TrimSuffix a ''/32'');
          name = (if i < length names then names ! i else []);
          name = (if name = [] then ''device-'' @ Itoa (int (i + 1)) else name)
      in \<lparr>pr_Index = i + 1, pr_Name = name, pr_PublicKey = pc_PublicKey p, pr_IP = ip\<rparr>)"

definition List :: "Manager \<Rightarrow> conf_fs \<Rightarrow> Peer list result" where
  "List mgr fs =
     (case ParseFile (mg_confPath mgr) (fs_conf fs) of
        Inl e \<Rightarrow> Inl (''parse config: '' @ e)
      | Inr cfg \<Rightarrow>
          (let names = (case fs_conf fs of None \<Rightarrow> [] | Some s \<Rightarrow> readPeerNames s)
           in Inr (map (\<lambda>(i, p). list_entry names i p) (enumerate 0 (cfg_Peers cfg)))))"

definition live :: "peer_env \<Rightarrow> Manager \<Rightarrow> live_call \<Rightarrow> string option \<times> live_call list" where
  "live env mgr c = (if mg_device mgr then (pe_live env c, [c]) else (None, []))"

definition qr_payload :: "peer_env \<Rightarrow> Manager \<Rightarrow> string \<Rightarrow> string \<Rightarrow> string \<Rightarrow> (string \<times> json_value) list" where
  "qr_payload env mgr serverPubKey privKey clientIP =
     [(''v'', JNum 1),
      (''serverName'', JStr (hostname env)),
      (''serverPublicIP'', JStr (mg_publicIP mgr)),
      (''wgServerEndpoint'', JStr (mg_publicIP mgr @ '':'' @ Itoa (mg_serverPort mgr))),
      (''wgServerPublicKey'', JStr serverPubKey),
      (''wgClientPrivateKey'', JStr privKey),
      (''wgClientAddress'', JStr (clientIP @ ''/24'')),
      (''wgDNS'', JStr ''1.1.1.1''),
      (''wgKeepalive'', JNum 25),
      (''authToken'', JStr (mg_authToken mgr)),
      (''ttydPort'', JNum 7681),
      (''relayPort'', JNum 7682)]"

definition client_ip :: "nat \<Rightarrow> string" where
  "client_ip octet = ''10.100.0.'' @ nat_digits octet"

definition Add :: "peer_env \<Rightarrow> Manager \<Rightarrow> string \<Rightarrow> conf_fs \<Rightarrow> AddResult result \<times> conf_fs \<times> live_call list" where
  "Add env mgr name fs =
     (if \<not> peerNameRegex name
      then (Inl ''invalid peer name: must match ^[a-zA-Z0-9_-]{1,64}$'', fs, [])
      else case ParseFile (mg_confPath mgr) (fs_conf fs) of
        Inl e \<Rightarrow> (Inl (''parse config: '' @ e), fs, [])
      | Inr cfg \<Rightarrow>
        if maxPeers \<le> length (cfg_Peers cfg)
        then (Inl (''maximum peer count reached ('' @ Itoa (int maxPeers) @ '')''), fs, [])
        else
          (let clientIP = client_ip (nextAvailableOctet cfg)
           in case generateKeyPair env of
                Inl e \<Rightarrow> (Inl (''generate keys: '' @ e), fs, [])
              | Inr (privKey, pubKey) \<Rightarrow>
                (let (err, calls) = live env mgr (LiveAdd pubKey (clientIP @ ''/32''))
                 in case err of
                      Some e \<Rightarrow> (Inl (''apply peer to live interface: '' @ e), fs, calls)
                    | None \<Rightarrow>
                      (let (err, fs1) = appendPeer env name pubKey clientIP fs
                       in case err of
                            Some e \<Rightarrow>
                              (let (_, undo) = live env mgr (LiveRemove pubKey)
                               in (Inl (''write config: '' @ e), fs1, calls @ undo))
                          | None \<Rightarrow>
                            (case serverPublicKey env cfg of
                               Inl e \<Rightarrow> (Inl (''derive server pubkey: '' @ e), fs1, calls)
                             | Inr serverPubKey \<Rightarrow>
                                 (Inr \<lparr>ar_Peer = \<lparr>pr_Index = length (cfg_Peers cfg) + 1, pr_Name = name,
                                                   pr_PublicKey = pubKey, pr_IP = clientIP\<rparr>,
                                       ar_QRPayload = qr_payload env mgr serverPubKey privKey clientIP\<rparr>,
                                  fs1, calls))))))"

definition Remove :: "peer_env \<Rightarrow> Manager \<Rightarrow> int \<Rightarrow> conf_fs \<Rightarrow> string option \<times> conf_fs \<times> live_call list" where
  "Remove env mgr index fs =
     (case ParseFile (mg_confPath mgr) (fs_conf fs) of
        Inl e \<Rightarrow> (Some (''parse config: '' @ e), fs, [])
      | Inr cfg \<Rightarrow>
        if index < 1 \<or> int (length (cfg_Peers cfg)) < index
        then (Some (''peer index '' @ Itoa index @ '' out of range (1-'' @
                    Itoa (int (length (cfg_Peers cfg))) @ '')''), fs, [])
        else
          (let peer = cfg_Peers cfg ! nat (index - 1);
               (err, calls) = live env mgr (LiveRemove (pc_PublicKey peer))
           in case err of
                Some e \<Rightarrow> (Some (''revoke peer on live interface: '' @ e), fs, calls)
              | None \<Rightarrow>
                (let (err, fs1) = rewriteWithout env (nat (index - 1)) fs
                 in case err of
                      Some e \<Rightarrow>
                        (Some (''rewrite config (peer revoked live but conf inconsistent): '' @ e), fs1, calls)
                    | None \<Rightarrow> (None, fs1, calls))))"


section \<open>The structure of a file\<close>

text \<open>
  A file is canonical when the splitter and the parser agree on where peers begin: the first line
  is not a peer header and after the first peer header there is no header of another kind. The
  files the manager writes, and ordinary \<^verbatim>\<open>wg0.conf\<close> files, are canonical.
\<close>

fun blocks_of :: "string list \<Rightarrow> string list \<times> block list" where
  "blocks_of [] = ([], [])"
| "blocks_of (l # ls) =
     (let (pre, bs) = blocks_of ls in if peer_header l then ([], (l, pre) # bs) else (l # pre, bs))"

definition pre_ok :: "string list \<Rightarrow> bool" where
  "pre_ok pre \<longleftrightarrow> pre \<noteq> [] \<and> list_all (\<lambda>l. \<not> is_peer_line l \<and> \<not> peer_header l) pre"

definition good_block :: "block \<Rightarrow> bool" where
  "good_block b \<longleftrightarrow> wf_block b \<and> is_peer_line (fst b) \<and> list_all (\<lambda>l. \<not> is_peer_line l) (snd b)"

definition canonical :: "string \<Rightarrow> bool" where
  "canonical s \<longleftrightarrow> (case blocks_of (Split s newline) of (pre, bs) \<Rightarrow> pre_ok pre \<and> list_all good_block bs)"

lemma blocks_of_flat: "blocks_of ls = (pre, bs) \<Longrightarrow> ls = pre @ flat bs"
  by (induction ls arbitrary: pre bs) (auto simp: block_lines_def split: prod.splits if_splits)

lemma blocks_of_pre: "list_all (\<lambda>l. \<not> peer_header l) pre \<Longrightarrow> blocks_of ls = ([], bs) \<Longrightarrow> blocks_of (pre @ ls) = (pre, bs)"
  by (induction pre) auto

lemma blocks_of_blocks: "list_all wf_block bs \<Longrightarrow> blocks_of (flat bs) = ([], bs)"
proof (induction bs)
  case (Cons b bs)
  have "list_all (\<lambda>l. \<not> peer_header l) (snd b)"
    using Cons.prems by (auto simp: wf_block_def list_all_iff plain_line_def peer_header_def)
  then show ?case
    using Cons blocks_of_pre [of "snd b" "flat bs" bs]
    by (simp add: block_lines_def wf_block_def)
qed simp

lemma canonicalI:
  assumes "Split s newline = pre @ flat bs" "pre_ok pre" "list_all good_block bs"
  shows "canonical s"
proof -
  have "list_all wf_block bs" using assms(3) by (auto simp: good_block_def list_all_iff)
  then have "blocks_of (Split s newline) = (pre, bs)"
    using assms(1,2) by (auto simp: pre_ok_def list_all_iff intro!: blocks_of_pre blocks_of_blocks)
  then show ?thesis using assms(2,3) by (simp add: canonical_def)
qed

lemma canonicalE:
  assumes "canonical s"
  obtains pre bs where "Split s newline = pre @ flat bs" "pre_ok pre" "list_all good_block bs"
  using assms blocks_of_flat [of "Split s newline"] by (auto simp: canonical_def split: prod.splits)

lemma good_blocks_wf: "list_all good_block bs \<Longrightarrow> list_all wf_block bs"
  by (auto simp: good_block_def list_all_iff)

definition unlines :: "string list \<Rightarrow> string" where
  "unlines ls = concat (map (\<lambda>l. l @ [newline]) ls)"

lemma unlines_simps [simp]: "unlines [] = []" "unlines (l # ls) = l @ newline # unlines ls" "unlines (xs @ ys) = unlines xs @ unlines ys"
  by (simp_all add: unlines_def)

lemma Split_unlines: "list_all one_line ls \<Longrightarrow> Split (unlines ls) newline = ls @ [[]]"
proof (induction ls)
  case (Cons l ls)
  then show ?case using Split_append_sep [of l newline "unlines ls"] by (simp add: one_line_def)
qed simp

lemma split_loop_body:
  "list_all (\<lambda>l. \<not> is_peer_line l) ls \<Longrightarrow>
     split_loop (ls @ rest) parts cur False = split_loop rest parts (cur @ unlines ls) False"
  by (induction ls arbitrary: cur) simp_all

lemma split_loop_blocks:
  "list_all good_block bs \<Longrightarrow> cur \<noteq> [] \<Longrightarrow>
     split_loop (flat bs) parts cur False = parts @ cur # map (\<lambda>b. unlines (block_lines b)) bs"
proof (induction bs arbitrary: parts cur)
  case (Cons b bs)
  then have "good_block b" "list_all good_block bs" by simp_all
  then have "is_peer_line (fst b)" "list_all (\<lambda>l. \<not> is_peer_line l) (snd b)" "list_all good_block bs"
    by (simp_all add: good_block_def)
  then show ?case
    using Cons.IH [of "fst b @ newline # unlines (snd b)" "parts @ [cur]"]
    by (simp add: block_lines_def split_loop_body)
qed simp

lemma splitSections_canonical:
  assumes "Split s newline = pre @ flat bs" "pre_ok pre" "list_all good_block bs"
  shows "splitSections s = unlines pre # map (\<lambda>b. unlines (block_lines b)) bs"
proof -
  obtain l ls where pre: "pre = l # ls" using assms(2) by (cases pre) (auto simp: pre_ok_def)
  then have "\<not> is_peer_line l" "list_all (\<lambda>l. \<not> is_peer_line l) ls"
    using assms(2) by (auto simp: pre_ok_def list_all_iff)
  then show ?thesis
    using assms(1,3) by (simp add: splitSections_def pre split_loop_body split_loop_blocks)
qed

text \<open>The lines before the first peer header define no peer.\<close>

lemma parse_line_no_peer:
  assumes "parse_line n (dropCR l) ps = Inr ps'" "\<not> peer_header l"
    "all_peers ps = []" "ps_section ps \<noteq> InPeer"
  shows "all_peers ps' = [] \<and> ps_section ps' \<noteq> InPeer"
proof (cases "is_header (text_of l)")
  case True
  then have "header_name (text_of l) \<noteq> ''peer''" "text_of l \<noteq> []"
    using assms(2) by (auto simp: peer_header_def is_header_def)
  then show ?thesis
    using assms True
    by (auto simp: parse_line_def text_of_def [symmetric] parse_header_def Let_def
        all_peers_def [of "_\<lparr>ps_section := _\<rparr>"] split: if_splits)
next
  case False
  then show ?thesis
    using assms
    by (auto simp: parse_line_def text_of_def [symmetric] parse_key_def all_peers_def Let_def
        split: if_splits option.splits sect.splits sum.splits prod.splits)
qed

lemma parse_lines_no_peer:
  "parse_lines n ls ps = Inr ps' \<Longrightarrow> list_all (\<lambda>l. \<not> peer_header l) ls \<Longrightarrow>
     all_peers ps = [] \<Longrightarrow> ps_section ps \<noteq> InPeer \<Longrightarrow> all_peers ps' = []"
proof (induction ls arbitrary: n ps)
  case (Cons l ls)
  then show ?case using parse_line_no_peer by (auto split: if_splits sum.splits)
qed simp

lemma canonical_parse:
  assumes "Split s newline = pre @ flat bs" "pre_ok pre" "list_all good_block bs" "ParseString s = Inr cfg"
  obtains ps qs where "parse_lines 0 pre init_state = Inr ps" "all_peers ps = []"
    "map block_peer bs = map Some qs" "cfg_Peers cfg = qs" "cfg_Interface cfg = cfg_Interface (ps_cfg ps)"
proof -
  obtain ps qs where p: "parse_lines 0 pre init_state = Inr ps" "map block_peer bs = map Some qs"
    "cfg_Peers cfg = all_peers ps @ qs" "cfg_Interface cfg = cfg_Interface (ps_cfg ps)"
    using ParseString_blocksD [of s pre bs "[]" cfg] assms good_blocks_wf [OF assms(3)] by auto
  have "list_all (\<lambda>l. \<not> peer_header l) pre"
    using assms(2) by (auto simp: pre_ok_def list_all_iff)
  moreover have "all_peers init_state = []" "ps_section init_state \<noteq> InPeer"
    by (simp_all add: init_state_def all_peers_def empty_config_def)
  ultimately have "all_peers ps = []" using parse_lines_no_peer [OF p(1)] by blast
  then show ?thesis using that p by simp
qed


section \<open>An added peer\<close>

definition added_peer :: "string \<Rightarrow> string \<Rightarrow> PeerConfig" where
  "added_peer pubKey clientIP =
     \<lparr>pc_PublicKey = pubKey, pc_AllowedIPs = [clientIP @ ''/32''], pc_Endpoint = [],
      pc_PersistentKeepalive = 0, pc_PreSharedKey = []\<rparr>"

definition added_lines :: "string \<Rightarrow> string \<Rightarrow> string \<Rightarrow> block" where
  "added_lines name pubKey clientIP =
     (''[Peer]  # '' @ name, [''PublicKey = '' @ pubKey, ''AllowedIPs = '' @ clientIP @ ''/32'', []])"

text \<open>What the manager writes into a block: a checked name, a 32-byte key and an address.\<close>

definition safe_key :: "string \<Rightarrow> bool" where
  "safe_key k \<longleftrightarrow> k \<noteq> [] \<and> length k \<le> 64 \<and> list_all (\<lambda>c. graphic c \<and> c \<noteq> CHR 0x23) k"

definition safe_ip :: "string \<Rightarrow> bool" where
  "safe_ip ip \<longleftrightarrow> ip \<noteq> [] \<and> length ip \<le> 64 \<and> list_all (\<lambda>c. is_digit c \<or> c = CHR ''.'') ip"

lemma graphic_not_CR: "list_all graphic s \<Longrightarrow> CHR 0x0D \<notin> set s" "list_all graphic s \<Longrightarrow> newline \<notin> set s"
  by (auto simp: list_all_iff graphic_def)

lemma name_chars: "peerNameRegex name \<Longrightarrow> list_all graphic name \<and> CHR 0x23 \<notin> set name \<and> name \<noteq> [] \<and> length name \<le> 64"
  by (auto simp: peerNameRegex_def matches_class_def list_all_iff name_char_def is_alnum_def byte_class_defs)

lemma text_of_header:
  assumes "list_all graphic name"
  shows "text_of (''[Peer]  # '' @ name) = ''[Peer]''"
proof -
  have "dropCR (''[Peer]  # '' @ name) = ''[Peer]  # '' @ name"
    using graphic_not_CR(1) [OF assms] by (intro dropCR_no_CR) simp
  moreover have "strip_comment (''[Peer]  # '' @ name) = ''[Peer]  ''"
    using strip_comment_Cut [of "''[Peer]  ''" "CHR 0x20 # name"] by simp
  moreover have "TrimSpace ''[Peer]  '' = ''[Peer]''" by code_simp
  ultimately show ?thesis by (simp add: text_of_def)
qed

lemma trim_pair:
  "list_all graphic v \<Longrightarrow> v \<noteq> [] \<Longrightarrow> k \<noteq> [] \<Longrightarrow> list_all graphic k \<Longrightarrow>
     TrimSpace (k @ '' = '' @ v) = k @ '' = '' @ v"
  by (intro TrimSpace_graphic) (auto simp: list_all_iff)

lemma text_of_pair:
  assumes "list_all graphic v" "CHR 0x23 \<notin> set v" "v \<noteq> []"
    and "k \<noteq> []" "list_all graphic k" "CHR 0x23 \<notin> set k"
  shows "text_of (k @ '' = '' @ v) = k @ '' = '' @ v"
proof -
  have "dropCR (k @ '' = '' @ v) = k @ '' = '' @ v"
    using graphic_not_CR(1) assms(1,5) by (intro dropCR_no_CR) auto
  moreover have "strip_comment (k @ '' = '' @ v) = k @ '' = '' @ v"
    using assms by (intro strip_comment_none) auto
  moreover have "TrimSpace (k @ '' = '' @ v) = k @ '' = '' @ v"
    using assms by (intro trim_pair)
  ultimately show ?thesis by (simp add: text_of_def)
qed

lemma safe_key_graphic: "safe_key k \<Longrightarrow> list_all graphic k \<and> CHR 0x23 \<notin> set k"
  by (auto simp: safe_key_def list_all_iff)

lemma safe_ip_graphic: "safe_ip ip \<Longrightarrow> list_all graphic (ip @ ''/32'') \<and> CHR 0x23 \<notin> set (ip @ ''/32'') \<and> CHR '','' \<notin> set (ip @ ''/32'')"
  by (auto simp: safe_ip_def list_all_iff graphic_def is_digit_def)

lemma text_of_added:
  assumes "safe_key pub" "safe_ip ip"
  shows "text_of (''PublicKey = '' @ pub) = ''PublicKey = '' @ pub"
    "text_of (''AllowedIPs = '' @ ip @ ''/32'') = ''AllowedIPs = '' @ ip @ ''/32''"
proof -
  show "text_of (''PublicKey = '' @ pub) = ''PublicKey = '' @ pub"
    using text_of_pair [of pub "''PublicKey''"] safe_key_graphic [OF assms(1)] assms(1)
    by (simp add: safe_key_def graphic_def)
  show "text_of (''AllowedIPs = '' @ ip @ ''/32'') = ''AllowedIPs = '' @ ip @ ''/32''"
    using text_of_pair [of "ip @ ''/32''" "''AllowedIPs''"] safe_ip_graphic [OF assms(2)]
    by (simp add: graphic_def)
qed

lemma added_block:
  assumes "peerNameRegex name" "safe_key pub" "safe_ip ip"
  shows "good_block (added_lines name pub ip)"
    and "block_peer (added_lines name pub ip) = Some (added_peer pub ip)"
    and "peer_line_name (fst (added_lines name pub ip)) = name"
    and "list_all one_line (block_lines (added_lines name pub ip))"
proof -
  have name: "list_all graphic name" "name \<noteq> []" "length name \<le> 64"
    using name_chars [OF assms(1)] by auto
  have low: "ToLower ''Peer'' = ''peer''" "ToLower ''PublicKey'' = ''publickey''"
      "ToLower ''AllowedIPs'' = ''allowedips''" "TrimSpace ''Peer'' = ''Peer''"
    by code_simp+
  have lc: "lower_char (CHR ''['') = CHR ''[''" "lower_char (CHR ''P'') = CHR ''p''"
      "lower_char (CHR ''e'') = CHR ''e''" "lower_char (CHR ''r'') = CHR ''r''" "lower_char (CHR '']'') = CHR '']''"
    by code_simp+
  have trim: "TrimSpace (''[Peer]  # '' @ name) = ''[Peer]  # '' @ name"
    using name by (intro TrimSpace_graphic) (auto simp: list_all_iff graphic_def)
  have peer_line: "is_peer_line (''[Peer]  # '' @ name)"
    using trim lc by (simp add: is_peer_line_def ToLower_ascii ascii_def)
  have hd: "peer_header (''[Peer]  # '' @ name)"
    unfolding peer_header_def text_of_header [OF name(1)]
    using low by (simp add: is_header_def header_name_def suffix_def)
  note seen = text_of_added [OF assms(2,3)]
  have plain: "plain_line (''PublicKey = '' @ pub)" "plain_line (''AllowedIPs = '' @ ip @ ''/32'')" "plain_line []"
    using seen by (simp_all add: plain_line_def is_header_def text_of_def [of "[]"] dropCR_def TrimSuffix_def strip_comment_def)
  have "TrimSpace (''PublicKey'' @ '' = '' @ pub) = ''PublicKey'' @ '' = '' @ pub"
    using safe_key_graphic [OF assms(2)] assms(2) by (intro trim_pair) (auto simp: graphic_def safe_key_def)
  moreover have "TrimSpace (''AllowedIPs'' @ '' = '' @ ip @ ''/32'') = ''AllowedIPs'' @ '' = '' @ ip @ ''/32''"
    using safe_ip_graphic [OF assms(3)] by (intro trim_pair) (simp_all add: graphic_def)
  ultimately have not_peer: "\<not> is_peer_line (''PublicKey = '' @ pub)" "\<not> is_peer_line (''AllowedIPs = '' @ ip @ ''/32'')" "\<not> is_peer_line []"
    by (simp_all add: is_peer_line_def ToLower_ascii ascii_def lower_char_def is_upper_def)
  show "good_block (added_lines name pub ip)"
    using hd plain not_peer peer_line by (simp add: good_block_def wf_block_def added_lines_def)
  have len: "length pub \<le> 64" "length ip \<le> 64"
    using assms(2,3) by (auto simp: safe_key_def safe_ip_def)
  have "Cut (''PublicKey = '' @ pub) (CHR ''='') = Some (''PublicKey '', CHR 0x20 # pub)"
    "Cut (''AllowedIPs = '' @ ip @ ''/32'') (CHR ''='') = Some (''AllowedIPs '', CHR 0x20 # (ip @ ''/32''))"
    by simp_all
  moreover have "TrimSpace ''PublicKey '' = ''PublicKey''" "TrimSpace ''AllowedIPs '' = ''AllowedIPs''" by code_simp+
  moreover have "TrimSpace pub = pub" "TrimSpace (ip @ ''/32'') = ip @ ''/32''"
    using safe_key_graphic [OF assms(2)] safe_ip_graphic [OF assms(3)] by (simp_all add: TrimSpace_all_graphic)
  ultimately show "block_peer (added_lines name pub ip) = Some (added_peer pub ip)"
    using seen low name(3) len safe_ip_graphic [OF assms(3)]
    by (simp add: block_peer_def added_lines_def maxTokenSize_def applyPeerKey_def empty_peer_def
        split_allowed_def added_peer_def text_of_def [of "[]"] dropCR_def TrimSuffix_def strip_comment_def)
  show "peer_line_name (fst (added_lines name pub ip)) = name"
    using trim name by (simp add: added_lines_def peer_line_name_def TrimSpace_graphic list_all_iff graphic_def)
  show "list_all one_line (block_lines (added_lines name pub ip))"
    using name(1) safe_key_graphic [OF assms(2)] safe_ip_graphic [OF assms(3)] graphic_not_CR(2)
    by (auto simp: block_lines_def added_lines_def one_line_def)
qed


lemma Split_peer_block:
  assumes "peerNameRegex name" "safe_key pub" "safe_ip ip"
  shows "Split (s @ peer_block name pub ip) newline = Split s newline @ block_lines (added_lines name pub ip)"
proof -
  let ?b = "unlines [''[Peer]  # '' @ name, ''PublicKey = '' @ pub, ''AllowedIPs = '' @ ip @ ''/32'']"
  have "list_all one_line [''[Peer]  # '' @ name, ''PublicKey = '' @ pub, ''AllowedIPs = '' @ ip @ ''/32'']"
    using added_block(4) [OF assms] by (simp add: block_lines_def added_lines_def)
  then have "Split ?b newline = block_lines (added_lines name pub ip)"
    by (subst Split_unlines) (auto simp: block_lines_def added_lines_def)
  moreover have "s @ peer_block name pub ip = s @ newline # ?b"
    by (simp add: peer_block_def)
  ultimately show ?thesis by (simp only: Split_append_sep)
qed

theorem append_parse:
  assumes "peerNameRegex name" "safe_key pub" "safe_ip ip"
    and "ParseString s = Inr cfg" "length (cfg_Peers cfg) < maxWGPeers"
  shows "ParseString (s @ peer_block name pub ip) =
           Inr (cfg\<lparr>cfg_Peers := cfg_Peers cfg @ [added_peer pub ip]\<rparr>)"
proof -
  let ?b = "added_lines name pub ip"
  obtain ps where ps: "parse_lines 0 (Split s newline) init_state = Inr ps" "cfg = ps_cfg (commit ps)"
    using assms(4) unfolding ParseString_Inr_iff parse_lines_Split [symmetric] by blast
  have "ParseString (s @ peer_block name pub ip) =
      Inr \<lparr>cfg_Interface = cfg_Interface (ps_cfg ps), cfg_Peers = all_peers ps @ [added_peer pub ip]\<rparr>"
  proof (rule ParseString_blocksI [of _ "Split s newline" "[?b]" "[]"])
    show "Split (s @ peer_block name pub ip) newline = Split s newline @ flat [?b] @ []"
      using Split_peer_block [OF assms(1-3)] by simp
  qed (use ps assms added_block [OF assms(1-3)] in \<open>simp_all add: good_block_def\<close>)
  then show ?thesis using ps(2) by (simp add: Config.equality)
qed

lemma append_canonical:
  assumes "peerNameRegex name" "safe_key pub" "safe_ip ip" "canonical s"
  shows "canonical (s @ peer_block name pub ip)"
proof -
  obtain pre bs where s: "Split s newline = pre @ flat bs" "pre_ok pre" "list_all good_block bs"
    using assms(4) by (rule canonicalE)
  show ?thesis
    by (rule canonicalI [of _ pre "bs @ [added_lines name pub ip]"])
       (use s Split_peer_block [OF assms(1-3)] added_block(1) [OF assms(1-3)] in \<open>simp_all add: flat_def\<close>)
qed

section \<open>A removed peer\<close>

definition drop_nth :: "nat \<Rightarrow> 'a list \<Rightarrow> 'a list" where
  "drop_nth i xs = take i xs @ drop (i + 1) xs"

lemma map_drop_nth: "map f (drop_nth i xs) = drop_nth i (map f xs)"
  by (simp add: drop_nth_def take_map drop_map)

lemma list_all_drop_nth: "list_all P xs \<Longrightarrow> list_all P (drop_nth i xs)"
  by (auto simp: drop_nth_def list_all_iff dest: in_set_takeD in_set_dropD)

lemma length_drop_nth: "i < length xs \<Longrightarrow> length (drop_nth i xs) = length xs - 1"
  by (auto simp: drop_nth_def)

lemma concat_unlines: "concat (map (\<lambda>b. unlines (block_lines b)) bs) = unlines (flat bs)"
  by (induction bs) simp_all

lemma removed_text:
  assumes "Split s newline = pre @ flat bs" "pre_ok pre" "list_all good_block bs" "i < length bs"
  shows "let parts = splitSections s in
           concat (take (i + 1) parts @ drop (i + 2) parts) = unlines (pre @ flat (drop_nth i bs))"
proof -
  have "take (i + 1) (splitSections s) @ drop (i + 2) (splitSections s) =
      unlines pre # map (\<lambda>b. unlines (block_lines b)) (drop_nth i bs)"
    by (simp add: splitSections_canonical [OF assms(1-3)] drop_nth_def take_map drop_map)
  from arg_cong [OF this, of concat] show ?thesis by (simp add: Let_def concat_unlines)
qed

lemma flat_subset: "set (flat (drop_nth i bs)) \<subseteq> set (flat bs)"
  by (auto simp: flat_def drop_nth_def dest: in_set_takeD in_set_dropD)

lemma Split_removed:
  assumes "Split s newline = pre @ flat bs"
  shows "Split (unlines (pre @ flat (drop_nth i bs))) newline = (pre @ flat (drop_nth i bs)) @ [[]]"
proof (rule Split_unlines)
  have "list_all one_line (pre @ flat bs)"
    using Split_pieces by (auto simp: list_all_iff one_line_def assms [symmetric])
  then show "list_all one_line (pre @ flat (drop_nth i bs))"
    using flat_subset by (fastforce simp: list_all_iff)
qed

text \<open>A blank line at the end belongs to the last block, or to the preamble.\<close>

lemma blank_line: "\<not> is_peer_line []" "\<not> peer_header []" "plain_line []"
  by (simp_all add: is_peer_line_def peer_header_def plain_line_def is_header_def text_of_def
      dropCR_def TrimSuffix_def strip_comment_def)

lemma append_blank:
  assumes "pre_ok pre" "list_all good_block bs"
  obtains pre' bs' where "pre @ flat bs @ [[]] = pre' @ flat bs'" "pre_ok pre'" "list_all good_block bs'"
proof (cases bs rule: rev_cases)
  case Nil
  then show ?thesis using that [of "pre @ [[]]" "[]"] assms(1) blank_line by (simp add: pre_ok_def)
next
  case (snoc bs1 b)
  then have "list_all good_block (bs1 @ [(fst b, snd b @ [[]])])"
    using assms(2) blank_line by (simp add: good_block_def wf_block_def)
  then show ?thesis
    using that [of pre "bs1 @ [(fst b, snd b @ [[]])]"] assms(1) snoc
    by (simp add: flat_def block_lines_def)
qed

theorem rewrite_parse:
  assumes "canonical s" "ParseString s = Inr cfg" "i < length (cfg_Peers cfg)"
  obtains out where
    "let parts = splitSections s in i + 1 < length parts \<and> out = concat (take (i + 1) parts @ drop (i + 2) parts)"
    "canonical out" "ParseString out = Inr (cfg\<lparr>cfg_Peers := drop_nth i (cfg_Peers cfg)\<rparr>)"
proof -
  obtain pre bs where s: "Split s newline = pre @ flat bs" "pre_ok pre" "list_all good_block bs"
    using assms(1) by (rule canonicalE)
  obtain ps where p: "parse_lines 0 pre init_state = Inr ps" "all_peers ps = []"
    "map block_peer bs = map Some (cfg_Peers cfg)" "cfg_Interface cfg = cfg_Interface (ps_cfg ps)"
    using canonical_parse [OF s assms(2)] by metis
  have len: "length bs = length (cfg_Peers cfg)" using arg_cong [OF p(3), of length] by simp
  let ?out = "unlines (pre @ flat (drop_nth i bs))"
  have good: "list_all good_block (drop_nth i bs)" using s(3) by (rule list_all_drop_nth)
  have split: "Split ?out newline = pre @ flat (drop_nth i bs) @ [[]]"
    using Split_removed [OF s(1)] by simp
  have "canonical ?out"
    using append_blank [OF s(2) good] canonicalI split by metis
  moreover have "ParseString ?out = Inr (cfg\<lparr>cfg_Peers := drop_nth i (cfg_Peers cfg)\<rparr>)"
  proof -
    have "length (cfg_Peers cfg) \<le> maxWGPeers"
      using assms(2) parse_inv_lines [OF parse_inv_init] unfolding ParseString_Inr_iff
      by (auto simp: parse_inv_def)
    then have "ParseString ?out =
        Inr \<lparr>cfg_Interface = cfg_Interface (ps_cfg ps), cfg_Peers = all_peers ps @ drop_nth i (cfg_Peers cfg)\<rparr>"
      using assms(3) len
      by (intro ParseString_blocksI [OF split good_blocks_wf [OF good] _ p(1)])
         (simp_all add: p(2,3) map_drop_nth length_drop_nth)
    then show ?thesis using p by (simp add: Config.equality)
  qed
  moreover have "let parts = splitSections s in
      i + 1 < length parts \<and> ?out = concat (take (i + 1) parts @ drop (i + 2) parts)"
    using removed_text [OF s] assms(3) len by (simp add: splitSections_canonical [OF s] Let_def)
  ultimately show ?thesis using that by metis
qed

end
