(* ===== verification/Peers_Proofs.thy ===== *)
theory Peers_Proofs
  imports Peers
begin

text \<open>
  Facts about \<^verbatim>\<open>internal/peers/peers.go\<close>: the address and key an addition writes, the effect of
  every run of \<open>Add\<close> and \<open>Remove\<close> on the file, the list and the live device, and the invariant
  of a history of operations.
\<close>

section \<open>Addresses and keys, facts\<close>

lemma client_ip_String: "client_ip n = IP_String [10, 100, 0, n]"
proof -
  have "nat_digits 10 = ''10''" "nat_digits 100 = ''100''" "nat_digits 0 = ''0''" by code_simp+
  then show ?thesis by (simp add: client_ip_def IP_String_def)
qed

lemma client_ip_cidr: "n < 256 \<Longrightarrow> Option.bind (ParseCIDR (client_ip n @ ''/32'')) To4 = Some [10, 100, 0, n]"
  by (simp add: client_ip_String ParseCIDR_host To4_As16 del: As16.simps)

lemma nat_digits_length: "n < 1000 \<Longrightarrow> length (nat_digits n) \<le> 3"
  by (subst nat_digits.simps, subst nat_digits.simps, subst nat_digits.simps) auto

lemma client_ip_safe: "n < 256 \<Longrightarrow> safe_ip (client_ip n)"
  using IP_String_chars [of _ 10 100 0 n] nat_digits_length [of n]
  by (auto simp: safe_ip_def list_all_iff client_ip_String [symmetric]) (auto simp: client_ip_def)

lemma length_b64_encode: "length (b64_encode s) = 4 * ((length s + 2) div 3)"
proof (induction s rule: b64_encode.induct)
  case (4 a b c s)
  have "length (a # b # c # s) + 2 = (length s + 2) + 3" by simp
  moreover have "((length s + 2) + 3) div 3 = (length s + 2) div 3 + 1" by (rule div_add_self2) simp
  ultimately show ?case using 4 by (simp only: b64_encode.simps length_Cons) simp
qed simp_all

lemma b64_key_safe: "length k = 32 \<Longrightarrow> safe_key (b64_encode k)"
  using b64_encode_chars [of _ k] length_b64_encode [of k]
  by (auto simp: safe_key_def list_all_iff)

lemma find_None_all: "find P xs = None \<longleftrightarrow> (\<forall>x\<in>set xs. \<not> P x)"
  by (induction xs) auto

lemma octet_cases:
  obtains (none) "set [2..<255] \<subseteq> set (used_octets cfg)" "nextAvailableOctet cfg = 254"
  | (some) "nextAvailableOctet cfg \<in> set [2..<255]" "nextAvailableOctet cfg \<notin> set (used_octets cfg)"
proof (cases "find (\<lambda>i. i \<notin> set (used_octets cfg)) [2..<255]")
  case None
  then show ?thesis using none unfolding find_None_all nextAvailableOctet_def by auto
next
  case (Some i)
  then have "i \<notin> set (used_octets cfg) \<and> i \<in> set [2..<255]"
    unfolding find_Some_iff by (metis nth_mem)
  then show ?thesis using some unfolding nextAvailableOctet_def Some by simp
qed

lemma octet_range: "2 \<le> nextAvailableOctet cfg \<and> nextAvailableOctet cfg \<le> 254"
  by (cases rule: octet_cases [of cfg]) (auto simp del: upt_rec_numeral)

lemma octet_fresh:
  assumes "length (used_octets cfg) < 253"
  shows "nextAvailableOctet cfg \<notin> set (used_octets cfg)"
proof (cases rule: octet_cases [of cfg])
  case none
  then have "card (set [2..<255]) \<le> length (used_octets cfg)"
    by (meson List.finite_set card_length card_mono le_trans)
  then show ?thesis using assms by (simp add: distinct_card del: set_upt upt_rec_numeral)
qed

section \<open>The outcomes of the operations\<close>

lemma Add_InrE:
  assumes "Add env mgr name fs = (Inr r, fs', calls)"
  obtains s cfg priv pub k where "peerNameRegex name" "fs_conf fs = Some s" "ParseString s = Inr cfg"
    "length (cfg_Peers cfg) < 10" "generateKeyPair env = Inr (priv, pub)"
    "live env mgr (LiveAdd pub (client_ip (nextAvailableOctet cfg) @ ''/32'')) = (None, calls)"
    "fs' = fs\<lparr>fs_conf := Some (s @ peer_block name pub (client_ip (nextAvailableOctet cfg)))\<rparr>"
    "serverPublicKey env cfg = Inr k"
    "r = \<lparr>ar_Peer = \<lparr>pr_Index = length (cfg_Peers cfg) + 1, pr_Name = name, pr_PublicKey = pub,
                       pr_IP = client_ip (nextAvailableOctet cfg)\<rparr>,
          ar_QRPayload = qr_payload env mgr k priv (client_ip (nextAvailableOctet cfg))\<rparr>"
  using assms
  by (auto simp: Add_def appendPeer_def ParseFile_def maxPeers_def Let_def
      split: if_splits option.splits sum.splits prod.splits)

lemma key_pair_safe:
  assumes "generateKeyPair env = Inr (priv, pub)" "\<And>p. length (pe_base_mult env p) = 32"
  shows "safe_key pub"
  using assms by (auto simp: generateKeyPair_def Let_def b64_key_safe split: sum.splits)

lemma octet_ip_safe: "safe_ip (client_ip (nextAvailableOctet cfg))"
  using octet_range [of cfg] by (intro client_ip_safe) simp

text \<open>The effect of a successful \<open>Add\<close> on the parsed file and on its form.\<close>

lemma Add_effect:
  assumes "Add env mgr name fs = (Inr r, fs', calls)" "\<And>p. length (pe_base_mult env p) = 32"
  obtains s s' cfg where "fs_conf fs = Some s" "fs_conf fs' = Some s'" "ParseString s = Inr cfg"
    "length (cfg_Peers cfg) < 10"
    "ParseString s' = Inr (cfg\<lparr>cfg_Peers := cfg_Peers cfg @ [added_peer (pr_PublicKey (ar_Peer r)) (pr_IP (ar_Peer r))]\<rparr>)"
    "pr_IP (ar_Peer r) = client_ip (nextAvailableOctet cfg)" "pr_Index (ar_Peer r) = length (cfg_Peers cfg) + 1"
    "pr_Name (ar_Peer r) = name" "peerNameRegex name" "safe_key (pr_PublicKey (ar_Peer r))"
    "s' = s @ peer_block name (pr_PublicKey (ar_Peer r)) (pr_IP (ar_Peer r))"
    "calls = (if mg_device mgr then [LiveAdd (pr_PublicKey (ar_Peer r)) (pr_IP (ar_Peer r) @ ''/32'')] else [])"
proof (rule Add_InrE [OF assms(1)])
  fix s cfg priv pub k
  let ?ip = "client_ip (nextAvailableOctet cfg)"
  assume a: "peerNameRegex name" "fs_conf fs = Some s" "ParseString s = Inr cfg"
    "length (cfg_Peers cfg) < 10" "generateKeyPair env = Inr (priv, pub)"
    "live env mgr (LiveAdd pub (?ip @ ''/32'')) = (None, calls)"
    "fs' = fs\<lparr>fs_conf := Some (s @ peer_block name pub ?ip)\<rparr>"
    "r = \<lparr>ar_Peer = \<lparr>pr_Index = length (cfg_Peers cfg) + 1, pr_Name = name, pr_PublicKey = pub, pr_IP = ?ip\<rparr>,
          ar_QRPayload = qr_payload env mgr k priv ?ip\<rparr>"
  have safe: "safe_key pub" using key_pair_safe [OF a(5) assms(2)] .
  have "ParseString (s @ peer_block name pub ?ip) = Inr (cfg\<lparr>cfg_Peers := cfg_Peers cfg @ [added_peer pub ?ip]\<rparr>)"
    using append_parse [OF a(1) safe octet_ip_safe a(3)] a(4) by (simp add: maxWGPeers_def)
  moreover have "calls = (if mg_device mgr then [LiveAdd pub (?ip @ ''/32'')] else [])"
    using a(6) by (simp add: live_def split: if_splits)
  moreover have "pr_PublicKey (ar_Peer r) = pub" "pr_IP (ar_Peer r) = ?ip"
    "pr_Index (ar_Peer r) = length (cfg_Peers cfg) + 1" "pr_Name (ar_Peer r) = name"
    using a(8) by simp_all
  moreover have "fs_conf fs' = Some (s @ peer_block name pub ?ip)" using a(7) by simp
  ultimately show thesis
    using that [of s "s @ peer_block name pub ?ip" cfg] a(1-4) safe by metis
qed

lemma names_append:
  assumes "peerNameRegex name" "safe_key pub" "safe_ip ip"
  shows "readPeerNames (s @ peer_block name pub ip) = readPeerNames s @ [name]"
  using added_block(1,3) [OF assms] Split_peer_block [OF assms, of s]
  by (simp add: readPeerNames_def good_block_def block_lines_def filter_empty_conv list_all_iff)

lemma filter_peer_lines:
  "pre_ok pre \<Longrightarrow> filter is_peer_line pre = []"
  "list_all good_block bs \<Longrightarrow> filter is_peer_line (flat bs) = map fst bs"
proof -
  show "pre_ok pre \<Longrightarrow> filter is_peer_line pre = []"
    by (auto simp: pre_ok_def list_all_iff filter_empty_conv)
  show "list_all good_block bs \<Longrightarrow> filter is_peer_line (flat bs) = map fst bs"
    by (induction bs) (auto simp: good_block_def block_lines_def list_all_iff filter_empty_conv)
qed

lemma names_canonical:
  assumes "Split s newline = pre @ flat bs @ zs" "pre_ok pre" "list_all good_block bs" "set zs \<subseteq> {[]}"
  shows "readPeerNames s = map (\<lambda>b. peer_line_name (fst b)) bs"
proof -
  have "filter is_peer_line zs = []" using assms(4) blank_line(1) by (auto simp: filter_empty_conv)
  then show ?thesis using filter_peer_lines assms(2,3) by (simp add: readPeerNames_def assms(1))
qed

lemma names_length:
  assumes "canonical s" "ParseString s = Inr cfg"
  shows "length (readPeerNames s) = length (cfg_Peers cfg)"
proof -
  obtain pre bs where s: "Split s newline = pre @ flat bs" "pre_ok pre" "list_all good_block bs"
    using assms(1) by (rule canonicalE)
  obtain ps qs where "map block_peer bs = map Some qs" "cfg_Peers cfg = qs"
    using canonical_parse [OF s assms(2)] by metis
  from arg_cong [OF this(1), of length] this(2) show ?thesis using names_canonical [of s pre bs "[]"] s by simp
qed

lemma Remove_NoneE:
  assumes "Remove env mgr index fs = (None, fs', calls)"
  obtains s cfg where "fs_conf fs = Some s" "ParseString s = Inr cfg" "1 \<le> index"
    "index \<le> int (length (cfg_Peers cfg))"
    "live env mgr (LiveRemove (pc_PublicKey (cfg_Peers cfg ! nat (index - 1)))) = (None, calls)"
    "rewriteWithout env (nat (index - 1)) fs = (None, fs')"
  using assms
  by (auto simp: Remove_def ParseFile_def Let_def not_less
      split: if_splits option.splits sum.splits prod.splits)


lemma names_rewrite:
  assumes "canonical s" "let parts = splitSections s in out = concat (take (i + 1) parts @ drop (i + 2) parts)"
    "i + 1 < length (splitSections s)"
  shows "readPeerNames out = drop_nth i (readPeerNames s)"
proof -
  obtain pre bs where s: "Split s newline = pre @ flat bs" "pre_ok pre" "list_all good_block bs"
    using assms(1) by (rule canonicalE)
  have "i < length bs" using assms(3) by (simp add: splitSections_canonical [OF s])
  then have "out = unlines (pre @ flat (drop_nth i bs))"
    using removed_text [OF s] assms(2) by (simp only: Let_def)
  then have "Split out newline = pre @ flat (drop_nth i bs) @ [[]]"
    using Split_removed [OF s(1), of i] by simp
  then have "readPeerNames out = map (\<lambda>b. peer_line_name (fst b)) (drop_nth i bs)"
    by (rule names_canonical) (use s in \<open>simp_all add: list_all_drop_nth\<close>)
  moreover have "readPeerNames s = map (\<lambda>b. peer_line_name (fst b)) bs"
    using names_canonical [of s pre bs "[]"] s by simp
  ultimately show ?thesis by (simp add: map_drop_nth)
qed

lemma Remove_effect:
  assumes "Remove env mgr i fs = (None, fs', calls)" "fs_conf fs = Some s" "canonical s" "ParseString s = Inr cfg"
  obtains s' where "fs_conf fs' = Some s'" "canonical s'"
    "ParseString s' = Inr (cfg\<lparr>cfg_Peers := drop_nth (nat (i - 1)) (cfg_Peers cfg)\<rparr>)"
    "readPeerNames s' = drop_nth (nat (i - 1)) (readPeerNames s)"
    "1 \<le> i" "i \<le> int (length (cfg_Peers cfg))"
    "calls = (if mg_device mgr then [LiveRemove (pc_PublicKey (cfg_Peers cfg ! nat (i - 1)))] else [])"
proof -
  obtain s0 cfg0 where r: "fs_conf fs = Some s0" "ParseString s0 = Inr cfg0" "1 \<le> i"
    "i \<le> int (length (cfg_Peers cfg0))"
    "live env mgr (LiveRemove (pc_PublicKey (cfg_Peers cfg0 ! nat (i - 1)))) = (None, calls)"
    "rewriteWithout env (nat (i - 1)) fs = (None, fs')"
    using assms(1) by (rule Remove_NoneE)
  have eq: "s0 = s" "cfg0 = cfg" using r(1,2) assms(2,4) by simp_all
  let ?i = "nat (i - 1)"
  have "?i < length (cfg_Peers cfg)" using r(3,4) eq by simp
  then obtain out where out: "let parts = splitSections s in
      ?i + 1 < length parts \<and> out = concat (take (?i + 1) parts @ drop (?i + 2) parts)"
    "canonical out" "ParseString out = Inr (cfg\<lparr>cfg_Peers := drop_nth ?i (cfg_Peers cfg)\<rparr>)"
    using rewrite_parse [OF assms(3,4)] by blast
  have "fs_conf fs' = Some out"
    using r(6) out(1) assms(2)
    by (auto simp: rewriteWithout_def Let_def split: if_splits option.splits)
  moreover have "readPeerNames out = drop_nth ?i (readPeerNames s)"
    using names_rewrite [OF assms(3)] out(1) by (simp add: Let_def)
  moreover have "calls = (if mg_device mgr then [LiveRemove (pc_PublicKey (cfg_Peers cfg ! ?i))] else [])"
    using r(5) eq by (simp add: live_def split: if_splits)
  ultimately show ?thesis using that out(2,3) r(3,4) eq by blast
qed

text \<open>Every run of \<open>Add\<close>: the file is left alone, or the block is appended, perhaps in part.\<close>

lemma Add_states:
  assumes "Add env mgr name fs = (res, fs', calls)"
  shows "(fs' = fs \<and> (\<forall>r. res \<noteq> Inr r)) \<or>
         (\<exists>s cfg priv pub b. peerNameRegex name \<and> fs_conf fs = Some s \<and> ParseString s = Inr cfg \<and>
            length (cfg_Peers cfg) < 10 \<and> generateKeyPair env = Inr (priv, pub) \<and>
            b = peer_block name pub (client_ip (nextAvailableOctet cfg)) \<and>
            (case pe_append env of
               None \<Rightarrow> fs' = fs\<lparr>fs_conf := Some (s @ b)\<rparr>
             | Some (n, e) \<Rightarrow> fs' = fs\<lparr>fs_conf := Some (s @ take n b)\<rparr>))"
  using assms
  by (auto simp: Add_def appendPeer_def ParseFile_def maxPeers_def Let_def
      split: if_splits option.splits sum.splits prod.splits)

section \<open>Properties\<close>

text \<open>A configuration file, its parse and an environment, for the witnesses.\<close>

definition sample_conf :: string where
  "sample_conf =
     ''[Interface]'' @ newline # ''PrivateKey = a2tra2tra2tra2tra2tra2tra2tra2tra2tra2tra2s='' @
     newline # ''Address = 10.100.0.1/24'' @ [newline] @
     peer_block ''phone'' ''cGhvbmVwaG9uZXBob25lcGhvbmVwaG9uZXBob25lcGg='' ''10.100.0.2''"

definition sample_cfg :: Config where
  "sample_cfg =
     \<lparr>cfg_Interface = \<lparr>if_PrivateKey = ''a2tra2tra2tra2tra2tra2tra2tra2tra2tra2tra2s='',
                       if_Address = ''10.100.0.1/24'', if_ListenPort = 0\<rparr>,
      cfg_Peers = [added_peer ''cGhvbmVwaG9uZXBob25lcGhvbmVwaG9uZXBob25lcGg='' ''10.100.0.2'']\<rparr>"

definition sample_env :: peer_env where
  "sample_env =
     \<lparr>pe_live = (\<lambda>c. None), pe_rand = Inr (replicate 32 (CHR ''r'')), pe_base_mult = (\<lambda>p. replicate 32 (CHR ''p'')),
      pe_open = None, pe_append = None, pe_tmp = None, pe_rename = None, pe_hostname = Some ''mac''\<rparr>"

definition sample_mgr :: Manager where
  "sample_mgr = NewManager ''wg0.conf'' ''203.0.113.7'' ''token'' True"

definition sample_fs :: conf_fs where
  "sample_fs = \<lparr>fs_conf = Some sample_conf, fs_tmp = None\<rparr>"

lemma sample_parse: "ParseString sample_conf = Inr sample_cfg"
  by code_simp

lemma sample_canonical: "canonical sample_conf"
  by code_simp

lemma sample_octet: "nextAvailableOctet sample_cfg = 3"
  by code_simp

lemma sample_keys:
  "generateKeyPair sample_env = Inr (''cHJycnJycnJycnJycnJycnJycnJycnJycnJycnJycnI='', ''cHBwcHBwcHBwcHBwcHBwcHBwcHBwcHBwcHBwcHBwcHA='')"
  "serverPublicKey sample_env sample_cfg = Inr ''cHBwcHBwcHBwcHBwcHBwcHBwcHBwcHBwcHBwcHBwcHA=''"
  by code_simp+

lemma sample_name: "peerNameRegex ''ipad''"
  by code_simp

definition sample_result :: AddResult where
  "sample_result =
     \<lparr>ar_Peer = \<lparr>pr_Index = 2, pr_Name = ''ipad'', pr_PublicKey = ''cHBwcHBwcHBwcHBwcHBwcHBwcHBwcHBwcHBwcHBwcHA='', pr_IP = client_ip 3\<rparr>,
      ar_QRPayload = qr_payload sample_env sample_mgr ''cHBwcHBwcHBwcHBwcHBwcHBwcHBwcHBwcHBwcHBwcHA='' ''cHJycnJycnJycnJycnJycnJycnJycnJycnJycnJycnI='' (client_ip 3)\<rparr>"

lemma sample_add:
  assumes "pe_live env = pe_live sample_env" "pe_rand env = pe_rand sample_env"
    "pe_base_mult env = pe_base_mult sample_env" "pe_open env = None" "pe_hostname env = pe_hostname sample_env"
  shows "Add env sample_mgr ''ipad'' sample_fs =
     (case pe_append env of
        None \<Rightarrow> (Inr sample_result,
                 sample_fs\<lparr>fs_conf := Some (sample_conf @ peer_block ''ipad'' ''cHBwcHBwcHBwcHBwcHBwcHBwcHBwcHBwcHBwcHBwcHA='' (client_ip 3))\<rparr>,
                 [LiveAdd ''cHBwcHBwcHBwcHBwcHBwcHBwcHBwcHBwcHBwcHBwcHA='' (client_ip 3 @ ''/32'')])
      | Some (n, e) \<Rightarrow>
          (Inl (''write config: '' @ e),
           sample_fs\<lparr>fs_conf := Some (sample_conf @ take n (peer_block ''ipad'' ''cHBwcHBwcHBwcHBwcHBwcHBwcHBwcHBwcHBwcHBwcHA='' (client_ip 3)))\<rparr>,
           [LiveAdd ''cHBwcHBwcHBwcHBwcHBwcHBwcHBwcHBwcHBwcHBwcHA='' (client_ip 3 @ ''/32''), LiveRemove ''cHBwcHBwcHBwcHBwcHBwcHBwcHBwcHBwcHBwcHBwcHA='']))"
proof -
  have keys: "generateKeyPair env = generateKeyPair sample_env"
    "serverPublicKey env sample_cfg = serverPublicKey sample_env sample_cfg"
    by (simp_all only: generateKeyPair_def serverPublicKey_def assms)
  have "length (cfg_Peers sample_cfg) = 1" by (simp add: sample_cfg_def)
  moreover have "pe_live sample_env = (\<lambda>c. None)" by (simp add: sample_env_def)
  moreover have "mg_device sample_mgr" by (simp add: sample_mgr_def NewManager_def)
  moreover have "qr_payload env sample_mgr = qr_payload sample_env sample_mgr"
    using assms(5) by (intro ext) (simp add: qr_payload_def hostname_def)
  ultimately show ?thesis
    unfolding Add_def
    using assms(1,4) sample_name
    by (simp add: ParseFile_def sample_fs_def sample_parse sample_octet keys sample_keys live_def
        appendPeer_def maxPeers_def sample_result_def Let_def numeral_2_eq_2 split: option.splits)
qed

text \<open>
  C16: a peer that was added is listed. If \<open>Add\<close> succeeds on a canonical configuration file,
  then the new file lists exactly the old peers, unchanged and in order, followed by the peer that
  was returned, under its name and address; the live device was told of exactly that peer, and
  there were fewer than ten before.
\<close>

theorem Add_then_List:
  assumes "Add env mgr name fs = (Inr r, fs', calls)" "\<And>p. length (pe_base_mult env p) = 32"
    and "fs_conf fs = Some s" "canonical s" "List mgr fs = Inr ps"
  shows "List mgr fs' = Inr (ps @ [ar_Peer r]) \<and> length ps < 10 \<and> pr_Name (ar_Peer r) = name \<and>
         calls = (if mg_device mgr
                  then [LiveAdd (pr_PublicKey (ar_Peer r)) (pr_IP (ar_Peer r) @ ''/32'')] else [])"
proof -
  obtain s' cfg where e: "fs_conf fs' = Some s'" "ParseString s = Inr cfg" "length (cfg_Peers cfg) < 10"
    "ParseString s' = Inr (cfg\<lparr>cfg_Peers := cfg_Peers cfg @ [added_peer (pr_PublicKey (ar_Peer r)) (pr_IP (ar_Peer r))]\<rparr>)"
    "pr_IP (ar_Peer r) = client_ip (nextAvailableOctet cfg)" "pr_Index (ar_Peer r) = length (cfg_Peers cfg) + 1"
    "pr_Name (ar_Peer r) = name" "peerNameRegex name" "safe_key (pr_PublicKey (ar_Peer r))"
    "s' = s @ peer_block name (pr_PublicKey (ar_Peer r)) (pr_IP (ar_Peer r))"
    "calls = (if mg_device mgr then [LiveAdd (pr_PublicKey (ar_Peer r)) (pr_IP (ar_Peer r) @ ''/32'')] else [])"
    using Add_effect [OF assms(1,2)] unfolding assms(3) option.inject by blast
  have names: "length (readPeerNames s) = length (cfg_Peers cfg)"
    "readPeerNames s' = readPeerNames s @ [name]"
    using names_length [OF assms(4) e(2)] names_append [OF e(8,9) octet_ip_safe] e(5,10) by simp_all
  have ps: "ps = map (\<lambda>(i, p). list_entry (readPeerNames s) i p) (enumerate 0 (cfg_Peers cfg))"
    using assms(3,5) e(2) by (simp add: List_def ParseFile_def)
  have same: "map (\<lambda>(i, p). list_entry (readPeerNames s @ [name]) i p) (enumerate 0 (cfg_Peers cfg)) = ps"
    unfolding ps by (rule map_cong) (auto simp: names(1) list_entry_def nth_append in_set_enumerate_eq)
  have "name \<noteq> []" using name_chars [OF e(8)] by simp
  then have new: "list_entry (readPeerNames s @ [name]) (length (cfg_Peers cfg))
      (added_peer (pr_PublicKey (ar_Peer r)) (pr_IP (ar_Peer r))) = ar_Peer r"
    using e(6,7) by (intro Peer.equality) (simp_all add: list_entry_def added_peer_def nth_append names(1) [symmetric])
  have "List mgr fs' = Inr (ps @ [ar_Peer r])"
    using e(1,4) same new names(2) by (simp add: List_def ParseFile_def enumerate_append_eq)
  then show ?thesis using e(3,7,11) ps by simp
qed

theorem Add_then_List_witness:
  "\<exists>r fs' calls ps. Add sample_env sample_mgr ''ipad'' sample_fs = (Inr r, fs', calls) \<and>
     List sample_mgr sample_fs = Inr ps \<and> length ps = 1 \<and> List sample_mgr fs' = Inr (ps @ [ar_Peer r])"
proof -
  let ?s' = "sample_fs\<lparr>fs_conf := Some (sample_conf @ peer_block ''ipad'' ''cHBwcHBwcHBwcHBwcHBwcHBwcHBwcHBwcHBwcHBwcHA='' (client_ip 3))\<rparr>"
  have add: "Add sample_env sample_mgr ''ipad'' sample_fs =
      (Inr sample_result, ?s', [LiveAdd ''cHBwcHBwcHBwcHBwcHBwcHBwcHBwcHBwcHBwcHBwcHA='' (client_ip 3 @ ''/32'')])"
    using sample_add [of sample_env] by (simp add: sample_env_def)
  have bm: "length (pe_base_mult sample_env p) = 32" for p by (simp add: sample_env_def)
  obtain ps where ps: "List sample_mgr sample_fs = Inr ps" "length ps = 1"
    using sample_parse by (simp add: List_def ParseFile_def sample_fs_def sample_cfg_def)
  show ?thesis
    using Add_then_List [OF add bm _ sample_canonical ps(1)] add ps by (auto simp: sample_fs_def)
qed


text \<open>
  C17: revoking removes exactly the chosen peer. If \<open>Remove\<close> succeeds on a canonical file, the new
  file is canonical and parses to the same interface and the same peers and names, without the
  one of the given index; and it is that peer's key that was removed from the live device.
\<close>

theorem Remove_exact:
  assumes "Remove env mgr i fs = (None, fs', calls)"
    and "fs_conf fs = Some s" "canonical s" "ParseString s = Inr cfg"
  shows "\<exists>s'. fs_conf fs' = Some s' \<and> canonical s' \<and>
           ParseString s' = Inr (cfg\<lparr>cfg_Peers := drop_nth (nat (i - 1)) (cfg_Peers cfg)\<rparr>) \<and>
           readPeerNames s' = drop_nth (nat (i - 1)) (readPeerNames s) \<and>
           1 \<le> i \<and> i \<le> int (length (cfg_Peers cfg)) \<and>
           calls = (if mg_device mgr then [LiveRemove (pc_PublicKey (cfg_Peers cfg ! nat (i - 1)))] else [])"
  using Remove_effect [OF assms] by blast

theorem Remove_exact_witness:
  "\<exists>fs' s'. Remove sample_env sample_mgr 1 sample_fs =
       (None, fs', [LiveRemove ''cGhvbmVwaG9uZXBob25lcGhvbmVwaG9uZXBob25lcGg='']) \<and>
     fs_conf fs' = Some s' \<and> ParseString s' = Inr (sample_cfg\<lparr>cfg_Peers := []\<rparr>) \<and> readPeerNames s' = []"
proof -
  have "fst (Remove sample_env sample_mgr 1 sample_fs) = None"
    "snd (snd (Remove sample_env sample_mgr 1 sample_fs)) = [LiveRemove ''cGhvbmVwaG9uZXBob25lcGhvbmVwaG9uZXBob25lcGg='']"
    "readPeerNames sample_conf = [''phone'']"
    by code_simp+
  then obtain fs' where r: "Remove sample_env sample_mgr 1 sample_fs =
       (None, fs', [LiveRemove ''cGhvbmVwaG9uZXBob25lcGhvbmVwaG9uZXBob25lcGg=''])"
    by (metis prod.collapse)
  have "fs_conf sample_fs = Some sample_conf" by (simp add: sample_fs_def)
  from Remove_exact [OF r this sample_canonical sample_parse] r \<open>readPeerNames sample_conf = [''phone'']\<close>
  show ?thesis by (auto simp: drop_nth_def sample_cfg_def)
qed

text \<open>
  C19: revocation comes before the file. When there is a live device, the configuration file only
  changes after the device accepted the removal of the peer, and then \<open>Remove\<close> reports no error;
  in every other case the file is what it was.
\<close>

theorem Remove_revokes_first:
  assumes "Remove env mgr i fs = (err, fs', calls)" "mg_device mgr" "fs_conf fs' \<noteq> fs_conf fs"
  shows "err = None \<and> (\<exists>pub. calls = [LiveRemove pub] \<and> pe_live env (LiveRemove pub) = None)"
  using assms
  by (auto simp: Remove_def live_def rewriteWithout_def Let_def
      split: if_splits option.splits sum.splits prod.splits)

theorem Remove_revokes_first_witness:
  "\<exists>fs' calls. Remove sample_env sample_mgr 1 sample_fs = (None, fs', calls) \<and>
     (\<exists>pub. calls = [LiveRemove pub] \<and> pe_live sample_env (LiveRemove pub) = None)"
proof -
  obtain err fs' calls where r: "Remove sample_env sample_mgr 1 sample_fs = (err, fs', calls)"
    by (metis prod_cases3)
  have "fs_conf (fst (snd (Remove sample_env sample_mgr 1 sample_fs))) \<noteq> fs_conf sample_fs" "mg_device sample_mgr"
    by code_simp+
  then show ?thesis using Remove_revokes_first [OF r] r by simp
qed



text \<open>
  Where the rollback is missing. When the private key of the interface cannot be decoded, \<open>Add\<close>
  returns an error although the new peer is in the file and was accepted by the live device, and
  nothing is undone.
\<close>

theorem Add_error_keeps_peer:
  "\<exists>e fs' s' cfg' calls.
     Add sample_env sample_mgr ''ipad'' \<lparr>fs_conf = Some ''[Interface]'', fs_tmp = None\<rparr> = (Inl e, fs', calls) \<and>
     fs_conf fs' = Some s' \<and> ParseString s' = Inr cfg' \<and> length (cfg_Peers cfg') = 1 \<and>
     (\<exists>pub cidr. calls = [LiveAdd pub cidr])"
proof -
  have p: "ParseString ''[Interface]'' = Inr empty_config" by code_simp
  have k: "serverPublicKey sample_env empty_config = Inl ''invalid private key length''" by code_simp
  have o: "nextAvailableOctet empty_config = 2" by code_simp
  have live: "pe_live sample_env c = None" "mg_device sample_mgr" "pe_open sample_env = None"
    "pe_append sample_env = None" for c
    by (simp_all add: sample_env_def sample_mgr_def NewManager_def)
  have c0: "cfg_Peers empty_config = []" by (simp add: empty_config_def)
  obtain priv pub where g: "generateKeyPair sample_env = Inr (priv, pub)" using sample_keys(1) by blast
  have safe: "safe_key pub" by (rule key_pair_safe [OF g]) (simp add: sample_env_def)
  have "Add sample_env sample_mgr ''ipad'' \<lparr>fs_conf = Some ''[Interface]'', fs_tmp = None\<rparr> =
      (Inl (''derive server pubkey: '' @ ''invalid private key length''),
       \<lparr>fs_conf = Some (''[Interface]'' @ peer_block ''ipad'' pub (client_ip 2)), fs_tmp = None\<rparr>,
       [LiveAdd pub (client_ip 2 @ ''/32'')])"
    unfolding Add_def
    using sample_name by (simp add: ParseFile_def p k o live c0 g maxPeers_def live_def appendPeer_def Let_def)
  moreover have "ParseString (''[Interface]'' @ peer_block ''ipad'' pub (client_ip 2)) =
      Inr (empty_config\<lparr>cfg_Peers := cfg_Peers empty_config @ [added_peer pub (client_ip 2)]\<rparr>)"
    using append_parse [OF sample_name safe client_ip_safe p] by (simp add: c0 maxWGPeers_def)
  ultimately show ?thesis by (simp add: c0)
qed


section \<open>Addresses over a history of operations\<close>

text \<open>
  The file after any operation, successful or not. An append may fail, but is not cut short: what
  it leaves then is the subject of \<open>torn_append_reuses\<close> below.
\<close>

definition append_whole :: "peer_env \<Rightarrow> bool" where
  "append_whole env \<longleftrightarrow> (case pe_append env of None \<Rightarrow> True | Some (n, e) \<Rightarrow> n = 0)"

inductive peer_step :: "Manager \<Rightarrow> conf_fs \<Rightarrow> conf_fs \<Rightarrow> bool" for mgr where
  add_step: "(\<And>p. length (pe_base_mult env p) = 32) \<Longrightarrow> append_whole env \<Longrightarrow>
     Add env mgr name fs = (res, fs', calls) \<Longrightarrow> peer_step mgr fs fs'"
| remove_step: "Remove env mgr i fs = (err, fs', calls) \<Longrightarrow> peer_step mgr fs fs'"

definition octets_ok :: "Config \<Rightarrow> nat list \<Rightarrow> bool" where
  "octets_ok cfg os \<longleftrightarrow>
     map pc_AllowedIPs (cfg_Peers cfg) = map (\<lambda>n. [client_ip n @ ''/32'']) os \<and>
     distinct os \<and> set os \<subseteq> {2..254} \<and> length os \<le> 10"

definition peers_inv :: "conf_fs \<Rightarrow> bool" where
  "peers_inv fs \<longleftrightarrow>
     (\<exists>s cfg os. fs_conf fs = Some s \<and> canonical s \<and> ParseString s = Inr cfg \<and> octets_ok cfg os)"

lemma octets_of_peers:
  "map pc_AllowedIPs ps = map (\<lambda>n. [client_ip n @ ''/32'']) os \<Longrightarrow> set os \<subseteq> {2..254} \<Longrightarrow>
     concat (map (\<lambda>p. concat (map (\<lambda>cidr. case Option.bind (ParseCIDR cidr) To4 of None \<Rightarrow> [] | Some q \<Rightarrow> [q ! 3])
                                (pc_AllowedIPs p))) ps) = os"
proof (induction os arbitrary: ps)
  case (Cons n os)
  then obtain p qs where "ps = p # qs" "pc_AllowedIPs p = [client_ip n @ ''/32'']" by auto
  moreover have "Option.bind (ParseCIDR (client_ip n @ ''/32'')) To4 = Some [10, 100, 0, n]"
    using Cons.prems(2) by (intro client_ip_cidr) auto
  ultimately show ?case using Cons by simp
qed simp

lemma used_octets_ok: "octets_ok cfg os \<Longrightarrow> used_octets cfg = 1 # os"
  unfolding used_octets_def octets_ok_def by (elim conjE) (simp only: octets_of_peers)

lemma octets_ok_add:
  assumes "octets_ok cfg os" "length (cfg_Peers cfg) < 10"
  shows "octets_ok (cfg\<lparr>cfg_Peers := cfg_Peers cfg @ [added_peer pub (client_ip (nextAvailableOctet cfg))]\<rparr>)
           (os @ [nextAvailableOctet cfg])"
proof -
  have "length os < 10"
    using assms arg_cong [of _ _ length, OF octets_ok_def [THEN iffD1, OF assms(1), THEN conjunct1]] by simp
  moreover from this have "nextAvailableOctet cfg \<notin> set os"
    using octet_fresh [of cfg] used_octets_ok [OF assms(1)] by simp
  ultimately show ?thesis
    using assms(1) octet_range [of cfg] by (auto simp: octets_ok_def added_peer_def)
qed

lemma distinct_drop_nth: "distinct xs \<Longrightarrow> distinct (drop_nth i xs)"
  by (auto simp: drop_nth_def) (metis append_take_drop_id distinct_append disjoint_iff Suc_eq_plus1
      set_drop_subset_set_drop le_add2 plus_1_eq_Suc subsetD)

lemma octets_ok_drop: "octets_ok cfg os \<Longrightarrow> octets_ok (cfg\<lparr>cfg_Peers := drop_nth i (cfg_Peers cfg)\<rparr>) (drop_nth i os)"
  by (auto simp: octets_ok_def map_drop_nth distinct_drop_nth)
     (auto simp: drop_nth_def dest: in_set_takeD in_set_dropD)

lemma Remove_error_conf:
  "Remove env mgr i fs = (Some e, fs', calls) \<Longrightarrow> fs_conf fs' = fs_conf fs"
  by (auto simp: Remove_def rewriteWithout_def Let_def split: if_splits option.splits sum.splits prod.splits)

lemma peers_inv_step: "peers_inv fs \<Longrightarrow> peer_step mgr fs fs' \<Longrightarrow> peers_inv fs'"
proof (erule peer_step.cases)
  fix env name fs0 res fs0' calls
  assume inv: "peers_inv fs" and eq: "fs = fs0" "fs' = fs0'"
    and bm: "\<And>p. length (pe_base_mult env p) = 32" and ap: "append_whole env"
    and add: "Add env mgr name fs0 = (res, fs0', calls)"
  obtain s cfg os where s: "fs_conf fs = Some s" "canonical s" "ParseString s = Inr cfg" "octets_ok cfg os"
    using inv by (auto simp: peers_inv_def)
  show "peers_inv fs'"
  proof (cases "fs0' = fs0")
    case False
    have same: "fs0\<lparr>fs_conf := Some s\<rparr> = fs0" using s(1) eq by (cases fs0) simp
    obtain pub priv where a: "peerNameRegex name" "length (cfg_Peers cfg) < 10"
      "generateKeyPair env = Inr (priv, pub)"
      "fs0' = fs0\<lparr>fs_conf := Some (s @ peer_block name pub (client_ip (nextAvailableOctet cfg)))\<rparr>"
      using Add_states [OF add] s eq ap False same by (auto simp: append_whole_def split: option.splits prod.splits)
    note safe = a(1) key_pair_safe [OF a(3) bm] octet_ip_safe
    show ?thesis
      using append_parse [OF safe s(3)] append_canonical [OF safe s(2)] octets_ok_add [OF s(4) a(2)] a(2,4) eq
      by (auto simp: peers_inv_def maxWGPeers_def)
  qed (use inv eq in simp)
next
  fix env i fs0 err fs0' calls
  assume inv: "peers_inv fs" and eq: "fs = fs0" "fs' = fs0'" and rem: "Remove env mgr i fs0 = (err, fs0', calls)"
  obtain s cfg os where s: "fs_conf fs0 = Some s" "canonical s" "ParseString s = Inr cfg" "octets_ok cfg os"
    using inv eq by (auto simp: peers_inv_def)
  show "peers_inv fs'"
  proof (cases err)
    case None
    with Remove_effect [OF rem [unfolded None] s(1-3)] octets_ok_drop [OF s(4)] eq
    show ?thesis unfolding peers_inv_def by metis
  next
    case (Some e)
    with rem Remove_error_conf s eq show ?thesis unfolding peers_inv_def by metis
  qed
qed

interpretation peer_system: invariant_system peers_inv "peer_step mgr" peers_inv
  by unfold_locales (auto intro: peers_inv_step)

text \<open>
  C7: addresses are never shared. Start from a canonical file whose peers, at most ten, each have one
  address \<^verbatim>\<open>10.100.0.n/32\<close> of their own with n between 2 and 254; a fresh file has none. After any
  sequence of additions and removals by the manager, successful or not, in which no append is
  cut short, the file is such a file again: no two peers share an address and none has the server's.
\<close>

theorem addresses_never_shared:
  assumes "fs_conf fs = Some s" "canonical s" "ParseString s = Inr cfg" "octets_ok cfg os"
    and "(peer_step mgr)\<^sup>*\<^sup>* fs fs'"
  shows "\<exists>s' cfg' os'. fs_conf fs' = Some s' \<and> canonical s' \<and> ParseString s' = Inr cfg' \<and>
           map pc_AllowedIPs (cfg_Peers cfg') = map (\<lambda>n. [client_ip n @ ''/32'']) os' \<and>
           distinct os' \<and> set os' \<subseteq> {2..254} \<and> length os' \<le> 10"
proof -
  have "peers_inv fs" using assms(1-4) by (auto simp: peers_inv_def)
  from peer_system.reachable_inv [OF this assms(5)] show ?thesis by (auto simp: peers_inv_def octets_ok_def)
qed

theorem addresses_never_shared_witness:
  "\<exists>fs'. peer_step sample_mgr sample_fs fs' \<and>
     (\<exists>s cfg os. fs_conf fs' = Some s \<and> ParseString s = Inr cfg \<and> length os = 2 \<and>
        map pc_AllowedIPs (cfg_Peers cfg) = map (\<lambda>n. [client_ip n @ ''/32'']) os \<and> distinct os)"
proof -
  have conf: "fs_conf sample_fs = Some sample_conf" by (simp add: sample_fs_def)
  have start: "octets_ok sample_cfg [2]"
    by (simp add: octets_ok_def sample_cfg_def added_peer_def) code_simp
  let ?s' = "sample_conf @ peer_block ''ipad'' ''cHBwcHBwcHBwcHBwcHBwcHBwcHBwcHBwcHBwcHBwcHA='' (client_ip 3)"
  have add: "Add sample_env sample_mgr ''ipad'' sample_fs =
      (Inr sample_result, sample_fs\<lparr>fs_conf := Some ?s'\<rparr>,
       [LiveAdd ''cHBwcHBwcHBwcHBwcHBwcHBwcHBwcHBwcHBwcHBwcHA='' (client_ip 3 @ ''/32'')])"
    using sample_add [of sample_env] by (simp add: sample_env_def)
  have step: "peer_step sample_mgr sample_fs (sample_fs\<lparr>fs_conf := Some ?s'\<rparr>)"
    by (rule add_step [OF _ _ add]) (simp_all add: sample_env_def append_whole_def)
  have two: "length (cfg_Peers c) = 2" if "ParseString ?s' = Inr c" for c
  proof -
    have "map_sum id (\<lambda>c. length (cfg_Peers c)) (ParseString ?s') = Inr 2" by code_simp
    then show ?thesis using that by simp
  qed
  from addresses_never_shared [OF conf sample_canonical sample_parse start r_into_rtranclp [where r = "peer_step sample_mgr", OF step]]
  obtain cfg' os' where c: "ParseString ?s' = Inr cfg'"
    "map pc_AllowedIPs (cfg_Peers cfg') = map (\<lambda>n. [client_ip n @ ''/32'']) os'" "distinct os'"
    by auto
  moreover have "length os' = 2" using two [OF c(1)] arg_cong [OF c(2), of length] by simp
  ultimately show ?thesis using step by (intro exI [of _ "sample_fs\<lparr>fs_conf := Some ?s'\<rparr>"]) auto
qed

text \<open>
  But an append that is cut short in front of the mask leaves a section whose address has none.
  The file still parses, the address does not count as used, and the next peer is given it again.
\<close>

theorem torn_append_reuses:
  "\<exists>e fs' calls s' cfg' p.
     Add (sample_env\<lparr>pe_append := Some (96, ''no space left'')\<rparr>) sample_mgr ''ipad'' sample_fs = (Inl e, fs', calls) \<and>
     fs_conf fs' = Some s' \<and> ParseString s' = Inr cfg' \<and> p \<in> set (cfg_Peers cfg') \<and>
     pc_AllowedIPs p = [client_ip 3] \<and> nextAvailableOctet cfg' = 3"
proof -
  let ?s' = "sample_conf @ take 96 (peer_block ''ipad'' ''cHBwcHBwcHBwcHBwcHBwcHBwcHBwcHBwcHBwcHBwcHA='' (client_ip 3))"
  have f: "\<exists>e fs' calls. Add (sample_env\<lparr>pe_append := Some (96, ''no space left'')\<rparr>) sample_mgr ''ipad'' sample_fs =
      (Inl e, fs', calls) \<and> fs_conf fs' = Some ?s'"
    by (subst sample_add) (auto simp: sample_env_def)
  have "map_sum id (\<lambda>c. (map pc_AllowedIPs (cfg_Peers c), nextAvailableOctet c)) (ParseString ?s') =
      Inr ([[''10.100.0.2/32''], [''10.100.0.3'']], 3)"
    by code_simp
  then obtain cfg' where c: "ParseString ?s' = Inr cfg'"
    and m: "map pc_AllowedIPs (cfg_Peers cfg') = [[''10.100.0.2/32''], [''10.100.0.3'']]"
    and n: "nextAvailableOctet cfg' = 3"
    by (cases "ParseString ?s'") auto
  have "pc_AllowedIPs (cfg_Peers cfg' ! 1) = [''10.100.0.3'']" "1 < length (cfg_Peers cfg')"
    using m by (auto simp: map_eq_Cons_conv)
  moreover have "client_ip 3 = ''10.100.0.3''" by code_simp
  ultimately have "cfg_Peers cfg' ! 1 \<in> set (cfg_Peers cfg') \<and> pc_AllowedIPs (cfg_Peers cfg' ! 1) = [client_ip 3]"
    by (simp only: nth_mem)
  then show ?thesis using f c n by blast
qed

end
