(* ===== verification/Go_Json.thy ===== *)
theory Go_Json
  imports Go_Strings Go_Encoding
begin

text \<open>
  JSON values, as the handlers build them for \<^verbatim>\<open>json.Marshal\<close> and read them after
  \<^verbatim>\<open>json.Unmarshal\<close>. Objects keep the order in which the source writes their fields; the first
  pair of a name is the one that is read. The text form is not modelled: a message is its value.
  Also the unpadded URL alphabet of base64.
\<close>

datatype json =
    JNull
  | JBool bool
  | JNum int
  | JStr string
  | JArr "json list"
  | JObj "(string \<times> json) list"

fun jfield :: "json \<Rightarrow> string \<Rightarrow> json option" where
  "jfield (JObj fs) k = map_of fs k"
| "jfield _ k = None"

text \<open>\<^verbatim>\<open>msg[k].(string)\<close> with the blank identifier: the zero value when it is not a string.\<close>

definition jstring :: "json \<Rightarrow> string \<Rightarrow> string" where
  "jstring j k = (case jfield j k of Some (JStr s) \<Rightarrow> s | _ \<Rightarrow> [])"

text \<open>
  \<^verbatim>\<open>json.Unmarshal\<close> into a struct of string fields with the given (lower-case) tags: the values by
  tag, empty where nothing is given. Names match up to the case of ASCII letters, unknown names
  are skipped, \<^verbatim>\<open>null\<close> leaves a field, any other type is an error. \<open>None\<close> as input is a text that
  is no JSON.
\<close>

fun decode_strings :: "string list \<Rightarrow> (string \<times> json) list \<Rightarrow> (string \<Rightarrow> string) \<Rightarrow> (string \<Rightarrow> string) option" where
  "decode_strings tags [] acc = Some acc"
| "decode_strings tags ((k, v) # fs) acc =
     (let t = map lower_char k in
      if t \<notin> set tags then decode_strings tags fs acc
      else (case v of
              JStr s \<Rightarrow> decode_strings tags fs (acc(t := s))
            | JNull \<Rightarrow> decode_strings tags fs acc
            | _ \<Rightarrow> None))"

fun unmarshal_strings :: "string list \<Rightarrow> json option \<Rightarrow> (string \<Rightarrow> string) option" where
  "unmarshal_strings tags (Some (JObj fs)) = decode_strings tags fs (\<lambda>_. [])"
| "unmarshal_strings tags (Some JNull) = Some (\<lambda>_. [])"
| "unmarshal_strings tags _ = None"

definition b64_rawurl :: "string \<Rightarrow> string" where
  "b64_rawurl s =
     map (\<lambda>c. if c = CHR ''+'' then CHR ''-'' else if c = CHR 0x2F then CHR ''_'' else c)
       (filter (\<lambda>c. c \<noteq> CHR ''='') (b64_encode s))"

lemma b64_rawurl_no_dot: "CHR ''.'' \<notin> set (b64_rawurl s)"
proof -
  have dot: "CHR ''.'' \<notin> set (b64_encode s)"
  proof (induction s rule: b64_encode.induct)
    have ne: "CHR ''.'' \<noteq> b64_char n" if "n < 64" for n
    proof
      assume "CHR ''.'' = b64_char n"
      then have "b64_val (CHR ''.'') = Some n" using b64_val_char [OF that] by (simp only:)
      then show False by (simp add: b64_val_def is_upper_def is_lower_def is_digit_def)
    qed
    {
      case 1
      show ?case by simp
    next
      case (2 a)
      show ?case using quad_bounds by (simp add: ne)
    next
      case (3 a b)
      show ?case using quad_bounds by (simp add: ne)
    next
      case (4 a b c s)
      then show ?case using quad_bounds by (simp add: ne)
    }
  qed
  then show ?thesis by (auto simp: b64_rawurl_def)
qed

end
