(* ===== verification/Apns.thy ===== *)
theory Apns
  imports Go_Json
begin

text \<open>
  \<^verbatim>\<open>internal/apns/client.go\<close>: the push client. Its state is the cached provider token and the
  instant until which it is used. The signature, the text form of JSON and Apple's answer are
  parameters; a call returns the request it sent. All uses of the clock in one call see the same
  instant.
\<close>

section \<open>Data\<close>

definition apnsURL :: string where
  "apnsURL = ''https://api.push.apple.com/3/device/''"

text \<open>What reading and parsing the key file gives.\<close>

datatype key_file = Unreadable | NoPEM | BadPKCS8 | NotECDSA | ECDSA

record Client =
  keyID :: string
  teamID :: string
  bundleID :: string
  jwt :: string
  jwtExp :: time

definition New_Client :: "key_file \<Rightarrow> string \<Rightarrow> string \<Rightarrow> string \<Rightarrow> Client result" where
  "New_Client kf kid tid bid =
     (case kf of
        Unreadable \<Rightarrow> Inl ''reading APNs key''
      | NoPEM \<Rightarrow> Inl ''invalid PEM block in APNs key file''
      | BadPKCS8 \<Rightarrow> Inl ''parsing APNs key''
      | NotECDSA \<Rightarrow> Inl ''APNs key is not an ECDSA key''
      | ECDSA \<Rightarrow> Inr \<lparr>keyID = kid, teamID = tid, bundleID = bid, jwt = [], jwtExp = 0\<rparr>)"

record Alert =
  Title :: string
  Body :: string
  SessionID :: string
  Category :: string
  CollapseID :: string

text \<open>
  The signer returns the big-endian bytes of r and s, without leading zeros; \<open>answer\<close> is
  Apple's status code and reason, or the error of the transport.
\<close>

record apns_env =
  ae_marshal :: "json \<Rightarrow> string"
  ae_sign :: "string \<Rightarrow> (string \<times> string) result"
  ae_answer :: "(nat \<times> string) result"

record apns_request =
  ar_URL :: string
  ar_Headers :: "(string \<times> string) list"
  ar_Payload :: json

text \<open>\<^verbatim>\<open>ErrTokenInvalid\<close>, and every other error with its text.\<close>

datatype send_error = ErrTokenInvalid nat string | TransientError string

fun error_text :: "send_error \<Rightarrow> string" where
  "error_text (ErrTokenInvalid code reason) =
     ''apns: device token invalid ('' @ Itoa (int code) @ '' '' @ reason @ '')''"
| "error_text (TransientError e) = e"

section \<open>The provider token\<close>

definition unix :: "time \<Rightarrow> int" where
  "unix t = t div 10 ^ 9"

definition minutes :: "int \<Rightarrow> time" where
  "minutes n = n * 60 * 10 ^ 9"

text \<open>The signature is r and s right-aligned in 32 bytes each.\<close>

definition pad32 :: "string \<Rightarrow> string" where
  "pad32 b = replicate (32 - length b) (CHR 0x00) @ b"

definition buildJWT :: "apns_env \<Rightarrow> Client \<Rightarrow> time \<Rightarrow> string result" where
  "buildJWT env c now =
     (let header = b64_rawurl (ae_marshal env (JObj [(''alg'', JStr ''ES256''), (''kid'', JStr (keyID c))]));
          payload = b64_rawurl (ae_marshal env (JObj [(''iss'', JStr (teamID c)), (''iat'', JNum (unix now))]));
          signingInput = header @ ''.'' @ payload
      in case ae_sign env signingInput of
           Inl e \<Rightarrow> Inl e
         | Inr (r, s) \<Rightarrow> Inr (signingInput @ ''.'' @ b64_rawurl (pad32 r @ pad32 s)))"

definition getJWT :: "apns_env \<Rightarrow> time \<Rightarrow> Client \<Rightarrow> string result \<times> Client" where
  "getJWT env now c =
     (if jwt c \<noteq> [] \<and> now < jwtExp c then (Inr (jwt c), c)
      else case buildJWT env c now of
        Inl e \<Rightarrow> (Inl e, c)
      | Inr t \<Rightarrow> (Inr t, c\<lparr>jwt := t, jwtExp := now + minutes 55\<rparr>))"

definition invalidateJWT :: "Client \<Rightarrow> Client" where
  "invalidateJWT c = c\<lparr>jwt := [], jwtExp := 0\<rparr>"

section \<open>Sending\<close>

definition collapse_headers :: "Alert \<Rightarrow> (string \<times> string) list" where
  "collapse_headers alert =
     (if CollapseID alert = [] then []
      else [(''apns-collapse-id'',
             if 64 < length (CollapseID alert) then take 64 (CollapseID alert) else CollapseID alert)])"

definition alert_request :: "Client \<Rightarrow> time \<Rightarrow> string \<Rightarrow> string \<Rightarrow> Alert \<Rightarrow> apns_request" where
  "alert_request c now token deviceToken alert =
     \<lparr>ar_URL = apnsURL @ deviceToken,
      ar_Headers =
        [(''Authorization'', ''Bearer '' @ token),
         (''apns-topic'', bundleID c),
         (''apns-push-type'', ''alert''),
         (''apns-priority'', ''10''),
         (''apns-expiration'', Itoa (unix (now + minutes 60)))] @
        collapse_headers alert @
        [(''Content-Type'', ''application/json'')],
      ar_Payload =
        JObj [(''aps'',
               JObj [(''alert'', JObj [(''title'', JStr (Title alert)), (''body'', JStr (Body alert))]),
                     (''sound'', JStr ''default''),
                     (''category'', JStr (if Category alert = [] then ''SESSION_FINISHED'' else Category alert))]),
              (''sessionId'', JStr (SessionID alert))]\<rparr>"

definition Send ::
  "apns_env \<Rightarrow> time \<Rightarrow> string \<Rightarrow> Alert \<Rightarrow> Client \<Rightarrow> send_error option \<times> Client \<times> apns_request option" where
  "Send env now deviceToken alert c =
     (case getJWT env now c of
        (Inl e, c1) \<Rightarrow> (Some (TransientError (''building APNs JWT: '' @ e)), c1, None)
      | (Inr token, c1) \<Rightarrow>
          (let req = Some (alert_request c1 now token deviceToken alert)
           in case ae_answer env of
                Inl e \<Rightarrow> (Some (TransientError (''APNs request failed: '' @ e)), c1, req)
              | Inr (code, reason) \<Rightarrow>
                  if code \<noteq> 200 then
                    (let c2 = (if code = 403 then invalidateJWT c1 else c1)
                     in if code = 410 \<or> reason = ''BadDeviceToken''
                        then (Some (ErrTokenInvalid code reason), c2, req)
                        else (Some (TransientError (''APNs returned '' @ Itoa (int code) @ '': '' @ reason)), c2, req))
                  else (None, c1, req)))"

definition activity_request :: "Client \<Rightarrow> time \<Rightarrow> string \<Rightarrow> string \<Rightarrow> json \<Rightarrow> time \<Rightarrow> apns_request" where
  "activity_request c now token activityToken contentState staleAfter =
     \<lparr>ar_URL = apnsURL @ activityToken,
      ar_Headers =
        [(''Authorization'', ''Bearer '' @ token),
         (''apns-topic'', bundleID c @ ''.push-type.liveactivity''),
         (''apns-push-type'', ''liveactivity''),
         (''apns-priority'', ''10''),
         (''Content-Type'', ''application/json'')],
      ar_Payload =
        JObj [(''aps'',
               JObj ([(''timestamp'', JNum (unix now)), (''event'', JStr ''update''), (''content-state'', contentState)] @
                     (if 0 < staleAfter then [(''stale-date'', JNum (unix (now + staleAfter)))] else [])))]\<rparr>"

definition SendLiveActivity ::
  "apns_env \<Rightarrow> time \<Rightarrow> string \<Rightarrow> json \<Rightarrow> time \<Rightarrow> Client \<Rightarrow>
   send_error option \<times> Client \<times> apns_request option" where
  "SendLiveActivity env now activityToken contentState staleAfter c =
     (case getJWT env now c of
        (Inl e, c1) \<Rightarrow> (Some (TransientError (''building APNs JWT: '' @ e)), c1, None)
      | (Inr token, c1) \<Rightarrow>
          (let req = Some (activity_request c1 now token activityToken contentState staleAfter)
           in case ae_answer env of
                Inl e \<Rightarrow> (Some (TransientError (''APNs request failed: '' @ e)), c1, req)
              | Inr (code, reason) \<Rightarrow>
                  if code \<noteq> 200 then
                    (Some (TransientError (''APNs returned '' @ Itoa (int code) @ '': '' @ reason)),
                     if code = 403 then invalidateJWT c1 else c1, req)
                  else (None, c1, req)))"

section \<open>The token cache over a history of pushes\<close>

text \<open>
  What a push builds: when there is no cached token, or its time is over, the token that the signer
  of this push gives, with the instant of its building.
\<close>

definition minted :: "apns_env \<Rightarrow> time \<Rightarrow> Client \<Rightarrow> (time \<times> string) list" where
  "minted env now c =
     (if jwt c \<noteq> [] \<and> now < jwtExp c then []
      else case buildJWT env c now of Inl e \<Rightarrow> [] | Inr token \<Rightarrow> [(now, token)])"

text \<open>One push of either kind at some instant, with the request it sent.\<close>

inductive push :: "apns_env \<Rightarrow> time \<Rightarrow> Client \<Rightarrow> apns_request option \<Rightarrow> Client \<Rightarrow> bool" where
  push_alert: "Send env now tok alert c = (err, c', req) \<Longrightarrow> push env now c req c'"
| push_activity: "SendLiveActivity env now tok st stale c = (err, c', req) \<Longrightarrow> push env now c req c'"

text \<open>
  A history of pushes, each with its own signer and answer, with the log of the tokens that were
  really built in it and when.
\<close>

inductive pushes :: "Client \<Rightarrow> (time \<times> string) list \<Rightarrow> Client \<Rightarrow> bool" where
  pushes_refl: "pushes c [] c"
| pushes_step: "pushes c log c' \<Longrightarrow> push env now c' req c'' \<Longrightarrow> pushes c (log @ minted env now c') c''"

definition cache_ok :: "(time \<times> string) list \<Rightarrow> Client \<Rightarrow> bool" where
  "cache_ok log c \<longleftrightarrow> (jwt c \<noteq> [] \<longrightarrow> (\<exists>t. (t, jwt c) \<in> set log \<and> jwtExp c = t + minutes 55))"

lemma getJWT_ok:
  assumes "getJWT env now c = (r, c')" "cache_ok log c"
  shows "cache_ok (log @ minted env now c) c' \<and>
         (\<forall>token. r = Inr token \<longrightarrow> (\<exists>t. (t, token) \<in> set (log @ minted env now c) \<and> now < t + minutes 55))"
proof (cases "jwt c \<noteq> [] \<and> now < jwtExp c")
  case True
  then show ?thesis using assms by (auto simp: getJWT_def cache_ok_def minted_def)
next
  case False
  show ?thesis
  proof (cases "buildJWT env c now")
    case (Inl e)
    then have "minted env now c = []" "getJWT env now c = (Inl e, c)"
      using False by (auto simp: getJWT_def minted_def)
    then show ?thesis using assms by simp
  next
    case (Inr t)
    then have "minted env now c = [(now, t)]" "getJWT env now c = (Inr t, c\<lparr>jwt := t, jwtExp := now + minutes 55\<rparr>)"
      using False by (auto simp: getJWT_def minted_def)
    moreover have "now < now + minutes 55" by (simp add: minutes_def)
    ultimately show ?thesis using assms(1) by (auto simp: cache_ok_def)
  qed
qed

lemma cache_ok_invalidate: "cache_ok log (invalidateJWT c)"
  by (simp add: cache_ok_def invalidateJWT_def)

lemma push_ok:
  assumes "push env now c req c'" "cache_ok log c"
  shows "cache_ok (log @ minted env now c) c' \<and>
         (\<forall>q. req = Some q \<longrightarrow>
            (\<exists>t token. map_of (ar_Headers q) ''Authorization'' = Some (''Bearer '' @ token) \<and>
               (t, token) \<in> set (log @ minted env now c) \<and> now < t + minutes 55))"
  using assms
proof cases
  case (push_alert tok alert err)
  obtain r c1 where g: "getJWT env now c = (r, c1)" by force
  note ok = getJWT_ok [OF g assms(2)]
  show ?thesis
  proof (cases r)
    case (Inl e)
    then show ?thesis using push_alert g ok by (simp add: Send_def)
  next
    case (Inr token)
    then have "req = Some (alert_request c1 now token tok alert)" "c' = c1 \<or> c' = invalidateJWT c1"
      using push_alert g by (auto simp: Send_def Let_def split: sum.splits prod.splits if_splits)
    then show ?thesis
      using ok Inr cache_ok_invalidate by (auto simp: alert_request_def)
  qed
next
  case (push_activity tok st stale err)
  obtain r c1 where g: "getJWT env now c = (r, c1)" by force
  note ok = getJWT_ok [OF g assms(2)]
  show ?thesis
  proof (cases r)
    case (Inl e)
    then show ?thesis using push_activity g ok by (simp add: SendLiveActivity_def)
  next
    case (Inr token)
    then have "req = Some (activity_request c1 now token tok st stale)" "c' = c1 \<or> c' = invalidateJWT c1"
      using push_activity g by (auto simp: SendLiveActivity_def Let_def split: sum.splits prod.splits if_splits)
    then show ?thesis
      using ok Inr cache_ok_invalidate by (auto simp: activity_request_def)
  qed
qed

lemma pushes_ok: "pushes c log c' \<Longrightarrow> cache_ok [] c \<Longrightarrow> cache_ok log c'"
  by (induction rule: pushes.induct) (auto dest: push_ok)

section \<open>Properties\<close>

text \<open>
  C20: no stale provider token. In every history of a new client, with any answers of Apple and of
  the signer, every request sent at an instant carries a bearer token that the history, or this
  push itself, really built, at an instant less than 55 minutes before (Apple accepts a token for 60
  minutes).
\<close>

theorem provider_token_fresh:
  assumes "New_Client ECDSA kid tid bid = Inr c" "pushes c log c'" "push env now c' (Some q) c''"
  shows "\<exists>t token. map_of (ar_Headers q) ''Authorization'' = Some (''Bearer '' @ token) \<and>
           (t, token) \<in> set (log @ minted env now c') \<and> now < t + minutes 55"
proof -
  have "cache_ok [] c" using assms(1) by (auto simp: New_Client_def cache_ok_def)
  from push_ok [OF assms(3) pushes_ok [OF assms(2) this]] show ?thesis by blast
qed

definition sample_apns :: apns_env where
  "sample_apns = \<lparr>ae_marshal = (\<lambda>j. ''{}''), ae_sign = (\<lambda>s. Inr (''r'', ''s'')), ae_answer = Inr (200, [])\<rparr>"

definition sample_client :: Client where
  "sample_client = \<lparr>keyID = ''K'', teamID = ''T'', bundleID = ''app'', jwt = [], jwtExp = 0\<rparr>"

definition sample_alert :: Alert where
  "sample_alert = \<lparr>Title = ''t'', Body = ''b'', SessionID = ''s'', Category = [], CollapseID = ''perm:s''\<rparr>"

text \<open>Two alerts: the second is sent 54 minutes later with the token that the first one built.\<close>

theorem provider_token_fresh_witness:
  "\<exists>log c1 q c2. length log = 1 \<and> pushes sample_client log c1 \<and> minted sample_apns (minutes 54) c1 = [] \<and>
     push sample_apns (minutes 54) c1 (Some q) c2 \<and>
     (\<exists>t token. map_of (ar_Headers q) ''Authorization'' = Some (''Bearer '' @ token) \<and>
        (t, token) \<in> set log \<and> minutes 54 < t + minutes 55)"
proof -
  have new: "New_Client ECDSA ''K'' ''T'' ''app'' = Inr sample_client"
    by (simp add: New_Client_def sample_client_def)
  obtain tok where tok: "buildJWT sample_apns sample_client 0 = Inr tok" "tok \<noteq> []"
    by (simp add: buildJWT_def sample_apns_def Let_def)
  let ?c1 = "sample_client\<lparr>jwt := tok, jwtExp := minutes 55\<rparr>"
  let ?q = "\<lambda>now. alert_request ?c1 now tok ''d'' sample_alert"
  have s1: "Send sample_apns 0 ''d'' sample_alert sample_client = (None, ?c1, Some (?q 0))"
    using tok by (simp add: Send_def getJWT_def) (simp add: sample_apns_def sample_client_def Let_def)
  have lt: "minutes 54 < minutes 55" by (simp add: minutes_def)
  have s2: "Send sample_apns (minutes 54) ''d'' sample_alert ?c1 = (None, ?c1, Some (?q (minutes 54)))"
    using tok lt by (simp add: Send_def getJWT_def) (simp add: sample_apns_def Let_def)
  have m: "minted sample_apns 0 sample_client = [(0, tok)]" "minted sample_apns (minutes 54) ?c1 = []"
    using tok lt by (simp_all add: minted_def sample_client_def)
  have p: "pushes sample_client [(0, tok)] ?c1"
    using pushes_step [OF pushes_refl push_alert [OF s1]] m(1) by simp
  have "\<exists>t token. map_of (ar_Headers (?q (minutes 54))) ''Authorization'' = Some (''Bearer '' @ token) \<and>
        (t, token) \<in> set [(0, tok)] \<and> minutes 54 < t + minutes 55"
    using provider_token_fresh [OF new p push_alert [OF s2]] unfolding m(2) append_Nil2 .
  with p push_alert [OF s2] m(2) show ?thesis by (intro exI [of _ "[(0, tok)]"]) auto
qed

text \<open>
  The outcome of an alert. Once a token is available a request is sent; the device token is
  reported dead exactly for status 410 or reason BadDeviceToken; success is exactly status 200; a
  403 empties the token cache so that the next push builds a new one; and the collapse id of the
  request is at most 64 bytes.
\<close>

theorem Send_outcome:
  assumes "getJWT env now c = (Inr token, c1)" "ae_answer env = Inr (code, reason)"
    and "Send env now tok alert c = (err, c2, req)"
  shows "req = Some (alert_request c1 now token tok alert) \<and>
         (err = None \<longleftrightarrow> code = 200) \<and>
         ((\<exists>k r. err = Some (ErrTokenInvalid k r)) \<longleftrightarrow> code = 410 \<or> code \<noteq> 200 \<and> reason = ''BadDeviceToken'') \<and>
         c2 = (if code = 403 then invalidateJWT c1 else c1) \<and>
         (\<forall>v. (''apns-collapse-id'', v) \<in> set (ar_Headers (alert_request c1 now token tok alert)) \<longrightarrow>
            length v \<le> 64)"
proof -
  have "\<forall>v. (''apns-collapse-id'', v) \<in> set (ar_Headers (alert_request c1 now token tok alert)) \<longrightarrow> length v \<le> 64"
    by (auto simp: alert_request_def collapse_headers_def)
  then show ?thesis
    using assms by (auto simp: Send_def Let_def split: if_splits)
qed

theorem Send_outcome_witness:
  "\<exists>c2 req. Send (sample_apns\<lparr>ae_answer := Inr (410, ''Unregistered'')\<rparr>) 0 ''d'' sample_alert
        (sample_client\<lparr>jwt := ''tok'', jwtExp := 10\<rparr>) = (Some (ErrTokenInvalid 410 ''Unregistered''), c2, req) \<and>
     c2 = sample_client\<lparr>jwt := ''tok'', jwtExp := 10\<rparr> \<and> req \<noteq> None"
proof -
  let ?env = "sample_apns\<lparr>ae_answer := Inr (410, ''Unregistered'')\<rparr>"
  let ?c = "sample_client\<lparr>jwt := ''tok'', jwtExp := 10\<rparr>"
  have g: "getJWT ?env 0 ?c = (Inr ''tok'', ?c)" by (simp add: getJWT_def)
  obtain err c2 req where r: "Send ?env 0 ''d'' sample_alert ?c = (err, c2, req)" by (metis prod_cases3)
  have "fst (Send ?env 0 ''d'' sample_alert ?c) = Some (ErrTokenInvalid 410 ''Unregistered'')"
    by (simp add: Send_def g Let_def)
  then show ?thesis using Send_outcome [OF g _ r, of 410 "''Unregistered''"] r by simp
qed

end
