(* ===== verification/Session_Hub.thy ===== *)
theory Session_Hub
  imports Apns Detector Go_Path "HOL-Library.AList"
begin

text \<open>
  \<^verbatim>\<open>internal/relay/session.go\<close> and \<^verbatim>\<open>internal/relay/hub.go\<close>: the sessions the relay keeps, the
  tmux sessions it discovers, the registered devices, activities and clients, and what is sent to
  them. Maps of the hub are Isabelle maps (or keyed lists where the order of iteration shows);
  what tmux prints and what Apple answers is a parameter.
\<close>

section \<open>Sessions\<close>

type_synonym SessionStatus = string

definition StatusRunning :: SessionStatus where "StatusRunning = ''running''"
definition StatusIdle :: SessionStatus where "StatusIdle = ''idle''"
definition StatusFinished :: SessionStatus where "StatusFinished = ''finished''"

record SessionRecord =
  sr_Name :: string
  sr_Type :: string
  sr_Status :: SessionStatus
  sr_WorkingDirectory :: string
  sr_Project :: string
  sr_LastActivity :: time
  sr_Source :: string

definition NewSession :: "time \<Rightarrow> string \<Rightarrow> string \<Rightarrow> SessionRecord" where
  "NewSession now name cwd =
     \<lparr>sr_Name = name, sr_Type = ''claudeCode'', sr_Status = StatusIdle, sr_WorkingDirectory = cwd,
      sr_Project = [], sr_LastActivity = now, sr_Source = []\<rparr>"

definition projectFromCWD :: "string \<Rightarrow> string" where
  "projectFromCWD cwd =
     (case Index cwd ''/projects/'' of
        None \<Rightarrow> []
      | Some idx \<Rightarrow>
          (let rest = drop (idx + length ''/projects/'') cwd
           in case Index rest ''/'' of None \<Rightarrow> rest | Some i \<Rightarrow> take i rest))"

definition GetRecord :: "SessionRecord \<Rightarrow> SessionRecord" where
  "GetRecord s = s\<lparr>sr_Project := projectFromCWD (sr_WorkingDirectory s)\<rparr>"

section \<open>The hub\<close>

definition maxDeviceTokens :: nat where
  "maxDeviceTokens = 10"

text \<open>The buffer of a client's status channel.\<close>

definition client_cap :: nat where
  "client_cap = 16"

text \<open>
  \<open>hub_sessions\<close> and \<open>hub_clients\<close> are association lists with distinct keys: their order is the
  order a Go \<^verbatim>\<open>range\<close> may take. \<open>hub_apns\<close> tells whether APNs is configured.
\<close>

record Hub =
  hub_sessions :: "(string \<times> SessionRecord) list"
  hub_deviceTokens :: "string list"
  hub_apns :: bool
  hub_activityTokens :: "string \<rightharpoonup> string"
  hub_clients :: "(string \<times> json list) list"
  hub_notifiedPermIDs :: "string list"

definition NewHub :: "bool \<Rightarrow> Hub" where
  "NewHub apns =
     \<lparr>hub_sessions = [], hub_deviceTokens = [], hub_apns = apns, hub_activityTokens = Map.empty,
      hub_clients = [], hub_notifiedPermIDs = []\<rparr>"

definition RegisterClient :: "string \<Rightarrow> json list \<Rightarrow> Hub \<Rightarrow> Hub" where
  "RegisterClient clientID ch h = h\<lparr>hub_clients := AList.update clientID ch (hub_clients h)\<rparr>"

definition UnregisterClient :: "string \<Rightarrow> Hub \<Rightarrow> Hub" where
  "UnregisterClient clientID h = h\<lparr>hub_clients := AList.delete clientID (hub_clients h)\<rparr>"

interpretation clients: keyed_store "\<lambda>h. map_of (hub_clients h)" RegisterClient UnregisterClient
  by unfold_locales (auto simp: RegisterClient_def UnregisterClient_def update_conv' delete_conv')

section \<open>Discovery\<close>

definition mergeDiscovered :: "SessionRecord list \<Rightarrow> SessionRecord list \<Rightarrow> SessionRecord list" where
  "mergeDiscovered relayRecords discovered =
     (let relayNames = map sr_Name relayRecords;
          relayProjects = filter (\<lambda>p. p \<noteq> []) (map sr_Project relayRecords)
      in relayRecords @
         filter (\<lambda>sys.
           let logical = TrimPrefix (sr_Name sys) ''cx-''
           in \<not> (sr_Name sys \<in> set relayNames \<or> sr_Name sys \<in> set relayProjects \<or>
                 logical \<in> set relayNames \<or> logical \<in> set relayProjects)) discovered)"

definition discoverableNameRe :: "string \<Rightarrow> bool" where
  "discoverableNameRe = matches_class name_char 1 64"

text \<open>\<open>isdir\<close> tells whether \<^verbatim>\<open>/run/user/<uid>\<close> is a directory.\<close>

definition tmuxSocketDir :: "string \<Rightarrow> int \<Rightarrow> (string \<Rightarrow> bool) \<Rightarrow> string" where
  "tmuxSocketDir goos uid isdir =
     (if goos \<noteq> ''linux'' then []
      else if 0 < uid then
        (let dir = ''/run/user/'' @ Itoa uid in if isdir dir then dir else [])
      else [])"

definition tmuxDiscoveryCommand :: "string \<Rightarrow> string list \<Rightarrow> string \<Rightarrow> string list \<times> string list" where
  "tmuxDiscoveryCommand dir environ fmt =
     ([''tmux'', ''list-sessions'', ''-F'', fmt],
      if dir \<noteq> [] then environ @ [''TMUX_TMPDIR='' @ dir] else environ)"

definition zero_time :: time where
  "zero_time = - 62135596800 * 10 ^ 9"

abbreviation tab :: char where
  "tab \<equiv> CHR 0x09"

definition discovered_record :: "string \<Rightarrow> SessionRecord option" where
  "discovered_record line =
     (if line = [] then None
      else case SplitN line tab 3 of
        [name, act, attached] \<Rightarrow>
          if \<not> discoverableNameRe name then None
          else Some \<lparr>sr_Name = name, sr_Type = ''terminal'',
                     sr_Status = (if attached \<noteq> ''0'' then StatusRunning else ''detached''),
                     sr_WorkingDirectory = [], sr_Project = [],
                     sr_LastActivity = (case Atoi act of None \<Rightarrow> zero_time | Some ts \<Rightarrow> ts * 10 ^ 9),
                     sr_Source = ''system''\<rparr>
      | _ \<Rightarrow> None)"

text \<open>\<open>out\<close> is the output of tmux, \<open>None\<close> when the command failed or ran out of time.\<close>

definition discoverTmuxSessions :: "string option \<Rightarrow> SessionRecord list" where
  "discoverTmuxSessions out =
     (case out of
        None \<Rightarrow> []
      | Some s \<Rightarrow> List.map_filter discovered_record (Split (TrimSpace s) (CHR 0x0A)))"

definition relay_record :: "SessionRecord \<Rightarrow> SessionRecord" where
  "relay_record s = (GetRecord s)\<lparr>sr_Source := ''relay''\<rparr>"

definition ListSessions :: "string option \<Rightarrow> Hub \<Rightarrow> SessionRecord list" where
  "ListSessions out h =
     mergeDiscovered (map (\<lambda>(n, s). relay_record s) (hub_sessions h)) (discoverTmuxSessions out)"

section \<open>Session operations\<close>

definition validateWorkingDir :: "string \<Rightarrow> string option" where
  "validateWorkingDir dir =
     (if dir = [] then None
      else
        (let clean = Clean dir
         in if Contains clean ''..'' then Some ''working directory must not contain ..''
            else if list_ex (HasPrefix clean) [''/home/'', ''/root/'', ''/tmp/'', ''/var/'', ''/Users/''] then None
            else Some ''working directory must be under /home/, /Users/, /root/, /tmp/, or /var/''))"

definition CreateSession ::
  "time \<Rightarrow> string \<Rightarrow> string \<Rightarrow> string \<Rightarrow> Hub \<Rightarrow> SessionRecord result \<times> Hub" where
  "CreateSession now name cwd sessionType h =
     (case map_of (hub_sessions h) name of
        Some s \<Rightarrow> (Inr s, h)
      | None \<Rightarrow>
          (case validateWorkingDir cwd of
             Some e \<Rightarrow> (Inl (''invalid cwd: '' @ e), h)
           | None \<Rightarrow>
               (let s = (NewSession now name cwd)\<lparr>sr_Type := sessionType\<rparr>
                in (Inr s, h\<lparr>hub_sessions := AList.update name s (hub_sessions h)\<rparr>))))"

definition GetSession :: "string \<Rightarrow> Hub \<Rightarrow> SessionRecord option" where
  "GetSession name h = map_of (hub_sessions h) name"

definition DeleteSession :: "string \<Rightarrow> Hub \<Rightarrow> Hub" where
  "DeleteSession name h = h\<lparr>hub_sessions := AList.delete name (hub_sessions h)\<rparr>"

definition put_session :: "string \<Rightarrow> SessionRecord \<Rightarrow> Hub \<Rightarrow> Hub" where
  "put_session name s h = h\<lparr>hub_sessions := AList.update name s (hub_sessions h)\<rparr>"

interpretation sessions: keyed_store "\<lambda>h n. GetSession n h" put_session DeleteSession
  by unfold_locales (auto simp: GetSession_def put_session_def DeleteSession_def update_conv' delete_conv')

section \<open>Devices and activities\<close>

definition RegisterDevice :: "string \<Rightarrow> Hub \<Rightarrow> Hub" where
  "RegisterDevice token h =
     (if token \<in> set (hub_deviceTokens h) then h
      else
        (let tokens = (if maxDeviceTokens \<le> length (hub_deviceTokens h)
                       then drop 1 (hub_deviceTokens h) else hub_deviceTokens h)
         in h\<lparr>hub_deviceTokens := tokens @ [token]\<rparr>))"

definition RegisterActivity :: "string \<Rightarrow> string \<Rightarrow> Hub \<Rightarrow> Hub" where
  "RegisterActivity sessionName token h =
     (if token = [] then h\<lparr>hub_activityTokens := (hub_activityTokens h)(sessionName := None)\<rparr>
      else h\<lparr>hub_activityTokens := (hub_activityTokens h)(sessionName \<mapsto> token)\<rparr>)"

section \<open>Publishing\<close>

definition statusDisplayLabel :: "SessionStatus \<Rightarrow> string" where
  "statusDisplayLabel s =
     (if s = StatusRunning then ''Running''
      else if s = StatusIdle then ''Idle''
      else if s = StatusFinished then ''Finished''
      else s)"

text \<open>
  \<open>rfc\<close> formats an instant. A Live Activity push is the token and content it is sent with; it runs
  in a goroutine of its own, whose end is \<open>activity_done\<close>.
\<close>

definition live_activity :: "(time \<Rightarrow> string) \<Rightarrow> string \<Rightarrow> SessionStatus \<Rightarrow> time \<Rightarrow> Hub \<Rightarrow> (string \<times> json) option" where
  "live_activity rfc name status lastActivity h =
     (if \<not> hub_apns h then None
      else case hub_activityTokens h name of
        None \<Rightarrow> None
      | Some token \<Rightarrow>
          if token = [] then None
          else Some (token, JObj [(''status'', JStr (statusDisplayLabel status)),
                                  (''isRunning'', JBool (status = StatusRunning)),
                                  (''lastActivityAt'', JStr (rfc lastActivity))]))"

definition activity_done :: "string \<Rightarrow> send_error option \<Rightarrow> Hub \<Rightarrow> Hub" where
  "activity_done name err h =
     (case err of
        None \<Rightarrow> h
      | Some e \<Rightarrow>
          if Contains (error_text e) ''410''
          then h\<lparr>hub_activityTokens := (hub_activityTokens h)(name := None)\<rparr> else h)"

definition status_message :: "(time \<Rightarrow> string) \<Rightarrow> string \<Rightarrow> SessionStatus \<Rightarrow> time \<Rightarrow> json" where
  "status_message rfc name status lastActivity =
     JObj [(''type'', JStr ''session_status''), (''session'', JStr name), (''status'', JStr status),
           (''lastActivity'', JStr (rfc lastActivity))]"

definition PublishStatus ::
  "(time \<Rightarrow> string) \<Rightarrow> string \<Rightarrow> SessionStatus \<Rightarrow> time \<Rightarrow> Hub \<Rightarrow> (string \<times> json) option \<times> Hub" where
  "PublishStatus rfc name status lastActivity h =
     (let msg = status_message rfc name status lastActivity;
          h1 = h\<lparr>hub_clients := map (\<lambda>(c, ch). (c, try_send client_cap msg ch)) (hub_clients h)\<rparr>
      in (live_activity rfc name status lastActivity h1, h1))"

section \<open>The detector loop\<close>

text \<open>Later records of a name replace earlier ones, as the assignments to the Go map do.\<close>

definition SessionActivitySnapshot :: "string option \<Rightarrow> (string \<rightharpoonup> time)" where
  "SessionActivitySnapshot out =
     fold (\<lambda>rec m. m(sr_Name rec \<mapsto> sr_LastActivity rec)) (discoverTmuxSessions out) Map.empty"

text \<open>
  Ranging over a Go map meets every key once, in an order the language leaves open: \<open>order\<close> is
  that order, and \<open>range_map\<close> the pairs that the loop sees.
\<close>

definition range_order :: "(string \<rightharpoonup> 'v) \<Rightarrow> string list \<Rightarrow> bool" where
  "range_order m order \<longleftrightarrow> distinct order \<and> set order = dom m"

definition range_map :: "(string \<rightharpoonup> 'v) \<Rightarrow> string list \<Rightarrow> (string \<times> 'v) list" where
  "range_map m order = List.map_filter (\<lambda>k. map_option (Pair k) (m k)) order"

definition status_of_state :: "State \<Rightarrow> SessionStatus" where
  "status_of_state st = (if st = Working then StatusRunning else StatusIdle)"

fun publish_changes ::
  "(time \<Rightarrow> string) \<Rightarrow> Change list \<Rightarrow> Hub \<Rightarrow> (string \<times> json) list \<times> Hub" where
  "publish_changes rfc [] h = ([], h)"
| "publish_changes rfc (c # cs) h =
     (let (p, h1) = PublishStatus rfc (change_Name c) (status_of_state (change_State c)) (change_LastActivity c) h;
          (ps, h2) = publish_changes rfc cs h1
      in ((case p of None \<Rightarrow> ps | Some x \<Rightarrow> x # ps), h2))"

definition detector_tick ::
  "(time \<Rightarrow> string) \<Rightarrow> time \<Rightarrow> string list \<Rightarrow> string option \<Rightarrow> Tracker \<times> Hub \<Rightarrow>
   (string \<times> json) list \<times> Tracker \<times> Hub" where
  "detector_tick rfc now order out s =
     (let (changes, t) = Update now (range_map (SessionActivitySnapshot out) order) (fst s);
          (pushes, h) = publish_changes rfc changes (snd s)
      in (pushes, t, h))"

section \<open>Permission notifications\<close>

definition permission_alert :: "string \<Rightarrow> string \<Rightarrow> Alert" where
  "permission_alert sessionName toolName =
     \<lparr>Title = sessionName,
      Body = (if toolName \<noteq> [] then toolName @ '' is waiting for your approval''
              else ''A tool is waiting for your approval''),
      SessionID = sessionName, Category = ''SESSION_PERMISSION'', CollapseID = ''perm:'' @ sessionName\<rparr>"

text \<open>The alert that is handed to \<open>sendAlert\<close>, if any.\<close>

definition NotifyPermission :: "string \<Rightarrow> string \<Rightarrow> string \<Rightarrow> Hub \<Rightarrow> Alert option \<times> Hub" where
  "NotifyPermission sessionName toolName requestID h =
     (if \<not> hub_apns h then (None, h)
      else if requestID \<in> set (hub_notifiedPermIDs h) then (None, h)
      else
        (let ids = requestID # hub_notifiedPermIDs h;
             ids = (if 256 < length ids then [requestID] else ids)
         in (Some (permission_alert sessionName toolName), h\<lparr>hub_notifiedPermIDs := ids\<rparr>)))"

text \<open>
  \<open>sendAlert\<close> starts one goroutine per token of a snapshot of the tokens; \<open>alert_done\<close> is the end
  of one of them. They end in any order, and devices may be registered in between.
\<close>

definition sendAlert :: "Alert \<Rightarrow> Hub \<Rightarrow> (string \<times> Alert) list" where
  "sendAlert alert h = map (\<lambda>tok. (tok, alert)) (hub_deviceTokens h)"

fun is_token_invalid :: "send_error option \<Rightarrow> bool" where
  "is_token_invalid (Some (ErrTokenInvalid _ _)) = True"
| "is_token_invalid _ = False"

definition alert_done :: "string \<Rightarrow> send_error option \<Rightarrow> Hub \<Rightarrow> Hub" where
  "alert_done tok err h =
     (if is_token_invalid err then h\<lparr>hub_deviceTokens := remove1 tok (hub_deviceTokens h)\<rparr> else h)"

end
