(* ===== verification/Session_Hub_Proofs.thy ===== *)
theory Session_Hub_Proofs
  imports Session_Hub
begin

text \<open>
  The properties of the session hub (\<^verbatim>\<open>internal/relay/hub.go\<close>): its invariant over every
  interleaving of operations, the merged session list, alerts and their dead tokens, permission
  notifications, a tick of the detector, the output of tmux, and working directories.
\<close>

section \<open>The invariant of the hub\<close>

text \<open>Every operation of the hub, the ends of its goroutines, and a client's writer taking a message.\<close>

inductive hub_step :: "Hub \<Rightarrow> Hub \<Rightarrow> bool" where
  "hub_step h (RegisterClient cid [] h)"
| "hub_step h (UnregisterClient cid h)"
| "map_of (hub_clients h) cid = Some ch \<Longrightarrow> hub_step h (RegisterClient cid (drop 1 ch) h)"
| "hub_step h (snd (CreateSession now name cwd ty h))"
| "hub_step h (DeleteSession name h)"
| "hub_step h (RegisterDevice tok h)"
| "hub_step h (RegisterActivity name tok h)"
| "hub_step h (snd (PublishStatus rfc name st la h))"
| "hub_step h (activity_done name err h)"
| "hub_step h (snd (NotifyPermission name tool rid h))"
| "hub_step h (alert_done tok err h)"

definition session_ok :: "string \<times> SessionRecord \<Rightarrow> bool" where
  "session_ok ns \<longleftrightarrow> sr_Name (snd ns) = fst ns \<and> validateWorkingDir (sr_WorkingDirectory (snd ns)) = None"

definition hub_inv :: "Hub \<Rightarrow> bool" where
  "hub_inv h \<longleftrightarrow>
     distinct (map fst (hub_sessions h)) \<and> list_all session_ok (hub_sessions h) \<and>
     distinct (hub_deviceTokens h) \<and> length (hub_deviceTokens h) \<le> 10 \<and>
     distinct (map fst (hub_clients h)) \<and> list_all (\<lambda>(c, ch). length ch \<le> 16) (hub_clients h) \<and>
     distinct (hub_notifiedPermIDs h) \<and> length (hub_notifiedPermIDs h) \<le> 256 \<and>
     [] \<notin> ran (hub_activityTokens h)"

lemma list_all_update: "list_all P xs \<Longrightarrow> P (k, v) \<Longrightarrow> list_all P (AList.update k v xs)"
  by (induction xs) auto

lemma list_all_delete: "list_all P xs \<Longrightarrow> list_all P (AList.delete k xs)"
  by (auto simp: list_all_iff AList.delete_eq)

lemma ran_upd_None: "x \<notin> ran m \<Longrightarrow> x \<notin> ran (m(k := None))"
  by (auto simp: ran_def)

lemma map_fst_upd: "map (fst \<circ> (\<lambda>(c, ch). (c, f ch))) xs = map fst xs"
  by (induction xs) auto

lemma client_length:
  "list_all (\<lambda>(c, ch). length ch \<le> 16) cs \<Longrightarrow> map_of cs cid = Some ch \<Longrightarrow> length (ch :: json list) \<le> 16"
  by (auto simp: list_all_iff dest: map_of_SomeD)

lemma hub_inv_step: "hub_inv h \<Longrightarrow> hub_step h h' \<Longrightarrow> hub_inv h'"
proof (erule hub_step.cases)
  fix g cid ch
  assume "hub_inv h" "h = g" "h' = RegisterClient cid (drop 1 ch) g" "map_of (hub_clients g) cid = Some ch"
  then show "hub_inv h'"
    using client_length [of "hub_clients g" cid ch]
    by (auto simp: hub_inv_def RegisterClient_def distinct_update list_all_update)
next
  fix g now name cwd ty
  assume "hub_inv h" "h = g" "h' = snd (CreateSession now name cwd ty g)"
  then show "hub_inv h'"
    by (auto simp: hub_inv_def CreateSession_def distinct_update list_all_update session_ok_def NewSession_def
        Let_def split: option.splits)
next
  fix g tok
  assume "hub_inv h" "h = g" "h' = RegisterDevice tok g"
  then show "hub_inv h'"
    by (auto simp: hub_inv_def RegisterDevice_def maxDeviceTokens_def Let_def distinct_drop dest: in_set_dropD)
next
  fix g name tok
  assume "hub_inv h" "h = g" "h' = RegisterActivity name tok g"
  then show "hub_inv h'"
    by (auto simp: hub_inv_def RegisterActivity_def ran_def split: if_splits)
next
  fix g rfc name st la
  assume "hub_inv h" "h = g" "h' = snd (PublishStatus rfc name st la g)"
  then show "hub_inv h'"
    by (auto simp: map_fst_upd hub_inv_def PublishStatus_def Let_def list_all_iff client_cap_def intro: length_try_send)
next
  fix g name err
  assume "hub_inv h" "h = g" "h' = activity_done name err g"
  then show "hub_inv h'"
    by (auto simp: hub_inv_def activity_done_def ran_upd_None split: option.splits)
next
  fix g name tool rid
  assume "hub_inv h" "h = g" "h' = snd (NotifyPermission name tool rid g)"
  then show "hub_inv h'"
    by (auto simp: hub_inv_def NotifyPermission_def Let_def)
next
  fix g tok err
  assume "hub_inv h" "h = g" "h' = alert_done tok err g"
  then show "hub_inv h'"
    using length_remove1 [of tok "hub_deviceTokens g"]
    by (auto simp: hub_inv_def alert_done_def distinct_remove1)
qed (auto simp: hub_inv_def RegisterClient_def UnregisterClient_def DeleteSession_def distinct_update
      distinct_delete list_all_update list_all_delete)

definition hub_start :: "Hub \<Rightarrow> bool" where
  "hub_start h \<longleftrightarrow> (\<exists>apns. h = NewHub apns)"

interpretation hub_system: invariant_system hub_start hub_step hub_inv
proof
  show "hub_start h \<Longrightarrow> hub_inv h" for h by (auto simp: hub_start_def hub_inv_def NewHub_def)
qed (rule hub_inv_step)

section \<open>Properties\<close>

text \<open>
  C21: the hub stays bounded and consistent. Whatever is registered, created, published and
  answered, in any order: sessions have distinct names and accepted working directories; at most
  ten device tokens, all different; at most 16 undelivered messages per client; at most 256
  remembered permission prompts; and no empty activity token is kept.
\<close>

theorem hub_bounded:
  assumes "hub_step\<^sup>*\<^sup>* (NewHub apns) h"
  shows "distinct (map fst (hub_sessions h)) \<and> list_all session_ok (hub_sessions h) \<and>
         distinct (hub_deviceTokens h) \<and> length (hub_deviceTokens h) \<le> 10 \<and>
         distinct (map fst (hub_clients h)) \<and> list_all (\<lambda>(c, ch). length ch \<le> 16) (hub_clients h) \<and>
         distinct (hub_notifiedPermIDs h) \<and> length (hub_notifiedPermIDs h) \<le> 256 \<and>
         [] \<notin> ran (hub_activityTokens h)"
  using hub_system.reachable_inv [OF _ assms] by (auto simp: hub_start_def hub_inv_def)

theorem hub_bounded_witness:
  "hub_step\<^sup>*\<^sup>* (NewHub True) (RegisterDevice ''aa'' (NewHub True)) \<and>
   hub_deviceTokens (RegisterDevice ''aa'' (NewHub True)) = [''aa''] \<and>
   length (hub_deviceTokens (RegisterDevice ''aa'' (NewHub True))) \<le> 10"
proof -
  have r: "hub_step\<^sup>*\<^sup>* (NewHub True) (RegisterDevice ''aa'' (NewHub True))"
    by (rule r_into_rtranclp) (rule hub_step.intros)
  show ?thesis using hub_bounded [OF r] r by (simp add: RegisterDevice_def NewHub_def maxDeviceTokens_def)
qed


text \<open>
  The session list. When the relay's records have distinct names and tmux reports distinct
  names, the merged list has distinct names, starts with the relay's records unchanged, and
  contains a discovered session exactly when no relay record has its name or project, with or
  without the prefix \<^verbatim>\<open>cx-\<close>.
\<close>

theorem merge_no_duplicates:
  assumes "distinct (map sr_Name rs)" "distinct (map sr_Name ds)"
  shows "distinct (map sr_Name (mergeDiscovered rs ds)) \<and>
         take (length rs) (mergeDiscovered rs ds) = rs \<and>
         (\<forall>d \<in> set ds. d \<in> set (drop (length rs) (mergeDiscovered rs ds)) \<longleftrightarrow>
            (\<forall>r \<in> set rs. \<forall>n \<in> {sr_Name d, TrimPrefix (sr_Name d) ''cx-''}.
               n \<noteq> sr_Name r \<and> (sr_Project r = [] \<or> n \<noteq> sr_Project r)))"
proof -
  let ?keep = "\<lambda>sys. let logical = TrimPrefix (sr_Name sys) ''cx-''
           in \<not> (sr_Name sys \<in> set (map sr_Name rs) \<or> sr_Name sys \<in> set (filter (\<lambda>p. p \<noteq> []) (map sr_Project rs)) \<or>
                 logical \<in> set (map sr_Name rs) \<or> logical \<in> set (filter (\<lambda>p. p \<noteq> []) (map sr_Project rs)))"
  have m: "mergeDiscovered rs ds = rs @ filter ?keep ds"
    by (simp add: mergeDiscovered_def Let_def)
  have "distinct (map sr_Name (filter ?keep ds))"
    using assms(2) by (rule distinct_map_filter)
  moreover have "sr_Name d \<notin> set (map sr_Name rs)" if "d \<in> set (filter ?keep ds)" for d
    using that by (simp add: Let_def)
  then have "set (map sr_Name rs) \<inter> set (map sr_Name (filter ?keep ds)) = {}"
    unfolding disjoint_iff by (simp only: set_map) blast
  ultimately have "distinct (map sr_Name (mergeDiscovered rs ds))"
    using assms(1) by (simp only: m map_append distinct_append)
  moreover have "d \<in> set (filter ?keep ds) \<longleftrightarrow>
      (\<forall>r \<in> set rs. \<forall>n \<in> {sr_Name d, TrimPrefix (sr_Name d) ''cx-''}.
         n \<noteq> sr_Name r \<and> (sr_Project r = [] \<or> n \<noteq> sr_Project r))" if "d \<in> set ds" for d
    using that by (auto simp: Let_def)
  ultimately show ?thesis by (simp add: m del: filter_set)
qed

definition sample_record :: "string \<Rightarrow> SessionRecord" where
  "sample_record n =
     \<lparr>sr_Name = n, sr_Type = ''terminal'', sr_Status = ''detached'', sr_WorkingDirectory = [],
      sr_Project = [], sr_LastActivity = 0, sr_Source = ''system''\<rparr>"

theorem merge_no_duplicates_witness:
  "let l = mergeDiscovered [sample_record ''a''] [sample_record ''cx-a'', sample_record ''b'']
   in distinct (map sr_Name l) \<and> take 1 l = [sample_record ''a''] \<and>
      sample_record ''cx-a'' \<notin> set (drop 1 l) \<and> sample_record ''b'' \<in> set (drop 1 l)"
proof -
  have "distinct (map sr_Name [sample_record ''a''])"
    "distinct (map sr_Name [sample_record ''cx-a'', sample_record ''b''])"
    by (simp_all add: sample_record_def)
  from merge_no_duplicates [OF this] show ?thesis
    by (simp add: sample_record_def TrimPrefix_def)
qed

definition finish_alerts :: "(string \<Rightarrow> send_error option) \<Rightarrow> string list \<Rightarrow> Hub \<Rightarrow> Hub" where
  "finish_alerts answer order h = fold (\<lambda>tok. alert_done tok (answer tok)) order h"

lemma finish_alerts_tokens:
  "distinct (hub_deviceTokens h) \<Longrightarrow>
     hub_deviceTokens (finish_alerts answer order h) =
       filter (\<lambda>t. t \<notin> set order \<or> \<not> is_token_invalid (answer t)) (hub_deviceTokens h)"
proof (induction order arbitrary: h)
  case Nil
  then show ?case by (simp add: finish_alerts_def)
next
  case (Cons t ts)
  have d: "distinct (hub_deviceTokens (alert_done t (answer t) h))"
    using Cons.prems by (simp add: alert_done_def distinct_remove1)
  have rm: "hub_deviceTokens (alert_done t (answer t) h) =
      filter (\<lambda>x. x = t \<longrightarrow> \<not> is_token_invalid (answer t)) (hub_deviceTokens h)"
    using Cons.prems by (auto simp: alert_done_def distinct_remove1_removeAll removeAll_filter_not_eq intro!: filter_cong)
  show ?case
    using Cons.IH [OF d] unfolding rm by (auto simp: finish_alerts_def intro!: filter_cong)
qed

text \<open>
  An alert reaches every device once, and dead tokens go. The sends are started for exactly
  the registered tokens; in whatever order they end, the tokens that remain are those that Apple
  did not declare dead, in their old order.
\<close>

theorem alert_fanout:
  assumes "distinct (hub_deviceTokens h)" "mset order = mset (hub_deviceTokens h)"
  shows "map fst (sendAlert alert h) = hub_deviceTokens h \<and>
         hub_deviceTokens (finish_alerts answer order h) =
           filter (\<lambda>t. \<not> is_token_invalid (answer t)) (hub_deviceTokens h)"
proof -
  have "set order = set (hub_deviceTokens h)" using assms(2) by (metis set_mset_mset)
  then show ?thesis
    by (auto simp: finish_alerts_tokens [OF assms(1)] sendAlert_def o_def intro!: filter_cong)
qed

theorem alert_fanout_witness:
  "let h = (NewHub True)\<lparr>hub_deviceTokens := [''a'', ''b'', ''c'']\<rparr>;
       answer = (\<lambda>t. if t = ''b'' then Some (ErrTokenInvalid 410 ''Unregistered'') else None)
   in hub_deviceTokens (finish_alerts answer [''c'', ''b'', ''a''] h) = [''a'', ''c'']"
proof -
  let ?h = "(NewHub True)\<lparr>hub_deviceTokens := [''a'', ''b'', ''c'']\<rparr>"
  have "distinct (hub_deviceTokens ?h)" "mset [''c'', ''b'', ''a''] = mset (hub_deviceTokens ?h)"
    by simp_all
  from alert_fanout [OF this] show ?thesis by simp
qed

section \<open>Notifications\<close>

text \<open>A sequence of prompts, and the alerts it causes with the request they are for.\<close>

fun notify_all :: "(string \<times> string \<times> string) list \<Rightarrow> Hub \<Rightarrow> string list" where
  "notify_all [] h = []"
| "notify_all ((sn, tool, rid) # ps) h =
     (let (a, h') = NotifyPermission sn tool rid h
      in (if a = None then [] else [rid]) @ notify_all ps h')"

lemma notify_step:
  assumes "hub_apns h" "card (insert rid (set (hub_notifiedPermIDs h))) \<le> 256" "distinct (hub_notifiedPermIDs h)"
  shows "hub_apns (snd (NotifyPermission sn tool rid h)) \<and>
         set (hub_notifiedPermIDs (snd (NotifyPermission sn tool rid h))) = insert rid (set (hub_notifiedPermIDs h)) \<and>
         distinct (hub_notifiedPermIDs (snd (NotifyPermission sn tool rid h))) \<and>
         (fst (NotifyPermission sn tool rid h) = None \<longleftrightarrow> rid \<in> set (hub_notifiedPermIDs h))"
  using assms by (auto simp: NotifyPermission_def Let_def distinct_card)

lemma notify_all_spec:
  assumes "hub_apns h" "distinct (hub_notifiedPermIDs h)"
    and "card (set (map (snd \<circ> snd) ps) \<union> set (hub_notifiedPermIDs h)) \<le> 256"
  shows "distinct (notify_all ps h) \<and>
         set (notify_all ps h) = set (map (snd \<circ> snd) ps) - set (hub_notifiedPermIDs h)"
  using assms
proof (induction ps arbitrary: h)
  case (Cons p ps)
  obtain sn tool rid where p: "p = (sn, tool, rid)" by (cases p)
  obtain a h' where n: "NotifyPermission sn tool rid h = (a, h')" by force
  have "card (insert rid (set (hub_notifiedPermIDs h))) \<le>
      card (set (map (snd \<circ> snd) (p # ps)) \<union> set (hub_notifiedPermIDs h))"
    by (rule card_mono) (auto simp: p)
  then have "card (insert rid (set (hub_notifiedPermIDs h))) \<le> 256" using Cons.prems(3) by linarith
  from notify_step [OF Cons.prems(1) this Cons.prems(2), of sn tool]
  have h': "hub_apns h'" "set (hub_notifiedPermIDs h') = insert rid (set (hub_notifiedPermIDs h))"
    "distinct (hub_notifiedPermIDs h')" "a = None \<longleftrightarrow> rid \<in> set (hub_notifiedPermIDs h)"
    by (simp_all add: n)
  have "set (map (snd \<circ> snd) (p # ps)) \<union> set (hub_notifiedPermIDs h) =
      set (map (snd \<circ> snd) ps) \<union> set (hub_notifiedPermIDs h')"
    using h'(2) by (auto simp: p)
  then have "distinct (notify_all ps h') \<and>
      set (notify_all ps h') = set (map (snd \<circ> snd) ps) - set (hub_notifiedPermIDs h')"
    using Cons.IH [OF h'(1,3)] Cons.prems(3) by simp
  then show ?case using h'(2,4) by (auto simp: p n)
qed simp

text \<open>
  C22: one notification per prompt. In any sequence of prompts with at most 256 different request
  ids, on a relay with push configured that starts with no remembered id, every id causes exactly
  one alert, however often and in whatever order it is announced.
\<close>

theorem notify_once:
  assumes "card (set (map (snd \<circ> snd) ps)) \<le> 256"
  shows "distinct (notify_all ps (NewHub True)) \<and>
         set (notify_all ps (NewHub True)) = set (map (snd \<circ> snd) ps)"
  using notify_all_spec [of "NewHub True" ps] assms by (simp add: NewHub_def)

theorem notify_once_witness:
  "let ps = [(''s'', ''run_code'', ''r1''), (''s'', [], ''r2''), (''s'', ''run_code'', ''r1'')]
   in distinct (notify_all ps (NewHub True)) \<and> set (notify_all ps (NewHub True)) = {''r1'', ''r2''}"
proof -
  let ?ps = "[(''s'', ''run_code'', ''r1''), (''s'', [], ''r2''), (''s'', ''run_code'', ''r1'')]"
  have "card (set (map (snd \<circ> snd) ?ps)) \<le> 256" by (simp add: card_insert_if)
  from notify_once [OF this] show ?thesis by (simp del: notify_all.simps add: insert_commute)
qed

text \<open>
  The bound of the memory shows. With 257 different ids in between, the same request id is
  notified a second time, because the set of remembered ids is emptied when it grows over 256.
\<close>

theorem notify_twice:
  "\<exists>ps. count_list (notify_all ps (NewHub True)) ''r'' = 2 \<and> hd ps = last ps \<and> snd (snd (hd ps)) = ''r''"
proof -
  define ids where "ids = map (\<lambda>n. ''x'' @ nat_digits n) [0..<256]"
  let ?p = "\<lambda>i. (''s'' :: string, [] :: string, i :: string)"
  have inj: "inj nat_digits" by (metis digits_val_nat_digits injI)
  have ids: "distinct ids" "length ids = 256" "''r'' \<notin> set ids"
    using inj by (auto simp: ids_def distinct_map inj_on_def)
  have run: "notify_all (map ?p xs @ qs) h =
      xs @ notify_all qs (h\<lparr>hub_notifiedPermIDs := rev xs @ hub_notifiedPermIDs h\<rparr>)"
    if "hub_apns h" "distinct (xs @ hub_notifiedPermIDs h)" "length xs + length (hub_notifiedPermIDs h) \<le> 256"
    for xs qs h
    using that
  proof (induction xs arbitrary: h)
    case (Cons x xs)
    let ?h = "h\<lparr>hub_notifiedPermIDs := x # hub_notifiedPermIDs h\<rparr>"
    have "NotifyPermission ''s'' [] x h = (Some (permission_alert ''s'' []), ?h)"
      using Cons.prems by (auto simp: NotifyPermission_def Let_def)
    then show ?case using Cons.IH [of ?h] Cons.prems by simp
  qed simp
  let ?h = "(NewHub True)\<lparr>hub_notifiedPermIDs := rev (''r'' # butlast ids)\<rparr>"
  obtain y ys where ys: "ids = ys @ [y]" using ids(2) by (cases ids rule: rev_cases) auto
  have "notify_all (map ?p (''r'' # ys) @ [?p y, ?p ''r'']) (NewHub True) =
      (''r'' # ys) @ notify_all [?p y, ?p ''r''] ((NewHub True)\<lparr>hub_notifiedPermIDs := rev (''r'' # ys)\<rparr>)"
    using run [of "NewHub True" "''r'' # ys" "[?p y, ?p ''r'']"] ids by (simp add: ys NewHub_def)
  also have "\<dots> = (''r'' # ys) @ [y, ''r'']"
    using ids by (auto simp: NotifyPermission_def NewHub_def ys Let_def)
  finally have n: "notify_all (map ?p (''r'' # ys) @ [?p y, ?p ''r'']) (NewHub True) = ''r'' # ys @ [y, ''r'']"
    by simp
  have "count_list ys ''r'' = 0" "y \<noteq> ''r''" using ids(3) ys by (auto simp: count_list_0_iff)
  then have "count_list (''r'' # ys @ [y, ''r'']) ''r'' = 2" by (simp add: count_list_append)
  then show ?thesis
    using n by (intro exI [of _ "map ?p (''r'' # ys) @ [?p y, ?p ''r'']"]) (simp only: n, simp)
qed


section \<open>One tick of the detector\<close>

lemma PublishStatus_clients:
  "map_of (hub_clients (snd (PublishStatus rfc name st la h))) cid =
     map_option (try_send 16 (status_message rfc name st la)) (map_of (hub_clients h) cid)"
proof -
  have "map_of (map (\<lambda>(c, ch). (c, f ch)) xs) cid = map_option f (map_of xs cid)"
    for f :: "json list \<Rightarrow> json list" and xs by (induction xs) auto
  then show ?thesis by (simp add: PublishStatus_def Let_def client_cap_def)
qed

definition change_message :: "(time \<Rightarrow> string) \<Rightarrow> Change \<Rightarrow> json" where
  "change_message rfc c =
     status_message rfc (change_Name c) (status_of_state (change_State c)) (change_LastActivity c)"

lemma publish_changes_clients:
  "map_of (hub_clients h) cid = Some buf \<Longrightarrow> length buf + length cs \<le> 16 \<Longrightarrow>
     map_of (hub_clients (snd (publish_changes rfc cs h))) cid = Some (buf @ map (change_message rfc) cs)"
proof (induction cs arbitrary: h buf)
  case (Cons c cs)
  obtain p h1 where p: "PublishStatus rfc (change_Name c) (status_of_state (change_State c)) (change_LastActivity c) h = (p, h1)"
    by force
  have "map_of (hub_clients h1) cid = Some (buf @ [change_message rfc c])"
    using PublishStatus_clients [of rfc "change_Name c" "status_of_state (change_State c)" "change_LastActivity c" h cid]
      p Cons.prems by (simp add: try_send_def change_message_def)
  then show ?case
    using Cons.IH [of h1] Cons.prems(2) p by (auto split: prod.split)
qed simp

lemma range_map_order:
  "set order \<subseteq> dom m \<Longrightarrow> range_map m order = map (\<lambda>k. (k, the (m k))) order"
  by (induction order) (auto simp: range_map_def List.map_filter_simps dom_def)

text \<open>
  C23: what a connected client sees of a poll. Whatever the order in which the loop visits the tmux
  snapshot (a Go map), a client with enough room in its channel receives, after the messages it already has,
  exactly one status message for every session of the snapshot whose classification changed, with
  the new status, and none for the other sessions.
\<close>

theorem detector_tick_delivers:
  assumes "map_of (hub_clients h) cid = Some buf" "range_order (SessionActivitySnapshot out) order"
    and "length buf + card (dom (SessionActivitySnapshot out)) \<le> 16"
    and "detector_tick rfc now order out (t, h) = (sent, t', h')"
  shows "map_of (hub_clients h') cid =
           Some (buf @ map (\<lambda>name. let act = the (SessionActivitySnapshot out name) in
                              status_message rfc name
                                (if classify (tracker_idleAfter t) now act = Working then ''running'' else ''idle'') act)
                          (filter (\<lambda>name. flips (tracker_idleAfter t) now (tracker_seen t)
                                             (name, the (SessionActivitySnapshot out name))) order))"
proof -
  let ?snap = "SessionActivitySnapshot out"
  let ?range = "map (\<lambda>k. (k, the (?snap k))) order"
  have ord: "distinct order" "set order = dom ?snap" using assms(2) by (auto simp: range_order_def)
  have range: "range_map ?snap order = ?range" using ord(2) by (simp add: range_map_order)
  obtain cs t1 where u: "Update now ?range t = (cs, t1)" by force
  have "distinct (map fst ?range)" using ord(1) by (simp add: comp_def)
  from Update_changes [OF this, of now t]
  have cs: "cs = map (change_of (tracker_idleAfter t) now)
      (filter (flips (tracker_idleAfter t) now (tracker_seen t)) ?range)" using u by simp
  have "length order = card (dom ?snap)" using ord distinct_card by metis
  moreover have "length cs \<le> length order"
    unfolding cs length_map using length_filter_le [of _ ?range] by simp
  ultimately have "length buf + length cs \<le> 16" using assms(3) by simp
  from publish_changes_clients [OF assms(1) this, of rfc]
  have "map_of (hub_clients h') cid = Some (buf @ map (change_message rfc) cs)"
    using assms(4) u by (simp add: detector_tick_def range split: prod.splits)
  moreover have "map (change_message rfc) cs =
      map (\<lambda>name. let act = the (?snap name) in
             status_message rfc name
               (if classify (tracker_idleAfter t) now act = Working then ''running'' else ''idle'') act)
        (filter (\<lambda>name. flips (tracker_idleAfter t) now (tracker_seen t) (name, the (?snap name))) order)"
    by (simp add: cs change_message_def change_of_def status_of_state_def StatusRunning_def StatusIdle_def
        filter_map comp_def Let_def)
  ultimately show ?thesis by simp
qed

text \<open>Two sessions, one active and one quiet, visited in the other order than tmux printed them.\<close>

theorem detector_tick_delivers_witness:
  "\<exists>sent t' h'. detector_tick (\<lambda>t. []) (100 * 10 ^ 9) [''web'', ''dev'']
       (Some (''dev'' @ [tab] @ ''0'' @ [tab] @ ''1'' @ [CHR 0x0A] @ ''web'' @ [tab] @ ''90'' @ [tab] @ ''0''))
       (New_Tracker (60 * 10 ^ 9), RegisterClient ''c1'' [] (NewHub True)) = (sent, t', h') \<and>
     map_of (hub_clients h') ''c1'' =
       Some [status_message (\<lambda>t. []) ''web'' ''running'' (90 * 10 ^ 9), status_message (\<lambda>t. []) ''dev'' ''idle'' 0]"
proof -
  let ?out = "Some (''dev'' @ [tab] @ ''0'' @ [tab] @ ''1'' @ [CHR 0x0A] @ ''web'' @ [tab] @ ''90'' @ [tab] @ ''0'')"
  let ?h = "RegisterClient ''c1'' [] (NewHub True)"
  have "map (\<lambda>r. (sr_Name r, sr_LastActivity r)) (discoverTmuxSessions ?out) = [(''dev'', 0), (''web'', 90 * 10 ^ 9)]"
    by code_simp
  then have snap: "SessionActivitySnapshot ?out = [''dev'' \<mapsto> 0, ''web'' \<mapsto> 90 * 10 ^ 9]"
    by (auto simp: SessionActivitySnapshot_def map_eq_Cons_conv)
  obtain sent t' h' where
    r: "detector_tick (\<lambda>t. []) (100 * 10 ^ 9) [''web'', ''dev''] ?out (New_Tracker (60 * 10 ^ 9), ?h) = (sent, t', h')"
    by (metis prod_cases3)
  have c: "map_of (hub_clients ?h) ''c1'' = Some []"
    by (simp add: RegisterClient_def NewHub_def)
  have o: "range_order (SessionActivitySnapshot ?out) [''web'', ''dev'']"
    unfolding snap by (auto simp: range_order_def)
  have l: "length ([] :: json list) + card (dom (SessionActivitySnapshot ?out)) \<le> 16" unfolding snap by simp
  have "classify (60 * 10 ^ 9) (100 * 10 ^ 9) (90 * 10 ^ 9) = Working" "classify (60 * 10 ^ 9) (100 * 10 ^ 9) 0 = Idle"
    by (simp_all add: classify_def time_Sub_def)
  then show ?thesis
    using detector_tick_delivers [OF c o l r] r unfolding snap
    by (simp add: New_Tracker_def flips_def)
qed

section \<open>The output of tmux\<close>

definition tmux_line :: "string \<times> int \<times> nat \<Rightarrow> string" where
  "tmux_line l = (case l of (name, ts, attached) \<Rightarrow> name @ [tab] @ Itoa ts @ [tab] @ Itoa (int attached))"

definition tmux_record :: "string \<times> int \<times> nat \<Rightarrow> SessionRecord" where
  "tmux_record l =
     (case l of (name, ts, attached) \<Rightarrow>
        \<lparr>sr_Name = name, sr_Type = ''terminal'',
         sr_Status = (if attached = 0 then ''detached'' else ''running''),
         sr_WorkingDirectory = [], sr_Project = [], sr_LastActivity = ts * 10 ^ 9, sr_Source = ''system''\<rparr>)"

definition tmux_ok :: "string \<times> int \<times> nat \<Rightarrow> bool" where
  "tmux_ok l = (case l of (name, ts, attached) \<Rightarrow> discoverableNameRe name \<and> 0 \<le> ts \<and> ts < 2 ^ 63)"

lemma Itoa_inj_0: "Itoa (int n) = ''0'' \<longleftrightarrow> n = 0"
proof
  assume a: "Itoa (int n) = ''0''"
  have "digits_val (nat_digits n) = n" by (rule digits_val_nat_digits)
  then show "n = 0" using a by (simp add: Itoa_def digits_val_def)
next
  assume "n = 0"
  have "Itoa 0 = ''0''" by code_simp
  then show "Itoa (int n) = ''0''" using \<open>n = 0\<close> by simp
qed

lemma Itoa_no_ctl: "0 \<le> i \<Longrightarrow> c \<in> set (Itoa i) \<Longrightarrow> graphic c"
  using Itoa_graphic [of i] by (auto simp: list_all_iff)

lemma tmux_line_record:
  assumes "tmux_ok l"
  shows "discovered_record (tmux_line l) = Some (tmux_record l)"
proof -
  obtain name ts attached where l: "l = (name, ts, attached)" by (cases l)
  have n: "list_all name_char name" "name \<noteq> []" "discoverableNameRe name" "0 \<le> ts" "ts < 2 ^ 63"
    using assms by (auto simp: l tmux_ok_def discoverableNameRe_def matches_class_def)
  have tab: "tab \<notin> set name" "tab \<notin> set (Itoa ts)"
    using n(1) Itoa_no_ctl [OF n(4), of tab]
    by (auto simp: list_all_iff name_char_def graphic_def byte_class_defs)
  have "SplitN (tmux_line l) tab 3 = [name, Itoa ts, Itoa (int attached)]"
    using tab by (simp add: l tmux_line_def numeral_3_eq_3)
  moreover have "tmux_line l \<noteq> []" by (simp add: l tmux_line_def)
  moreover have "Atoi (Itoa ts) = Some ts" using n(4,5) by (intro Atoi_Itoa) (simp add: in_int64_def)
  ultimately show ?thesis
    using n(3) by (simp add: discovered_record_def tmux_record_def l Itoa_inj_0 StatusRunning_def)
qed

lemma tmux_line_chars: "tmux_ok l \<Longrightarrow> c \<in> set (tmux_line l) \<Longrightarrow> graphic c \<or> c = tab"
  by (auto simp: tmux_ok_def tmux_line_def discoverableNameRe_def matches_class_def list_all_iff
      dest: Itoa_no_ctl Itoa_no_ctl [OF of_nat_0_le_iff] split: prod.splits)

lemma tmux_line_hd: "tmux_ok l \<Longrightarrow> tmux_line l \<noteq> [] \<and> graphic (hd (tmux_line l))"
  by (auto simp: tmux_ok_def tmux_line_def discoverableNameRe_def matches_class_def hd_append list_all_iff
      split: prod.splits)

lemma tmux_line_last: "tmux_ok l \<Longrightarrow> tmux_line l \<noteq> [] \<and> graphic (last (tmux_line l))"
proof -
  have "Itoa (int n) \<noteq> []" for n by (simp add: Itoa_def)
  then show "tmux_line l \<noteq> [] \<and> graphic (last (tmux_line l))"
    using Itoa_no_ctl [OF _ last_in_set] by (auto simp: tmux_line_def split: prod.splits)
qed

text \<open>
  Reading back the session list of tmux. For sessions whose names fit the grammar, the output
  of tmux, with its final newline, is read as exactly the records of those sessions, in order.
\<close>

theorem discover_roundtrip:
  assumes "list_all tmux_ok ls" "ls \<noteq> []"
  shows "discoverTmuxSessions (Some (Join (map tmux_line ls) [CHR 0x0A] @ [CHR 0x0A])) = map tmux_record ls"
proof -
  let ?t = "Join (map tmux_line ls) [CHR 0x0A]"
  have nl: "CHR 0x0A \<notin> set (tmux_line l)" if "l \<in> set ls" for l
    using that assms(1) tmux_line_chars [of l "CHR 0x0A"] by (auto simp: list_all_iff graphic_def)
  have split: "Split ?t (CHR 0x0A) = map tmux_line ls"
    using assms(2) nl by (intro Split_Join) auto
  have hd: "?t \<noteq> [] \<and> graphic (hd ?t)"
    using assms tmux_line_hd [of "hd ls"] by (cases ls) (auto simp: Join_hd)
  have last: "graphic (last ?t)"
    using assms tmux_line_last [of "last ls"] by (cases ls rule: rev_cases) (auto simp: Join_last)
  have "TrimSpace (?t @ [CHR 0x0A]) = ?t"
    using hd last by (intro TrimSpace_newline) (auto intro: graphic_not_space)
  moreover have "List.map_filter discovered_record (map tmux_line ls) = map tmux_record ls"
    using assms(1) by (induction ls) (auto simp: map_filter_simps tmux_line_record)
  ultimately show ?thesis by (simp add: discoverTmuxSessions_def split)
qed


theorem discover_roundtrip_witness:
  "discoverTmuxSessions (Some (Join [''dev'' @ [tab] @ ''17'' @ [tab] @ ''0'', ''cx-app'' @ [tab] @ ''18'' @ [tab] @ ''2''] [CHR 0x0A] @ [CHR 0x0A])) =
     [tmux_record (''dev'', 17, 0), tmux_record (''cx-app'', 18, 2)]"
proof -
  have "list_all tmux_ok [(''dev'', 17, 0), (''cx-app'', 18, 2)]" by code_simp
  from discover_roundtrip [OF this]
  have "discoverTmuxSessions (Some (Join (map tmux_line [(''dev'', 17, 0), (''cx-app'', 18, 2)]) [CHR 0x0A] @ [CHR 0x0A])) =
     [tmux_record (''dev'', 17, 0), tmux_record (''cx-app'', 18, 2)]" by simp
  moreover have "map tmux_line [(''dev'', 17, 0), (''cx-app'', 18, 2)] =
      [''dev'' @ [tab] @ ''17'' @ [tab] @ ''0'', ''cx-app'' @ [tab] @ ''18'' @ [tab] @ ''2'']"
    by code_simp
  ultimately show ?thesis by simp
qed

section \<open>Working directories\<close>

text \<open>
  C24: where sessions may work. A session that is newly created keeps the working directory of the
  request, which is either empty (no directory was asked for) or one
  whose cleaned form lies strictly below \<^verbatim>\<open>/home\<close>, \<^verbatim>\<open>/root\<close>, \<^verbatim>\<open>/tmp\<close>, \<^verbatim>\<open>/var\<close> or \<^verbatim>\<open>/Users\<close>: it is
  absolute and all its components are proper names.
\<close>

theorem working_dir_confined:
  assumes "CreateSession now name cwd ty h = (Inr s, h')" "GetSession name h = None"
  shows "GetSession name h' = Some s \<and> sr_WorkingDirectory s = cwd \<and>
         (cwd = [] \<or>
          (\<exists>root cs. root \<in> {''home'', ''root'', ''tmp'', ''var'', ''Users''} \<and> cs \<noteq> [] \<and>
             list_all plain (root # cs) \<and> Clean (sr_WorkingDirectory s) = abs_path (root # cs)))"
proof (cases "cwd = []")
  case True
  then show ?thesis
    using assms by (auto simp: CreateSession_def GetSession_def NewSession_def Let_def update_conv'
        split: option.splits)
next
  case False
  have v: "validateWorkingDir cwd = None" and wd: "sr_WorkingDirectory s = cwd"
    and st: "GetSession name h' = Some s"
    using assms(1,2) by (auto simp: CreateSession_def GetSession_def NewSession_def Let_def update_conv'
        split: option.splits)
  let ?roots = "[''home'', ''root'', ''tmp'', ''var'', ''Users'']"
  have "\<exists>root \<in> set ?roots. HasPrefix (Clean cwd) (sep # root @ [sep])"
    using v False by (auto simp: validateWorkingDir_def Let_def split: if_splits)
  then obtain root where root: "root \<in> set ?roots" "HasPrefix (Clean cwd) (sep # root @ [sep])" by blast
  have "plain root" using root(1) by (auto simp: plain_def)
  from allowed_prefix [OF root(2) this] obtain cs where
    "cs \<noteq> []" "list_all plain (root # cs)" "Clean cwd = abs_path (root # cs)" .
  then have "\<exists>root cs. root \<in> {''home'', ''root'', ''tmp'', ''var'', ''Users''} \<and> cs \<noteq> [] \<and>
      list_all plain (root # cs) \<and> Clean (sr_WorkingDirectory s) = abs_path (root # cs)"
    using root(1) wd by (intro exI [of _ root] exI [of _ cs]) auto
  then show ?thesis using wd st by blast
qed

theorem working_dir_confined_witness:
  "\<exists>s h'. CreateSession 0 ''dev'' ''/home/u/../u/app'' ''shell'' (NewHub True) = (Inr s, h') \<and>
     (\<exists>root cs. Clean (sr_WorkingDirectory s) = abs_path (root # cs) \<and> cs \<noteq> [])"
proof -
  have "\<not> isl (fst (CreateSession 0 ''dev'' ''/home/u/../u/app'' ''shell'' (NewHub True)))" by code_simp
  then obtain s h' where r: "CreateSession 0 ''dev'' ''/home/u/../u/app'' ''shell'' (NewHub True) = (Inr s, h')"
    by (cases "CreateSession 0 ''dev'' ''/home/u/../u/app'' ''shell'' (NewHub True)";
        cases "fst (CreateSession 0 ''dev'' ''/home/u/../u/app'' ''shell'' (NewHub True))") auto
  have "GetSession ''dev'' (NewHub True) = None" by (simp add: GetSession_def NewHub_def)
  from working_dir_confined [OF r this] r show ?thesis by blast
qed

section \<open>A live activity token can be dropped\<close>

text \<open>
  The hub takes the digits 410 anywhere in an error for the answer that a token is dead. When a
  request fails before any answer, the error of \<^verbatim>\<open>http.Client\<close> names the address it was sent to, which
  ends in the token: a network failure drops a live token that happens to contain these digits.
\<close>

theorem unreachable_drops_token:
  assumes "getJWT env now c = (Inr t, c1)"
    and "ae_answer env = Inl (''Post '' @ apnsURL @ token @ '': '' @ cause)" "Contains token ''410''"
    and "SendLiveActivity env now token st stale c = (err, c', req)"
  shows "hub_activityTokens (activity_done name err h) name = None"
proof -
  have "err = Some (TransientError (''APNs request failed: '' @ ''Post '' @ apnsURL @ token @ '': '' @ cause))"
    using assms(1,2,4) by (simp add: SendLiveActivity_def Let_def)
  moreover have "Contains (x @ token @ y) ''410''" for x y
    using assms(3) by (simp add: sublist_appendI sublist_append)
  then have "Contains (''APNs request failed: '' @ ''Post '' @ apnsURL @ token @ '': '' @ cause) ''410''"
    by (metis append.assoc)
  ultimately show ?thesis by (simp add: activity_done_def)
qed

theorem unreachable_drops_token_witness:
  "hub_activityTokens (activity_done ''s''
       (fst (SendLiveActivity (sample_apns\<lparr>ae_answer := Inl (''Post '' @ apnsURL @ ''a410b'' @ '': '' @ ''timeout'')\<rparr>) 0
               ''a410b'' JNull 0 (sample_client\<lparr>jwt := ''t'', jwtExp := 10\<rparr>)))
       (NewHub True\<lparr>hub_activityTokens := [''s'' \<mapsto> ''a410b'']\<rparr>)) ''s'' = None"
proof -
  let ?e = "sample_apns\<lparr>ae_answer := Inl (''Post '' @ apnsURL @ ''a410b'' @ '': '' @ ''timeout'')\<rparr>"
  let ?c = "sample_client\<lparr>jwt := ''t'', jwtExp := 10\<rparr>"
  have j: "getJWT ?e 0 ?c = (Inr ''t'', ?c)" by (simp add: getJWT_def)
  have a: "ae_answer ?e = Inl (''Post '' @ apnsURL @ ''a410b'' @ '': '' @ ''timeout'')" by simp
  have k: "Contains ''a410b'' ''410''" by (simp add: sublist_Cons_right)
  obtain err c' req where s: "SendLiveActivity ?e 0 ''a410b'' JNull 0 ?c = (err, c', req)" by (rule prod_cases3)
  show ?thesis using unreachable_drops_token [OF j a k s] s by simp
qed

end
