(* ===== verification/Projects.thy ===== *)
theory Projects
  imports Interfaces
begin

text \<open>
  \<^verbatim>\<open>internal/projects\<close>: cloning, pulling, listing, inspecting and deleting the repositories below
  the projects directory. git and the file system are parameters (\<open>proj_env\<close>); an operation
  returns its result and the calls it made, in order.
\<close>

section \<open>The environment\<close>

datatype proj_call = Git "string list" | MkdirAll string | RemoveAll string

datatype stat_result = Exists | NotExist | StatError

text \<open>
  \<open>pj_git\<close> gives the output of a git command and its error, if it fails; \<open>pj_stat\<close> tells whether
  a path exists, does not, or cannot be examined; \<open>pj_readdir\<close> is the listing of the projects directory with the directory flag of
  each entry (\<open>None\<close> when it does not exist).
\<close>

record proj_env =
  pj_HOME :: string
  pj_PATH :: string
  pj_git :: "string list \<Rightarrow> string \<times> string option"
  pj_stat :: "string \<Rightarrow> stat_result"
  pj_mkdir :: "string option"
  pj_remove :: "string option"
  pj_readdir :: "((string \<times> bool) list result) option"

section \<open>Names and paths\<close>

definition slug_char :: "char \<Rightarrow> bool" where
  "slug_char c \<longleftrightarrow> is_alnum c \<or> c = CHR ''_'' \<or> c = CHR ''.'' \<or> c = CHR ''-''"

definition nameRe :: "string \<Rightarrow> bool" where
  "nameRe s \<longleftrightarrow> s \<noteq> [] \<and> list_all slug_char s"

definition slugRe :: "string \<Rightarrow> bool" where
  "slugRe s \<longleftrightarrow> (case Split s sep of [a, b] \<Rightarrow> nameRe a \<and> nameRe b | _ \<Rightarrow> False)"

record ProjectRecord =
  prj_Name :: string
  prj_Path :: string

definition ProjectsDir :: "proj_env \<Rightarrow> string" where
  "ProjectsDir env =
     (let home = (if pj_HOME env = [] then ''/home/ubuntu'' else pj_HOME env)
      in JoinPath home ''projects'')"

definition projectPath :: "proj_env \<Rightarrow> string \<Rightarrow> string result" where
  "projectPath env name =
     (if \<not> nameRe name then Inl ''invalid project name: must match [a-zA-Z0-9_.-]+''
      else if name = ''.'' \<or> name = ''..'' then Inl ''invalid project name''
      else
        (let base = Clean (ProjectsDir env); target = Clean (JoinPath base name)
         in if target = base \<or> \<not> HasPrefix target (base @ [sep])
            then Inl ''path traversal rejected'' else Inr target))"

section \<open>Git\<close>

definition gitEnv :: "proj_env \<Rightarrow> string list" where
  "gitEnv env =
     [''GIT_TERMINAL_PROMPT=0'', ''GIT_ASKPASS=echo'', ''PATH='' @ pj_PATH env] @
     (if pj_HOME env \<noteq> [] then [''HOME='' @ pj_HOME env] else [])"

text \<open>
  \<^verbatim>\<open>gitTokenRe.ReplaceAll\<close>: from left to right, \<^verbatim>\<open>https://\<close> followed by at least one character that
  is not an at sign, up to the first at sign, is replaced by \<^verbatim>\<open>https://\<close>.
\<close>

function redact :: "string \<Rightarrow> string" where
  "redact s =
     (case s of
        [] \<Rightarrow> []
      | c # r \<Rightarrow>
          (if HasPrefix s ''https://'' then
             (case Cut (drop 8 s) (CHR ''@'') of
                Some (x # xs, rest) \<Rightarrow> ''https://'' @ redact rest
              | _ \<Rightarrow> c # redact r)
           else c # redact r))"
  by pat_completeness auto

termination
  by (relation "measure length") (auto simp: Cut_Some_iff prefix_def)

declare redact.simps [simp del]

definition authed_url :: "string \<Rightarrow> string \<Rightarrow> string" where
  "authed_url token slug = ''https://'' @ token @ ''@github.com/'' @ slug @ ''.git''"

definition clean_url :: "string \<Rightarrow> string" where
  "clean_url slug = ''https://github.com/'' @ slug @ ''.git''"

definition set_url :: "string \<Rightarrow> string \<Rightarrow> proj_call" where
  "set_url dest url = Git [''-C'', dest, ''remote'', ''set-url'', ''origin'', url]"

definition run_git :: "proj_env \<Rightarrow> proj_call \<Rightarrow> string \<times> string option" where
  "run_git env c = (case c of Git args \<Rightarrow> pj_git env args | _ \<Rightarrow> ([], None))"

definition git_error :: "string \<Rightarrow> string \<times> string option \<Rightarrow> string option" where
  "git_error what r =
     (case r of
        (out, None) \<Rightarrow> None
      | (out, Some e) \<Rightarrow> Some (what @ '' failed: '' @ e @ [CHR 0x0A] @ redact out))"

definition SyncProject :: "proj_env \<Rightarrow> string \<Rightarrow> string \<Rightarrow> string option \<times> proj_call list" where
  "SyncProject env slug token =
     (if \<not> slugRe slug then (Some ''invalid slug: must match owner/repo'', [])
      else
        (let repoName = SplitN slug sep 2 ! 1
         in case projectPath env repoName of
              Inl e \<Rightarrow> (Some (''invalid repo name: '' @ e), [])
            | Inr dest \<Rightarrow>
                (let authed = authed_url token slug;
                     strip = set_url dest (clean_url slug)
                 in if pj_stat env dest = NotExist then
                      (case pj_mkdir env of
                         Some e \<Rightarrow> (Some (''mkdir failed: '' @ e), [MkdirAll (ProjectsDir env)])
                       | None \<Rightarrow>
                           (let clone = Git [''clone'', ''--depth'', ''1'', authed, dest]
                            in case git_error ''git clone'' (run_git env clone) of
                                 Some e \<Rightarrow> (Some e, [MkdirAll (ProjectsDir env), clone, RemoveAll dest])
                               | None \<Rightarrow> (None, [MkdirAll (ProjectsDir env), clone, strip])))
                    else
                      (let setURL = set_url dest authed;
                           pull = Git [''-C'', dest, ''pull'', ''--ff-only'']
                       in case git_error ''remote set-url'' (run_git env setURL) of
                            Some e \<Rightarrow> (Some e, [setURL])
                          | None \<Rightarrow>
                              (case git_error ''git pull'' (run_git env pull) of
                                 Some e \<Rightarrow> (Some e, [setURL, pull])
                               | None \<Rightarrow> (None, [setURL, pull, strip]))))))"

definition ListProjects :: "proj_env \<Rightarrow> ProjectRecord list result" where
  "ListProjects env =
     (let dir = ProjectsDir env
      in case pj_readdir env of
           None \<Rightarrow> Inr []
         | Some (Inl e) \<Rightarrow> Inl e
         | Some (Inr entries) \<Rightarrow>
             Inr (map (\<lambda>(n, _). \<lparr>prj_Name = n, prj_Path = JoinPath dir n\<rparr>)
                   (filter (\<lambda>(n, isdir). isdir \<and> pj_stat env (JoinPath (JoinPath dir n) ''.git'') = Exists) entries)))"

section \<open>Status\<close>

record UnpushedBranch =
  ub_Branch :: string
  ub_Ahead :: int
  ub_HasUpstream :: bool

record ProjectGitStatus =
  gs_Name :: string
  gs_IsRepo :: bool
  gs_Clean :: bool
  gs_Uncommitted :: nat
  gs_Untracked :: nat
  gs_Stashes :: nat
  gs_Unpushed :: "UnpushedBranch list"

definition empty_status :: ProjectGitStatus where
  "empty_status =
     \<lparr>gs_Name = [], gs_IsRepo = False, gs_Clean = False, gs_Uncommitted = 0, gs_Untracked = 0,
      gs_Stashes = 0, gs_Unpushed = []\<rparr>"

text \<open>\<^verbatim>\<open>n, _ := strconv.Atoi(...)\<close>: for digits out of range it is the largest integer.\<close>

definition parseAhead :: "string \<Rightarrow> int" where
  "parseAhead track =
     (case Index track ''ahead '' of
        None \<Rightarrow> 0
      | Some i \<Rightarrow>
          (let ds = takeWhile is_digit (drop (i + 6) track)
           in case Atoi ds of Some n \<Rightarrow> n | None \<Rightarrow> if ds = [] then 0 else 2 ^ 63 - 1))"

definition branch_line :: "string \<Rightarrow> UnpushedBranch option" where
  "branch_line line =
     (if line = [] then None
      else case SplitN line (CHR 0x00) 3 of
        [branch, upstream, track] \<Rightarrow>
          if upstream = [] then Some \<lparr>ub_Branch = branch, ub_Ahead = 0, ub_HasUpstream = False\<rparr>
          else if 0 < parseAhead track
          then Some \<lparr>ub_Branch = branch, ub_Ahead = parseAhead track, ub_HasUpstream = True\<rparr>
          else None
      | _ \<Rightarrow> None)"

definition gitOut :: "proj_env \<Rightarrow> string \<Rightarrow> string list \<Rightarrow> string result" where
  "gitOut env dir args =
     (case pj_git env ([''-C'', dir] @ args) of (out, None) \<Rightarrow> Inr out | (out, Some e) \<Rightarrow> Inl e)"

definition branch_format :: string where
  "branch_format = ''--format=%(refname:short)%00%(upstream)%00%(upstream:track)''"

text \<open>The status so far is returned beside the error.\<close>

definition projectStatusAt :: "proj_env \<Rightarrow> string \<Rightarrow> ProjectGitStatus \<times> string option" where
  "projectStatusAt env dir =
     (if pj_stat env (JoinPath dir ''.git'') \<noteq> Exists then (empty_status, None)
      else
        (let st = empty_status\<lparr>gs_IsRepo := True\<rparr>
         in case gitOut env dir [''status'', ''--porcelain''] of
              Inl e \<Rightarrow> (st, Some e)
            | Inr out \<Rightarrow>
                (let ls = filter (\<lambda>l. l \<noteq> []) (Split out (CHR 0x0A));
                     st = st\<lparr>gs_Untracked := length (filter (\<lambda>l. HasPrefix l ''??'') ls),
                             gs_Uncommitted := length (filter (\<lambda>l. \<not> HasPrefix l ''??'') ls)\<rparr>;
                     st = (case gitOut env dir [''stash'', ''list''] of
                             Inl _ \<Rightarrow> st
                           | Inr so \<Rightarrow>
                               st\<lparr>gs_Stashes := length (filter (\<lambda>l. l \<noteq> []) (Split (TrimSpace so) (CHR 0x0A)))\<rparr>)
                 in case gitOut env dir [''for-each-ref'', branch_format, ''refs/heads''] of
                      Inl e \<Rightarrow> (st, Some e)
                    | Inr bo \<Rightarrow>
                        (let st = st\<lparr>gs_Unpushed := List.map_filter branch_line (Split (TrimSpace bo) (CHR 0x0A))\<rparr>
                         in (st\<lparr>gs_Clean := (gs_Uncommitted st = 0 \<and> gs_Untracked st = 0 \<and> gs_Stashes st = 0 \<and>
                                            gs_Unpushed st = [])\<rparr>, None)))))"

definition ProjectStatus :: "proj_env \<Rightarrow> string \<Rightarrow> ProjectGitStatus \<times> string option" where
  "ProjectStatus env name =
     (case projectPath env name of
        Inl e \<Rightarrow> (empty_status, Some e)
      | Inr target \<Rightarrow>
          (case projectStatusAt env target of (st, err) \<Rightarrow> (st\<lparr>gs_Name := name\<rparr>, err)))"

section \<open>Deletion\<close>

datatype remove_error = ErrUnsavedWork | RemoveFailed string

definition RemoveProject :: "proj_env \<Rightarrow> string \<Rightarrow> bool \<Rightarrow> remove_error option \<times> proj_call list" where
  "RemoveProject env name force =
     (case projectPath env name of
        Inl e \<Rightarrow> (Some (RemoveFailed e), [])
      | Inr target \<Rightarrow>
          if \<not> force \<and> (case projectStatusAt env target of (st, err) \<Rightarrow> err = None \<and> \<not> gs_Clean st)
          then (Some ErrUnsavedWork, [])
          else (map_option RemoveFailed (pj_remove env), [RemoveAll target]))"

section \<open>Paths stay below the projects directory\<close>

definition home_ok :: "proj_env \<Rightarrow> bool" where
  "home_ok env \<longleftrightarrow> pj_HOME env = [] \<or> IsAbs (pj_HOME env)"

lemma ProjectsDir_abs:
  assumes "home_ok env"
  obtains cs where "list_all plain cs" "ProjectsDir env = abs_path cs" "cs \<noteq> []"
proof -
  let ?home = "if pj_HOME env = [] then ''/home/ubuntu'' else pj_HOME env"
  let ?p = "?home @ sep # ''projects''"
  have home: "IsAbs ?home" "?home \<noteq> []" using assms by (auto simp: home_ok_def IsAbs_def)
  then have abs: "IsAbs ?p" by (auto simp: IsAbs_def prefix_def)
  let ?cs = "clean_comps True [] (Split ?p sep)"
  have "list_all plain ?cs"
    by (rule clean_comps_rooted_plain) (simp_all add: Split_pieces)
  moreover have "ProjectsDir env = abs_path ?cs"
    using Clean_abs [OF abs] home(2) by (simp add: ProjectsDir_def JoinPath_def Let_def)
  moreover have "?cs \<noteq> []"
    unfolding Split_append_sep clean_comps_append by simp
  ultimately show ?thesis by (rule that)
qed

lemma nameRe_plain: "nameRe n \<Longrightarrow> n \<noteq> ''.'' \<Longrightarrow> n \<noteq> ''..'' \<Longrightarrow> plain n"
  by (auto simp: nameRe_def plain_def list_all_iff slug_char_def byte_class_defs)

lemma projectPath_child:
  assumes "home_ok env" "projectPath env name = Inr p"
  shows "child_of (ProjectsDir env) name p"
proof -
  obtain cs where cs: "list_all plain cs" "ProjectsDir env = abs_path cs" "cs \<noteq> []"
    using assms(1) by (rule ProjectsDir_abs)
  have n: "plain name"
    using assms(2) nameRe_plain by (auto simp: projectPath_def split: if_splits)
  have "p = Clean (JoinPath (Clean (abs_path cs)) name)"
    using assms(2) cs(2) by (auto simp: projectPath_def Let_def split: if_splits)
  then have "p = abs_path (cs @ [name])"
    using cs(1) n by (simp add: JoinPath_abs)
  then show ?thesis using cs n by (auto simp: child_of_def)
qed

interpretation project_guard: path_guard ProjectsDir projectPath home_ok
  by unfold_locales (rule projectPath_child)

text \<open>Every name of the grammar except the dots is accepted.\<close>

lemma projectPath_accepts:
  assumes "home_ok env" "nameRe name" "name \<noteq> ''.''" "name \<noteq> ''..''"
  shows "\<exists>p. projectPath env name = Inr p"
proof -
  obtain cs where cs: "list_all plain cs" "ProjectsDir env = abs_path cs" "cs \<noteq> []"
    using assms(1) by (rule ProjectsDir_abs)
  have n: "plain name" using assms nameRe_plain by blast
  have "abs_path (cs @ [name]) \<noteq> abs_path cs"
    using abs_path_inj [of "cs @ [name]" cs] cs(1) n by auto
  moreover have "HasPrefix (abs_path (cs @ [name])) (abs_path cs @ [sep])"
    using cs(3) by (intro abs_path_under) auto
  ultimately show ?thesis
    using assms(2-4) cs n by (simp add: projectPath_def Let_def JoinPath_abs)
qed

end
