(* ===== verification/Projects_Proofs.thy ===== *)
theory Projects_Proofs
  imports Projects
begin

text \<open>
  The properties of \<^verbatim>\<open>internal/projects\<close>: the status of a clone against git's documented output,
  the paths that are deleted, the token in the address of the origin, and deletion without force.
\<close>

section \<open>What git prints\<close>

text \<open>
  A branch, the upstream it tracks (empty when it has none), whether that upstream is gone (its
  ref was deleted) and how far the branch is ahead and behind; the
  text that \<^verbatim>\<open>git for-each-ref\<close> prints for it, as documented.
\<close>

record git_branch =
  gb_name :: string
  gb_upstream :: string
  gb_gone :: bool
  gb_ahead :: nat
  gb_behind :: nat

definition track_text :: "nat \<Rightarrow> nat \<Rightarrow> string" where
  "track_text a b =
     (if a = 0 \<and> b = 0 then []
      else if b = 0 then ''[ahead '' @ nat_digits a @ '']''
      else if a = 0 then ''[behind '' @ nat_digits b @ '']''
      else ''[ahead '' @ nat_digits a @ '', behind '' @ nat_digits b @ '']'')"

definition branch_text :: "git_branch \<Rightarrow> string" where
  "branch_text b =
     gb_name b @ [CHR 0x00] @ gb_upstream b @ [CHR 0x00] @
     (if gb_upstream b = [] then [] else if gb_gone b then ''[gone]'' else track_text (gb_ahead b) (gb_behind b))"

definition branch_ok :: "git_branch \<Rightarrow> bool" where
  "branch_ok b \<longleftrightarrow>
     gb_name b \<noteq> [] \<and> list_all graphic (gb_name b) \<and> list_all graphic (gb_upstream b) \<and> gb_ahead b < 2 ^ 63"

text \<open>The branches that the status counts as unsaved: a branch whose upstream is gone is not one of them.\<close>

definition reported :: "git_branch \<Rightarrow> bool" where
  "reported b \<longleftrightarrow> gb_upstream b = [] \<or> \<not> gb_gone b \<and> 0 < gb_ahead b"

definition unpushed_of :: "git_branch \<Rightarrow> UnpushedBranch" where
  "unpushed_of b =
     \<lparr>ub_Branch = gb_name b, ub_Ahead = (if gb_upstream b = [] then 0 else int (gb_ahead b)),
      ub_HasUpstream = (gb_upstream b \<noteq> [])\<rparr>"

lemma Index_absent: "p \<noteq> [] \<Longrightarrow> hd p \<notin> set s \<Longrightarrow> Index s p = None"
  by (induction s) (auto simp: prefix_Cons neq_Nil_conv)

lemma takeWhile_digits: "takeWhile is_digit (nat_digits n @ c # s) = nat_digits n" if "\<not> is_digit c"
  using nat_digits_digits [of n] that by (simp add: list_all_iff takeWhile_append2)

lemma Atoi_nat_digits: "n < 2 ^ 63 \<Longrightarrow> Atoi (nat_digits n) = Some (int n)"
  using Atoi_Itoa [of "int n"] by (simp add: Itoa_def in_int64_def)

lemma parseAhead_ahead:
  assumes "n < 2 ^ 63" "\<not> is_digit c"
  shows "parseAhead (''[ahead '' @ nat_digits n @ c # s) = int n"
proof -
  have "Index (''[ahead '' @ nat_digits n @ c # s) ''ahead '' = Some 1" by simp
  then show ?thesis
    using takeWhile_digits [OF assms(2)] Atoi_nat_digits [OF assms(1)] by (simp add: parseAhead_def Let_def)
qed

lemma parseAhead_none: "CHR ''a'' \<notin> set s \<Longrightarrow> parseAhead s = 0"
  using Index_absent [of "''ahead ''" s] by (simp add: parseAhead_def)

lemma parseAhead_track: "a < 2 ^ 63 \<Longrightarrow> parseAhead (track_text a b) = int a"
proof -
  assume a: "a < 2 ^ 63"
  have "CHR ''a'' \<notin> set (nat_digits b)"
    using nat_digits_digits [of b] by (auto simp: list_all_iff is_digit_def)
  then have "parseAhead (''[behind '' @ nat_digits b @ '']'') = 0" "parseAhead [] = 0"
    by (intro parseAhead_none; simp)+
  then show ?thesis
    using parseAhead_ahead [OF a, of "CHR '']''" "[]"] parseAhead_ahead [OF a, of "CHR '',''" "'' behind '' @ nat_digits b @ '']''"]
    by (simp add: track_text_def is_digit_def)
qed

lemma branch_line_text:
  assumes "branch_ok b"
  shows "branch_line (branch_text b) = (if reported b then Some (unpushed_of b) else None)"
proof -
  have nul: "CHR 0x00 \<notin> set (gb_name b)" "CHR 0x00 \<notin> set (gb_upstream b)"
    using assms by (auto simp: branch_ok_def list_all_iff graphic_def)
  then have "SplitN (branch_text b) (CHR 0x00) 3 =
      [gb_name b, gb_upstream b,
       if gb_upstream b = [] then [] else if gb_gone b then ''[gone]'' else track_text (gb_ahead b) (gb_behind b)]"
    by (simp add: branch_text_def numeral_3_eq_3)
  moreover have "branch_text b \<noteq> []" by (simp add: branch_text_def)
  ultimately show ?thesis
    using assms parseAhead_track [of "gb_ahead b" "gb_behind b"] parseAhead_track [of 0 "gb_behind b"]
      parseAhead_none [of "''[gone]''"]
    by (auto simp: branch_line_def branch_ok_def reported_def unpushed_of_def)
qed

lemma branch_text_edges:
  assumes "branch_ok b"
  shows "branch_text b \<noteq> [] \<and> not_space (hd (branch_text b)) \<and> not_space (last (branch_text b)) \<and>
         CHR 0x0A \<notin> set (branch_text b)"
proof -
  let ?t = "if gb_upstream b = [] then [] else if gb_gone b then ''[gone]''
            else track_text (gb_ahead b) (gb_behind b)"
  have shape: "branch_text b = gb_name b @ [CHR 0x00] @ gb_upstream b @ [CHR 0x00] @ ?t"
    by (simp add: branch_text_def)
  have ns: "not_space (CHR 0x00)" "not_space (CHR '']'')" by code_simp+
  have name: "gb_name b \<noteq> []" "list_all graphic (gb_name b)" "list_all graphic (gb_upstream b)"
    using assms by (auto simp: branch_ok_def)
  have "hd (branch_text b) = hd (gb_name b)" using name(1) by (simp add: shape)
  then have 1: "not_space (hd (branch_text b))"
    using name(1,2) graphic_not_space by (cases "gb_name b") auto
  have "?t \<noteq> [] \<Longrightarrow> last ?t = CHR '']''"
    by (simp add: track_text_def split: if_splits)
  then have "last (branch_text b) = CHR 0x00 \<or> last (branch_text b) = CHR '']''"
    by (cases "?t = []") (simp_all only: shape last_append, simp_all)
  then have 2: "not_space (last (branch_text b))" using ns by metis
  have "CHR 0x0A \<notin> set (nat_digits n)" for n
    using nat_digits_digits [of n] by (auto simp: list_all_iff is_digit_def)
  then have "CHR 0x0A \<notin> set ?t" by (simp add: track_text_def)
  moreover have "CHR 0x0A \<notin> set (gb_name b)" "CHR 0x0A \<notin> set (gb_upstream b)"
    using name by (auto simp: list_all_iff graphic_def)
  ultimately have "CHR 0x0A \<notin> set (branch_text b)" unfolding shape by simp
  then show ?thesis using 1 2 name(1) by (simp add: shape)
qed

lemma branches_parse:
  assumes "list_all branch_ok bs"
  shows "List.map_filter branch_line (Split (TrimSpace (concat (map (\<lambda>b. branch_text b @ [CHR 0x0A]) bs))) (CHR 0x0A)) =
         map unpushed_of (filter reported bs)"
proof (cases "bs = []")
  case True
  then show ?thesis by (simp add: map_filter_simps branch_line_def)
next
  case False
  let ?t = "Join (map branch_text bs) [CHR 0x0A]"
  have shape: "concat (map (\<lambda>b. branch_text b @ [CHR 0x0A]) bs) = ?t @ [CHR 0x0A]"
    using False by (induction bs rule: induct_list012) simp_all
  have edges: "branch_text b \<noteq> [] \<and> not_space (hd (branch_text b)) \<and> not_space (last (branch_text b)) \<and>
      CHR 0x0A \<notin> set (branch_text b)" if "b \<in> set bs" for b
    using that assms branch_text_edges by (simp add: list_all_iff)
  have "?t \<noteq> []" "not_space (hd ?t)"
    using False edges [of "hd bs"] Join_hd by (cases bs; simp)+
  moreover have "not_space (last ?t)"
    using False edges [of "last bs"] Join_last [of "branch_text (last bs)"] by (cases bs rule: rev_cases) simp_all
  ultimately have "TrimSpace (?t @ [CHR 0x0A]) = ?t" by (rule TrimSpace_newline)
  moreover have "Split ?t (CHR 0x0A) = map branch_text bs"
    using False edges by (intro Split_Join) auto
  moreover have "List.map_filter branch_line (map branch_text bs) = map unpushed_of (filter reported bs)"
    using assms by (induction bs) (simp_all add: map_filter_simps branch_line_text)
  ultimately show ?thesis by (simp only: shape)
qed

section \<open>Properties\<close>



text \<open>
  A branch whose upstream was deleted is invisible: with nothing else unsaved the clone counts as
  clean, and a delete without force removes it with the commits of that branch.
\<close>

theorem gone_branch_not_reported:
  assumes "projectPath env name = Inr dir" "pj_stat env (JoinPath dir ''.git'') = Exists"
    and "branch_ok b" "gb_upstream b \<noteq> []" "gb_gone b"
    and "gitOut env dir [''status'', ''--porcelain''] = Inr []" "gitOut env dir [''stash'', ''list''] = Inr []"
    and "gitOut env dir [''for-each-ref'', branch_format, ''refs/heads''] = Inr (branch_text b @ [CHR 0x0A])"
  shows "gs_Clean (fst (projectStatusAt env dir)) \<and>
         RemoveProject env name False = (map_option RemoveFailed (pj_remove env), [RemoveAll dir])"
proof -
  have "List.map_filter branch_line (Split (TrimSpace (branch_text b @ [CHR 0x0A])) (CHR 0x0A)) = []"
    using branches_parse [of "[b]"] assms(3-5) by (simp add: reported_def)
  then have "gs_Clean (fst (projectStatusAt env dir))" "snd (projectStatusAt env dir) = None"
    using assms(2) by (simp_all add: projectStatusAt_def assms(6-8) Let_def empty_status_def)
  then show ?thesis using assms(1) by (simp add: RemoveProject_def case_prod_beta)
qed

theorem gone_branch_not_reported_witness:
  "\<exists>env. snd (RemoveProject env ''app'' False) = [RemoveAll ''/home/u/projects/app'']"
proof -
  let ?b = "\<lparr>gb_name = ''main'', gb_upstream = ''origin/main'', gb_gone = True, gb_ahead = 2, gb_behind = 0\<rparr>"
  let ?env = "\<lparr>pj_HOME = ''/home/u'', pj_PATH = ''/bin'',
               pj_git = \<lambda>args. (if args ! 2 = ''for-each-ref'' then branch_text ?b @ [CHR 0x0A] else [], None),
               pj_stat = (\<lambda>p. Exists), pj_mkdir = None, pj_remove = None, pj_readdir = None\<rparr>"
  have p: "projectPath ?env ''app'' = Inr ''/home/u/projects/app''" by code_simp
  have ok: "branch_ok ?b" by (simp add: branch_ok_def graphic_def)
  have "snd (RemoveProject ?env ''app'' False) = [RemoveAll ''/home/u/projects/app'']"
    using gone_branch_not_reported [OF p _ ok] by (simp add: gitOut_def)
  then show ?thesis by blast
qed

text \<open>
  C25: only clones are deleted. With an absolute home directory, whatever name or slug a client
  sends, the path handed to a recursive deletion is a direct child of the projects directory: the
  named project, or the repository's own clone.
\<close>

theorem deletions_confined:
  assumes "home_ok env"
  shows "(RemoveAll p \<in> set (snd (RemoveProject env name force)) \<longrightarrow> child_of (ProjectsDir env) name p) \<and>
         (RemoveAll p \<in> set (snd (SyncProject env slug token)) \<longrightarrow>
            child_of (ProjectsDir env) (SplitN slug sep 2 ! 1) p)"
  using projectPath_child [OF assms]
  by (auto simp: RemoveProject_def SyncProject_def set_url_def Let_def
      split: sum.splits if_splits option.splits)

definition sample_proj :: proj_env where
  "sample_proj =
     \<lparr>pj_HOME = ''/home/u'', pj_PATH = ''/bin'', pj_git = (\<lambda>args. ([], Some ''exit status 1'')),
      pj_stat = (\<lambda>p. NotExist), pj_mkdir = None, pj_remove = None, pj_readdir = None\<rparr>"

theorem deletions_confined_witness:
  "\<exists>p. RemoveAll p \<in> set (snd (SyncProject sample_proj ''me/app'' ''tok'')) \<and>
     child_of (ProjectsDir sample_proj) ''app'' p"
proof -
  have home: "home_ok sample_proj" by (simp add: home_ok_def sample_proj_def IsAbs_def)
  have "RemoveAll ''/home/u/projects/app'' \<in> set (snd (SyncProject sample_proj ''me/app'' ''tok''))"
    "SplitN ''me/app'' sep 2 ! 1 = ''app''"
    by code_simp+
  then show ?thesis using deletions_confined [OF home] by metis
qed

text \<open>
  The address of the origin of the clone at \<open>dest\<close> after some calls: a clone into it or a
  \<^verbatim>\<open>set-url origin\<close> on it that succeeds sets the address, a command that fails leaves it.
\<close>

fun origin_step :: "proj_env \<Rightarrow> string \<Rightarrow> proj_call \<Rightarrow> string option \<Rightarrow> string option" where
  "origin_step env dest (Git args) url =
     (if snd (pj_git env args) \<noteq> None then url
      else if length args = 6 \<and> take 5 args = [''-C'', dest, ''remote'', ''set-url'', ''origin''] then Some (args ! 5)
      else if length args = 5 \<and> take 3 args = [''clone'', ''--depth'', ''1''] \<and> args ! 4 = dest then Some (args ! 3)
      else url)"
| "origin_step env dest _ url = url"

definition origin_after :: "proj_env \<Rightarrow> string \<Rightarrow> proj_call list \<Rightarrow> string option \<Rightarrow> string option" where
  "origin_after env dest calls url = fold (origin_step env dest) calls url"

lemma git_error_None: "git_error what r = None \<longleftrightarrow> snd r = None"
  by (cases r) (simp add: git_error_def split: option.splits)

text \<open>
  C27: the token does not stay behind. When a project was synchronised successfully, the last command of all
  was to set the origin of that clone to the address without the token. If that command succeeded, the
  origin is this address, whatever it was before; its error is ignored, and if it failed the origin
  is still the address with the token.
\<close>

theorem sync_strips_token:
  assumes "SyncProject env slug token = (None, calls)"
  shows "\<exists>dest. projectPath env (SplitN slug sep 2 ! 1) = Inr dest \<and>
           last calls = set_url dest (clean_url slug) \<and>
           origin_after env dest calls url =
             Some (if snd (run_git env (set_url dest (clean_url slug))) = None then clean_url slug
                   else authed_url token slug)"
  using assms
  by (auto simp: SyncProject_def Let_def origin_after_def set_url_def run_git_def git_error_None
      split: sum.splits if_splits option.splits)

theorem sync_strips_token_witness:
  "\<exists>calls calls'.
     SyncProject (sample_proj\<lparr>pj_git := (\<lambda>args. ([], None))\<rparr>) ''me/app'' ''tok'' = (None, calls) \<and>
     origin_after (sample_proj\<lparr>pj_git := (\<lambda>args. ([], None))\<rparr>) ''/home/u/projects/app'' calls None =
       Some ''https://github.com/me/app.git'' \<and>
     SyncProject (sample_proj\<lparr>pj_git := (\<lambda>args. ([], if args ! 2 = ''remote'' then Some ''exit status 1'' else None))\<rparr>)
       ''me/app'' ''tok'' = (None, calls') \<and>
     origin_after (sample_proj\<lparr>pj_git := (\<lambda>args. ([], if args ! 2 = ''remote'' then Some ''exit status 1'' else None))\<rparr>)
       ''/home/u/projects/app'' calls' None = Some ''https://tok@github.com/me/app.git''"
proof -
  let ?e = "sample_proj\<lparr>pj_git := (\<lambda>args. ([], None))\<rparr>"
  let ?f = "sample_proj\<lparr>pj_git := (\<lambda>args. ([], if args ! 2 = ''remote'' then Some ''exit status 1'' else None))\<rparr>"
  have "fst (SyncProject ?e ''me/app'' ''tok'') = None" "fst (SyncProject ?f ''me/app'' ''tok'') = None" by code_simp+
  then obtain calls calls' where c: "SyncProject ?e ''me/app'' ''tok'' = (None, calls)"
    and d: "SyncProject ?f ''me/app'' ''tok'' = (None, calls')" by (metis prod.collapse)
  have p: "projectPath ?e (SplitN ''me/app'' sep 2 ! 1) = Inr ''/home/u/projects/app''"
    "projectPath ?f (SplitN ''me/app'' sep 2 ! 1) = Inr ''/home/u/projects/app''" by code_simp+
  have "origin_after ?e ''/home/u/projects/app'' calls None = Some (clean_url ''me/app'')"
    using sync_strips_token [OF c, of None] p(1) by (auto simp: run_git_def set_url_def)
  moreover have "origin_after ?f ''/home/u/projects/app'' calls' None = Some (authed_url ''tok'' ''me/app'')"
    using sync_strips_token [OF d, of None] p(2) by (auto simp: run_git_def set_url_def)
  ultimately show ?thesis using c d by (simp add: clean_url_def authed_url_def)
qed

section \<open>Error texts hide the token\<close>

abbreviation scheme :: string where "scheme \<equiv> ''https://''"

lemma Cut_split: "c \<notin> set xs \<Longrightarrow> Cut (xs @ c # ys) c = Some (xs, ys)"
  by (simp add: Cut_Some_iff)

lemma redact_match:
  assumes "xs \<noteq> []" "CHR ''@'' \<notin> set xs"
  shows "redact (scheme @ xs @ CHR ''@'' # ys) = scheme @ redact ys"
  using assms by (subst redact.simps) (auto simp: Cut_split prefix_def neq_Nil_conv)

lemma redact_skip: "\<not> HasPrefix (c # s) scheme \<Longrightarrow> redact (c # s) = c # redact s"
  by (subst redact.simps) (simp only: list.case if_False)

lemma redact_empty: "redact (scheme @ CHR ''@'' # ys) = CHR ''h'' # redact (tl scheme @ CHR ''@'' # ys)"
  using Cut_split [of "CHR ''@''" "[]" ys] by (subst redact.simps) simp

text \<open>\<open>scheme\<close> does not overlap itself.\<close>

lemma scheme_in_front:
  assumes "HasPrefix (p @ scheme @ s) scheme" "p \<noteq> []"
  obtains q where "p = scheme @ q"
proof -
  have False if us: "scheme = p @ us" "prefix us (scheme @ s)" "us \<noteq> []" for us
  proof -
    have "tl scheme = tl p @ us" using us(1) assms(2) by (metis tl_append2)
    then have "hd us \<in> set (tl scheme)" using us(3) by (metis Un_iff hd_in_set set_append)
    moreover have "hd us = CHR ''h''" using us(2,3) by (auto simp: prefix_def append_eq_Cons_conv neq_Nil_conv)
    ultimately show False by simp
  qed
  then have "prefix scheme p" using assms(1) unfolding prefix_append by (metis append_Nil2 prefix_order.refl)
  then show ?thesis using that unfolding prefix_def by blast
qed

text \<open>What is redacted does not depend on the token, wherever the address stands.\<close>

lemma redact_token_free:
  assumes "tok \<noteq> []" "CHR ''@'' \<notin> set tok" "tok' \<noteq> []" "CHR ''@'' \<notin> set tok'"
  shows "redact (p @ scheme @ tok @ CHR ''@'' # s) = redact (p @ scheme @ tok' @ CHR ''@'' # s)"
proof (induction p rule: length_induct)
  case (1 p)
  let ?s = "\<lambda>t. scheme @ t @ CHR ''@'' # s"
  show ?case
  proof (cases p)
    case Nil
    then show ?thesis using redact_match [of tok s] redact_match [of tok' s] assms by simp
  next
    case (Cons c p')
    have IH: "redact (q @ ?s tok) = redact (q @ ?s tok')" if "length q < length p" for q
      using 1 that by blast
    show ?thesis
    proof (cases "\<exists>q. p = scheme @ q")
      case False
      have "\<not> HasPrefix (p @ scheme @ t) scheme" for t
        using scheme_in_front [of p t] False Cons by blast
      then have "redact (c # p' @ ?s t) = c # redact (p' @ ?s t)" for t
        using redact_skip [of c "p' @ ?s t"] unfolding Cons append_Cons by blast
      then show ?thesis using IH [of p'] unfolding Cons append_Cons by (simp del: append_Cons)
    next
      case True
      then obtain q where q: "p = scheme @ q" by blast
      show ?thesis
      proof (cases "CHR ''@'' \<in> set q")
        case False
        have "redact (p @ ?s t) = scheme @ redact s" if "CHR ''@'' \<notin> set t" for t
          using redact_match [of "q @ scheme @ t" s] False that unfolding q by simp
        then show ?thesis using assms by simp
      next
        case True
        then obtain x q' where x: "q = x @ CHR ''@'' # q'" "CHR ''@'' \<notin> set x"
          by (meson split_list_first)
        show ?thesis
        proof (cases "x = []")
          case True
          then have cp: "c = CHR ''h''" "p' = tl scheme @ CHR ''@'' # q'" using Cons q x by simp_all
          have "redact (p @ ?s t) = CHR ''h'' # redact (p' @ ?s t)" for t
            using redact_empty [of "q' @ ?s t"] unfolding Cons cp by simp
          then show ?thesis using IH [of p'] Cons by simp
        next
          case False
          have "redact (p @ ?s t) = scheme @ redact (q' @ ?s t)" for t
            using redact_match [OF False x(2), of "q' @ ?s t"] unfolding q x by simp
          then show ?thesis using IH [of q'] unfolding q x by simp
        qed
      qed
    qed
  qed
qed

text \<open>
  C39: error texts hide the token. When git fails and its output quotes the address with the token, at
  any place, the error of the synchronisation does not depend on the token: for any other
  token in its place it is the same text.
\<close>

theorem errors_hide_token:
  assumes "token \<noteq> []" "CHR ''@'' \<notin> set token" "other \<noteq> []" "CHR ''@'' \<notin> set other"
  shows "git_error what (before @ authed_url token slug @ after, err) =
         git_error what (before @ authed_url other slug @ after, err)"
  using redact_token_free [OF assms, of before "''github.com/'' @ slug @ ''.git'' @ after"]
  by (simp add: git_error_def authed_url_def split: option.splits)

theorem errors_hide_token_witness:
  "git_error ''git clone'' (''fatal: unable to access '' @ authed_url ''ghp_1'' ''me/app'' @ ''/'', Some ''exit status 128'') =
   git_error ''git clone'' (''fatal: unable to access '' @ authed_url ''x'' ''me/app'' @ ''/'', Some ''exit status 128'')"
  by (rule errors_hide_token) simp_all

text \<open>
  But it does when the pull fails. If setting the origin to the address with the token works
  and the pull then fails, \<open>SyncProject\<close> returns with no further command: the token is not stripped.
\<close>

theorem failed_pull_keeps_token:
  assumes "projectPath env (SplitN slug sep 2 ! 1) = Inr dest" "slugRe slug" "pj_stat env dest \<noteq> NotExist"
    and "run_git env (set_url dest (authed_url token slug)) = (out, None)"
    and "run_git env (Git [''-C'', dest, ''pull'', ''--ff-only'']) = (out', Some e)"
  shows "\<exists>err. SyncProject env slug token =
           (Some err, [set_url dest (authed_url token slug), Git [''-C'', dest, ''pull'', ''--ff-only'']])"
  using assms by (simp add: SyncProject_def Let_def git_error_def)

theorem failed_pull_keeps_token_witness:
  "\<exists>err. SyncProject (sample_proj\<lparr>pj_stat := (\<lambda>p. Exists),
       pj_git := (\<lambda>args. ([], if args ! 2 = ''pull'' then Some ''exit status 128'' else None))\<rparr>) ''me/app'' ''tok'' =
     (Some err, [set_url ''/home/u/projects/app'' (authed_url ''tok'' ''me/app''),
                 Git [''-C'', ''/home/u/projects/app'', ''pull'', ''--ff-only'']])"
proof -
  let ?env = "sample_proj\<lparr>pj_stat := (\<lambda>p. Exists),
       pj_git := (\<lambda>args. ([], if args ! 2 = ''pull'' then Some ''exit status 128'' else None))\<rparr>"
  have 1: "projectPath ?env (SplitN ''me/app'' sep 2 ! 1) = Inr ''/home/u/projects/app''" by code_simp
  have 2: "slugRe ''me/app''" by code_simp
  show ?thesis
    by (rule failed_pull_keeps_token [OF 1 2]) (simp_all add: run_git_def set_url_def)
qed

text \<open>
  What deleting without force can lose. A project is deleted without force exactly when its
  status is clean or could not be determined; so whenever git answered, a project with unsaved
  work is kept.
\<close>

theorem remove_needs_clean:
  assumes "projectPath env name = Inr dest"
  shows "(RemoveAll dest \<in> set (snd (RemoveProject env name False)) \<longleftrightarrow>
            gs_Clean (fst (projectStatusAt env dest)) \<or> snd (projectStatusAt env dest) \<noteq> None) \<and>
         (snd (projectStatusAt env dest) = None \<and> \<not> gs_Clean (fst (projectStatusAt env dest)) \<longrightarrow>
            RemoveProject env name False = (Some ErrUnsavedWork, []))"
  using assms by (auto simp: RemoveProject_def split: prod.splits)

theorem remove_needs_clean_witness:
  "RemoveProject sample_proj ''app'' False = (Some ErrUnsavedWork, [])"
proof -
  have 1: "projectPath sample_proj ''app'' = Inr ''/home/u/projects/app''" by code_simp
  have "snd (projectStatusAt sample_proj ''/home/u/projects/app'') = None \<and>
      \<not> gs_Clean (fst (projectStatusAt sample_proj ''/home/u/projects/app''))"
    by (simp add: projectStatusAt_def sample_proj_def empty_status_def)
  then show ?thesis using remove_needs_clean [OF 1] by blast
qed

section \<open>The environment of git\<close>

text \<open>Only these variables are handed on; the relay's own secrets have other names.\<close>

definition git_var :: "string \<Rightarrow> bool" where
  "git_var e \<longleftrightarrow> list_ex (HasPrefix e) [''GIT_TERMINAL_PROMPT='', ''GIT_ASKPASS='', ''PATH='', ''HOME='']"

interpretation git_env: env_policy gitEnv "\<lambda>e. \<not> git_var e"
  by unfold_locales (auto simp: gitEnv_def git_var_def split: if_splits)

end
