(* ===== verification/Files.thy ===== *)
theory Files
  imports Interfaces
begin

text \<open>
  \<^verbatim>\<open>internal/files/files.go\<close>: listing, downloading, uploading and deleting files of the one shared
  directory. The state is the file system, a map from absolute paths to nodes; the handlers only
  see it through the calls of the source, each of which may fail by a parameter.
\<close>

section \<open>The file system\<close>

datatype node = Regular string time | Directory | Symlink string

type_synonym fs = "string \<rightharpoonup> node"

definition MaxUploadBytes :: int where
  "MaxUploadBytes = 100 * 1024 * 1024"

text \<open>
  The errors of one request: reading the directory, opening, copying or closing, and removing.
\<close>

record file_env =
  fe_readdir :: "string list option"
  fe_open :: bool
  fe_copy :: bool
  fe_close :: bool
  fe_remove :: bool
  fe_now :: time

text \<open>
  \<^verbatim>\<open>os.Remove\<close> of a path: a failure leaves the file system as it is. \<^verbatim>\<open>os.OpenFile\<close> with
  \<^verbatim>\<open>O_NOFOLLOW\<close> fails on a symbolic link; for writing it also fails on a directory.
\<close>

definition os_remove :: "file_env \<Rightarrow> string \<Rightarrow> fs \<Rightarrow> bool \<times> fs" where
  "os_remove env p fs = (if fe_remove env \<and> fs p \<noteq> None then (True, fs(p := None)) else (False, fs))"

fun writable :: "node option \<Rightarrow> bool" where
  "writable None = True"
| "writable (Some (Regular _ _)) = True"
| "writable (Some _) = False"

record FileInfo =
  fi_Name :: string
  fi_Size :: int
  fi_ModTime :: int

datatype files_reply = Listing "FileInfo list" | Attachment string string | Uploaded FileInfo

section \<open>Names\<close>

definition file_char :: "char \<Rightarrow> bool" where
  "file_char c \<longleftrightarrow> is_alnum c \<or> c = CHR '' '' \<or> c = CHR ''.'' \<or> c = CHR ''_'' \<or> c = CHR ''-''"

definition validName :: "string \<Rightarrow> bool" where
  "validName = matches_class file_char 1 255"

definition resolve :: "string \<Rightarrow> string \<Rightarrow> string result" where
  "resolve dir name =
     (if name = [] \<or> name = ''.'' \<or> name = ''..'' then Inl ''invalid filename''
      else if ContainsAny name [sep, CHR 0x5C] \<or> Contains name ''..'' then Inl ''invalid filename''
      else if \<not> validName name then Inl ''invalid filename''
      else
        (let full = JoinPath dir name
         in if DirPath full \<noteq> Clean dir then Inl ''invalid filename'' else Inr full))"

section \<open>Handlers\<close>

definition seconds :: "time \<Rightarrow> int" where
  "seconds t = t div 10 ^ 9"

definition HandleList :: "file_env \<Rightarrow> string \<Rightarrow> http_request \<Rightarrow> fs \<Rightarrow> files_reply http_response \<times> fs" where
  "HandleList env dir r fs =
     (if req_Method r \<noteq> ''GET'' then (HttpError 405 ''method not allowed'', fs)
      else case fe_readdir env of
        None \<Rightarrow> (HttpError 500 ''could not read shared directory'', fs)
      | Some names \<Rightarrow>
          (HttpReply 200 (Some (Listing
             (List.map_filter (\<lambda>n. case fs (JoinPath dir n) of
                 Some (Regular content mtime) \<Rightarrow>
                   Some \<lparr>fi_Name = n, fi_Size = int (length content), fi_ModTime = seconds mtime\<rparr>
               | _ \<Rightarrow> None) names))), fs))"

text \<open>A range request is answered from the same content by \<^verbatim>\<open>http.ServeContent\<close>.\<close>

definition HandleDownload :: "file_env \<Rightarrow> string \<Rightarrow> http_request \<Rightarrow> fs \<Rightarrow> files_reply http_response \<times> fs" where
  "HandleDownload env dir r fs =
     (if req_Method r \<noteq> ''GET'' then (HttpError 405 ''method not allowed'', fs)
      else case resolve dir (query_get r ''name'') of
        Inl e \<Rightarrow> (HttpError 400 e, fs)
      | Inr full \<Rightarrow>
          (case fs full of
             None \<Rightarrow> (HttpError 404 ''file not found'', fs)
           | Some (Regular content mtime) \<Rightarrow>
               if \<not> fe_open env then (HttpError 500 ''could not open file'', fs)
               else (HttpReply 200 (Some (Attachment (BasePath full) content)), fs)
           | Some _ \<Rightarrow> (HttpError 400 ''not a regular file'', fs)))"

text \<open>
  A multipart body as its reader delivers it: the parts, with their form name, file name and
  content, and whether it ends properly. \<^verbatim>\<open>io.Copy\<close> of a part stops after one byte more than the
  limit.
\<close>

record part =
  pt_FormName :: string
  pt_FileName :: string
  pt_Content :: string

definition limited :: "string \<Rightarrow> string" where
  "limited content = take (nat (MaxUploadBytes + 1)) content"

definition store_part :: "file_env \<Rightarrow> string \<Rightarrow> part \<Rightarrow> fs \<Rightarrow> files_reply http_response \<times> fs" where
  "store_part env full p fs =
     (if \<not> fe_open env \<or> \<not> writable (fs full) then (HttpError 500 ''could not create file'', fs)
      else
        (let data = limited (pt_Content p);
             fs1 = fs(full \<mapsto> Regular data (fe_now env))
         in if \<not> fe_copy env \<or> \<not> fe_close env then (HttpError 500 ''write failed'', snd (os_remove env full fs1))
            else if MaxUploadBytes < int (length data)
            then (HttpError 413 ''file exceeds 100MB limit'', snd (os_remove env full fs1))
            else (HttpReply 200 (Some (Uploaded
                    \<lparr>fi_Name = BasePath full, fi_Size = int (length data), fi_ModTime = seconds (fe_now env)\<rparr>)), fs1)))"

fun upload_parts ::
  "file_env \<Rightarrow> string \<Rightarrow> part list \<Rightarrow> bool \<Rightarrow> fs \<Rightarrow> files_reply http_response \<times> fs" where
  "upload_parts env dir [] proper fs =
     (if proper then (HttpError 400 ''no file part in upload'', fs)
      else (HttpError 400 ''malformed multipart body'', fs))"
| "upload_parts env dir (p # ps) proper fs =
     (if pt_FormName p \<noteq> ''file'' then upload_parts env dir ps proper fs
      else case resolve dir (pt_FileName p) of
        Inl e \<Rightarrow> (HttpError 400 e, fs)
      | Inr full \<Rightarrow> store_part env full p fs)"

definition HandleUpload ::
  "file_env \<Rightarrow> string \<Rightarrow> (part list \<times> bool) option \<Rightarrow> http_request \<Rightarrow> fs \<Rightarrow> files_reply http_response \<times> fs" where
  "HandleUpload env dir body r fs =
     (if req_Method r \<noteq> ''POST'' then (HttpError 405 ''method not allowed'', fs)
      else case body of
        None \<Rightarrow> (HttpError 400 ''expected multipart/form-data'', fs)
      | Some (parts, proper) \<Rightarrow> upload_parts env dir parts proper fs)"

definition HandleDelete :: "file_env \<Rightarrow> string \<Rightarrow> http_request \<Rightarrow> fs \<Rightarrow> files_reply http_response \<times> fs" where
  "HandleDelete env dir r fs =
     (if req_Method r \<noteq> ''DELETE'' then (HttpError 405 ''method not allowed'', fs)
      else case resolve dir (query_get r ''name'') of
        Inl e \<Rightarrow> (HttpError 400 e, fs)
      | Inr full \<Rightarrow>
          (case fs full of
             None \<Rightarrow> (HttpError 404 ''file not found'', fs)
           | Some (Regular _ _) \<Rightarrow>
               (let (ok, fs1) = os_remove env full fs
                in if ok then (HttpReply 204 None, fs1) else (HttpError 500 ''delete failed'', fs1))
           | Some _ \<Rightarrow> (HttpError 400 ''not a regular file'', fs)))"

section \<open>Confinement\<close>

lemma validName_plain: "validName n \<Longrightarrow> n \<noteq> ''.'' \<Longrightarrow> n \<noteq> ''..'' \<Longrightarrow> plain n"
  by (auto simp: validName_def matches_class_def plain_def list_all_iff file_char_def byte_class_defs)

lemma resolve_child:
  assumes "IsAbs dir" "resolve dir name = Inr p"
  shows "child_of (Clean dir) name p"
proof -
  have n: "plain name" "p = JoinPath dir name"
    using assms(2) validName_plain by (auto simp: resolve_def Let_def split: if_splits)
  obtain cs where "list_all plain cs" "Clean dir = abs_path cs" "JoinPath dir name = abs_path (cs @ [name])"
    using assms(1) n(1) by (rule JoinPath_plain)
  then show ?thesis using n by (auto simp: child_of_def)
qed

interpretation shared_dir: path_guard Clean resolve IsAbs
  by unfold_locales (rule resolve_child)

lemma resolve_accepts:
  assumes "IsAbs dir" "validName name" "\<not> Contains name ''..''" "name \<noteq> ''.''"
  shows "\<exists>p. resolve dir name = Inr p"
proof -
  have dots: "name \<noteq> ''..''" using assms(3) by auto
  have "name \<noteq> []" using assms(2) by (auto simp: validName_def matches_class_def)
  moreover have "\<not> ContainsAny name [sep, CHR 0x5C]"
    using assms(2)
    by (auto simp: validName_def matches_class_def ContainsAny_def list_ex_iff list_all_iff file_char_def byte_class_defs)
  moreover have "plain name" using assms dots validName_plain by blast
  from assms(1) this have "DirPath (JoinPath dir name) = Clean dir"
    by (rule JoinPath_plain) (simp add: DirPath_abs \<open>plain name\<close>)
  ultimately show ?thesis using assms dots by (simp add: resolve_def Let_def)
qed

text \<open>One request of any kind, with the file name it carries.\<close>

datatype file_op = OpList | OpDownload | OpUpload "(part list \<times> bool) option" | OpDelete

fun handle :: "file_env \<Rightarrow> string \<Rightarrow> file_op \<Rightarrow> http_request \<Rightarrow> fs \<Rightarrow> files_reply http_response \<times> fs" where
  "handle env dir OpList r fs = HandleList env dir r fs"
| "handle env dir OpDownload r fs = HandleDownload env dir r fs"
| "handle env dir (OpUpload body) r fs = HandleUpload env dir body r fs"
| "handle env dir OpDelete r fs = HandleDelete env dir r fs"

lemma store_part_frame:
  "store_part env full p fs = (resp, fs') \<Longrightarrow> fs' q \<noteq> fs q \<Longrightarrow> q = full \<and> writable (fs q)"
  by (auto simp: store_part_def os_remove_def Let_def split: if_splits)

lemma upload_parts_frame:
  "upload_parts env dir ps proper fs = (resp, fs') \<Longrightarrow> fs' q \<noteq> fs q \<Longrightarrow>
     (\<exists>name. resolve dir name = Inr q) \<and> writable (fs q)"
  by (induction ps) (auto split: if_splits sum.splits dest: store_part_frame)

lemma handle_frame:
  assumes "handle env dir op r fs = (resp, fs')" "fs' q \<noteq> fs q"
  shows "(\<exists>name. resolve dir name = Inr q) \<and> writable (fs q)"
proof (cases op)
  case OpList
  then show ?thesis using assms by (auto simp: HandleList_def split: if_splits option.splits)
next
  case OpDownload
  then show ?thesis
    using assms by (auto simp: HandleDownload_def split: if_splits option.splits sum.splits node.splits)
next
  case (OpUpload body)
  then show ?thesis
    using assms upload_parts_frame
    by (auto simp: HandleUpload_def split: if_splits option.splits)
next
  case OpDelete
  then show ?thesis
    using assms
    by (auto simp: HandleDelete_def os_remove_def split: if_splits option.splits sum.splits node.splits)
qed

section \<open>Properties\<close>

text \<open>
  C28: only plain files of the shared directory change. Whatever the request, a path whose node
  changes is a direct child of the shared directory, and it was a regular file or did not exist:
  links and directories are never replaced or deleted, and nothing outside is touched.
\<close>

theorem files_confined:
  assumes "IsAbs dir" "handle env dir op r fs = (resp, fs')" "fs' q \<noteq> fs q"
  shows "(\<exists>name. child_of (Clean dir) name q) \<and> DirPath q = Clean dir \<and> writable (fs q)"
  using handle_frame [OF assms(2,3)] resolve_child [OF assms(1)] shared_dir.resolved_in_base [OF assms(1)]
  by blast

definition sample_files :: file_env where
  "sample_files = \<lparr>fe_readdir = Some [''a.txt''], fe_open = True, fe_copy = True, fe_close = True,
     fe_remove = True, fe_now = 0\<rparr>"

definition files_request :: "string \<Rightarrow> string \<Rightarrow> http_request" where
  "files_request meth name =
     \<lparr>req_Method = meth, req_Path = ''/api/files'', req_Query = [(''name'', name)], req_RemoteAddr = [],
      req_Authorization = [], req_Body = []\<rparr>"

theorem files_confined_witness:
  "\<exists>fs'. handle sample_files ''/s'' OpDelete (files_request ''DELETE'' ''a.txt'')
       [''/s/a.txt'' \<mapsto> Regular ''hi'' 0] = (HttpReply 204 None, fs') \<and>
     DirPath ''/s/a.txt'' = Clean ''/s'' \<and> fs' ''/s/a.txt'' = None"
proof -
  have r: "resolve ''/s'' ''a.txt'' = Inr ''/s/a.txt''" by code_simp
  have h: "handle sample_files ''/s'' OpDelete (files_request ''DELETE'' ''a.txt'') [''/s/a.txt'' \<mapsto> Regular ''hi'' 0] =
      (HttpReply 204 None, [''/s/a.txt'' \<mapsto> Regular ''hi'' 0](''/s/a.txt'' := None))"
    by (simp add: HandleDelete_def files_request_def query_get_def r os_remove_def sample_files_def)
  have "IsAbs ''/s''" by (simp add: IsAbs_def)
  from files_confined [OF this h, of "''/s/a.txt''"] h show ?thesis by simp
qed

lemma upload_parts_find:
  "upload_parts env dir parts proper fs =
     (case find (\<lambda>p. pt_FormName p = ''file'') parts of
        Some p \<Rightarrow> (case resolve dir (pt_FileName p) of Inl e \<Rightarrow> (HttpError 400 e, fs)
                    | Inr full \<Rightarrow> store_part env full p fs)
      | None \<Rightarrow> (HttpError 400 (if proper then ''no file part in upload'' else ''malformed multipart body''), fs))"
  by (induction parts) auto

text \<open>
  C29: what is uploaded can be downloaded. When an upload succeeds, its body has a file part, whatever
  parts are before and after it; the first one has at most
  100 MB; the reply names the file and its size; and every download of that name from the resulting
  file system, when the file can be opened, gives back exactly its content.
\<close>

theorem upload_download:
  assumes "IsAbs dir" "HandleUpload env dir (Some (parts, proper)) r fs = (HttpReply 200 (Some (Uploaded fi)), fs')"
  shows "\<exists>p. find (\<lambda>p. pt_FormName p = ''file'') parts = Some p \<and>
           int (length (pt_Content p)) \<le> 100 * 1024 * 1024 \<and>
           fi_Name fi = pt_FileName p \<and> fi_Size fi = int (length (pt_Content p)) \<and>
           (\<forall>env' r'. req_Method r' = ''GET'' \<longrightarrow> query_get r' ''name'' = pt_FileName p \<longrightarrow> fe_open env' \<longrightarrow>
              HandleDownload env' dir r' fs' = (HttpReply 200 (Some (Attachment (pt_FileName p) (pt_Content p))), fs'))"
proof -
  obtain p full where p: "find (\<lambda>p. pt_FormName p = ''file'') parts = Some p"
    and full: "resolve dir (pt_FileName p) = Inr full"
    and st: "store_part env full p fs = (HttpReply 200 (Some (Uploaded fi)), fs')"
    using assms(2) by (auto simp: HandleUpload_def upload_parts_find split: if_splits option.splits sum.splits)
  have base: "BasePath full = pt_FileName p" using shared_dir.resolved_name [OF assms(1) full] .
  have s: "int (length (limited (pt_Content p))) \<le> MaxUploadBytes"
    "fs' = fs(full \<mapsto> Regular (limited (pt_Content p)) (fe_now env))"
    "fi = \<lparr>fi_Name = BasePath full, fi_Size = int (length (limited (pt_Content p))), fi_ModTime = seconds (fe_now env)\<rparr>"
    using st by (auto simp: store_part_def Let_def split: if_splits)
  have "limited (pt_Content p) = pt_Content p"
    using s(1) by (auto simp: limited_def MaxUploadBytes_def min_def split: if_splits)
  then show ?thesis
    using s base full p by (simp add: HandleDownload_def MaxUploadBytes_def)
qed

text \<open>The body has another form field before the file and a second file after it.\<close>

theorem upload_download_witness:
  "\<exists>fi fs'. HandleUpload sample_files ''/s''
       (Some ([\<lparr>pt_FormName = ''note'', pt_FileName = [], pt_Content = ''x''\<rparr>,
               \<lparr>pt_FormName = ''file'', pt_FileName = ''a.txt'', pt_Content = ''hi''\<rparr>,
               \<lparr>pt_FormName = ''file'', pt_FileName = ''b.txt'', pt_Content = ''no''\<rparr>], True))
       (files_request ''POST'' []) Map.empty = (HttpReply 200 (Some (Uploaded fi)), fs') \<and>
     HandleDownload sample_files ''/s'' (files_request ''GET'' ''a.txt'') fs' =
       (HttpReply 200 (Some (Attachment ''a.txt'' ''hi'')), fs')"
proof -
  let ?ps = "[\<lparr>pt_FormName = ''note'', pt_FileName = [], pt_Content = ''x''\<rparr>,
              \<lparr>pt_FormName = ''file'', pt_FileName = ''a.txt'', pt_Content = ''hi''\<rparr>,
              \<lparr>pt_FormName = ''file'', pt_FileName = ''b.txt'', pt_Content = ''no''\<rparr>]"
  have r: "resolve ''/s'' ''a.txt'' = Inr ''/s/a.txt''" by code_simp
  obtain fi fs' where up: "HandleUpload sample_files ''/s'' (Some (?ps, True)) (files_request ''POST'' []) Map.empty =
      (HttpReply 200 (Some (Uploaded fi)), fs')"
    by (simp add: HandleUpload_def files_request_def r store_part_def limited_def sample_files_def
        MaxUploadBytes_def Let_def)
  have "IsAbs ''/s''" by (simp add: IsAbs_def)
  from upload_download [OF this up] obtain p where
    p: "find (\<lambda>p. pt_FormName p = ''file'') ?ps = Some p"
    and dl: "\<forall>env' r'. req_Method r' = ''GET'' \<longrightarrow> query_get r' ''name'' = pt_FileName p \<longrightarrow> fe_open env' \<longrightarrow>
      HandleDownload env' ''/s'' r' fs' = (HttpReply 200 (Some (Attachment (pt_FileName p) (pt_Content p))), fs')"
    by blast
  have "HandleDownload sample_files ''/s'' (files_request ''GET'' ''a.txt'') fs' =
      (HttpReply 200 (Some (Attachment ''a.txt'' ''hi'')), fs')"
  proof -
    have v: "pt_FileName p = ''a.txt''" "pt_Content p = ''hi''" using p by auto
    have "req_Method (files_request ''GET'' ''a.txt'') = ''GET''"
      "query_get (files_request ''GET'' ''a.txt'') ''name'' = pt_FileName p" "fe_open sample_files"
      by (simp_all add: files_request_def query_get_def sample_files_def v(1))
    with dl v show ?thesis by metis
  qed
  with up show ?thesis by blast
qed

text \<open>
  A rejected upload can cost the old file. An upload over the limit is answered with 413, but
  the file that was there under the same name has been truncated and is then removed.
\<close>

theorem oversize_upload_destroys:
  assumes "resolve dir (pt_FileName p) = Inr full" "pt_FormName p = ''file''" "req_Method r = ''POST''"
    and "100 * 1024 * 1024 < int (length (pt_Content p))"
    and "writable (fs full)" "fe_open env" "fe_copy env" "fe_close env" "fe_remove env"
  shows "\<exists>fs'. HandleUpload env dir (Some (p # ps, proper)) r fs = (HttpError 413 ''file exceeds 100MB limit'', fs') \<and>
           fs' full = None"
  using assms
  by (auto simp: HandleUpload_def store_part_def limited_def MaxUploadBytes_def os_remove_def Let_def)

end
