(* ===== verification/Go_Url.thy ===== *)
theory Go_Url
  imports Go_Strings Go_Encoding
begin

text \<open>
  \<^verbatim>\<open>url.Parse\<close> and \<^verbatim>\<open>URL.Hostname\<close> of Go's \<^verbatim>\<open>net/url\<close>, for the fields the relay reads: the
  scheme, the host with its port, the decoded path and the raw query. An error is \<open>None\<close>.
\<close>

record url =
  url_Scheme :: string
  url_Host :: string
  url_Path :: string
  url_RawQuery :: string

section \<open>Percent-decoding\<close>

definition unhex :: "char \<Rightarrow> nat option" where
  "unhex c =
     (if is_digit c then Some (byte c - 48)
      else if 97 \<le> byte c \<and> byte c \<le> 102 then Some (byte c - 87)
      else if 65 \<le> byte c \<and> byte c \<le> 70 then Some (byte c - 55) else None)"

text \<open>
  The modes of \<^verbatim>\<open>unescape\<close> that matter here: in a host (or zone) only some characters may stand
  unescaped, and only non-ASCII bytes and the percent sign may be escaped in a host.
\<close>

datatype escape_mode = EncodePath | EncodeHost | EncodeZone

definition host_char :: "char \<Rightarrow> bool" where
  "host_char c \<longleftrightarrow> is_alnum c \<or> c \<in> set ''-_.~!$&()*+,;=:[]<>'' \<or> c = CHR 0x27 \<or> c = CHR 0x22"

definition escape_ok :: "escape_mode \<Rightarrow> nat \<Rightarrow> nat \<Rightarrow> bool" where
  "escape_ok m h l =
     (case m of
        EncodePath \<Rightarrow> True
      | EncodeHost \<Rightarrow> 8 \<le> h \<or> (h = 2 \<and> l = 5)
      | EncodeZone \<Rightarrow> (h = 2 \<and> l = 5) \<or> 16 * h + l = 32 \<or> host_char (char_of (16 * h + l)))"

definition plain_ok :: "escape_mode \<Rightarrow> char \<Rightarrow> bool" where
  "plain_ok m c \<longleftrightarrow> m = EncodePath \<or> 128 \<le> byte c \<or> host_char c"

fun unescape :: "escape_mode \<Rightarrow> string \<Rightarrow> string option" where
  "unescape m [] = Some []"
| "unescape m (c # s) =
     (if c = CHR ''%'' then
        (case s of
           a # b # t \<Rightarrow>
             (case (unhex a, unhex b) of
                (Some h, Some l) \<Rightarrow>
                  if escape_ok m h l then map_option ((#) (char_of (16 * h + l))) (unescape m t) else None
              | _ \<Rightarrow> None)
         | _ \<Rightarrow> None)
      else if plain_ok m c then map_option ((#) c) (unescape m s) else None)"

section \<open>The parts of an address\<close>

text \<open>\<^verbatim>\<open>getScheme\<close>: \<open>None\<close> for a colon in front.\<close>

fun get_scheme :: "string \<Rightarrow> string \<Rightarrow> (string \<times> string) option" where
  "get_scheme acc [] = Some ([], acc)"
| "get_scheme acc (c # s) =
     (if is_lower c \<or> is_upper c then get_scheme (acc @ [c]) s
      else if is_digit c \<or> c = CHR ''+'' \<or> c = CHR ''-'' \<or> c = CHR ''.'' then
        (if acc = [] then Some ([], c # s) else get_scheme (acc @ [c]) s)
      else if c = CHR '':'' then (if acc = [] then None else Some (acc, s))
      else Some ([], acc @ c # s))"

text \<open>The text before and from the last occurrence of a byte, as \<^verbatim>\<open>strings.LastIndex\<close> splits it.\<close>

definition cut_last :: "string \<Rightarrow> char \<Rightarrow> (string \<times> string) option" where
  "cut_last s c =
     (if c \<notin> set s then None
      else (let n = length (takeWhile (\<lambda>x. x \<noteq> c) (rev s)) in
            Some (take (length s - Suc n) s, drop (length s - Suc n) s)))"

definition validOptionalPort :: "string \<Rightarrow> bool" where
  "validOptionalPort p \<longleftrightarrow> p = [] \<or> (hd p = CHR '':'' \<and> list_all is_digit (tl p))"

definition parse_host :: "string \<Rightarrow> string option" where
  "parse_host h =
     (if HasPrefix h ''['' then
        (case cut_last h (CHR '']'') of
           None \<Rightarrow> None
         | Some (a, b) \<Rightarrow>
             if \<not> validOptionalPort (tl b) then None
             else
               (case Index a ''%25'' of
                  None \<Rightarrow> unescape EncodeHost h
                | Some z \<Rightarrow>
                    (case (unescape EncodeHost (take z a), unescape EncodeZone (drop z a), unescape EncodeHost b) of
                       (Some x, Some y, Some w) \<Rightarrow> Some (x @ y @ w)
                     | _ \<Rightarrow> None)))
      else
        (case cut_last h (CHR '':'') of
           Some (a, b) \<Rightarrow> if \<not> validOptionalPort b then None else unescape EncodeHost h
         | None \<Rightarrow> unescape EncodeHost h))"

definition userinfo_ok :: "string \<Rightarrow> bool" where
  "userinfo_ok u \<longleftrightarrow>
     list_all (\<lambda>c. is_alnum c \<or> c \<in> set ''-._:~!$&()*+,;=%@'' \<or> c = CHR 0x27) u \<and>
     (case Cut u (CHR '':'') of
        None \<Rightarrow> unescape EncodePath u \<noteq> None
      | Some (n, p) \<Rightarrow> unescape EncodePath n \<noteq> None \<and> unescape EncodePath p \<noteq> None)"

definition parse_authority :: "string \<Rightarrow> string option" where
  "parse_authority a =
     (case cut_last a (CHR ''@'') of
        None \<Rightarrow> parse_host a
      | Some (u, h) \<Rightarrow> (case parse_host (tl h) of None \<Rightarrow> None
                        | Some host \<Rightarrow> if userinfo_ok u then Some host else None))"

section \<open>Parsing\<close>

definition cut_query :: "string \<Rightarrow> string \<times> string" where
  "cut_query s =
     (if HasSuffix s ''?'' \<and> CHR ''?'' \<notin> set (butlast s) then (butlast s, [])
      else (case Cut s (CHR ''?'') of None \<Rightarrow> (s, []) | Some (a, b) \<Rightarrow> (a, b)))"

definition parse_rest :: "string \<Rightarrow> string \<Rightarrow> string \<Rightarrow> url option" where
  "parse_rest scheme rest q =
     (if \<not> HasPrefix rest ''/'' \<and> scheme \<noteq> [] then
        Some \<lparr>url_Scheme = scheme, url_Host = [], url_Path = [], url_RawQuery = q\<rparr>
      else if \<not> HasPrefix rest ''/'' \<and> CHR '':'' \<in> set (takeWhile (\<lambda>c. c \<noteq> CHR 0x2F) rest) then None
      else if (scheme \<noteq> [] \<or> \<not> HasPrefix rest ''///'') \<and> HasPrefix rest ''//'' then
        (let au = takeWhile (\<lambda>c. c \<noteq> CHR 0x2F) (drop 2 rest);
             p = dropWhile (\<lambda>c. c \<noteq> CHR 0x2F) (drop 2 rest)
         in case (parse_authority au, unescape EncodePath p) of
              (Some h, Some path) \<Rightarrow> Some \<lparr>url_Scheme = scheme, url_Host = h, url_Path = path, url_RawQuery = q\<rparr>
            | _ \<Rightarrow> None)
      else
        map_option (\<lambda>path. \<lparr>url_Scheme = scheme, url_Host = [], url_Path = path, url_RawQuery = q\<rparr>)
          (unescape EncodePath rest))"

definition parse_url :: "string \<Rightarrow> url option" where
  "parse_url raw =
     (if list_ex (\<lambda>c. byte c < 32 \<or> byte c = 127) raw then None
      else if raw = ''*'' then Some \<lparr>url_Scheme = [], url_Host = [], url_Path = ''*'', url_RawQuery = []\<rparr>
      else
        (case get_scheme [] raw of
           None \<Rightarrow> None
         | Some (scheme, rest) \<Rightarrow>
             (let (rest', q) = cut_query rest in parse_rest (map lower_char scheme) rest' q)))"

definition ParseUrl :: "string \<Rightarrow> url option" where
  "ParseUrl raw =
     (case Cut raw (CHR ''#'') of
        None \<Rightarrow> parse_url raw
      | Some (u, frag) \<Rightarrow> if unescape EncodePath frag = None then None else parse_url u)"

definition Hostname :: "url \<Rightarrow> string" where
  "Hostname u =
     (let hp = url_Host u;
          h = (case cut_last hp (CHR '':'') of Some (a, b) \<Rightarrow> if validOptionalPort b then a else hp | None \<Rightarrow> hp)
      in if HasPrefix h ''['' \<and> HasSuffix h '']'' then butlast (tl h) else h)"

lemma unescape_path_plain: "CHR ''%'' \<notin> set s \<Longrightarrow> unescape EncodePath s = Some s"
  by (induction s) (auto simp: plain_ok_def)

lemma unescape_host_plain:
  "list_all (\<lambda>c. c \<noteq> CHR ''%'' \<and> host_char c) s \<Longrightarrow> unescape EncodeHost s = Some s"
  by (induction s) (auto simp: plain_ok_def)

end
