(* ===== verification/Webproxy.thy ===== *)
theory Webproxy
  imports Go_Url Go_Http
begin

text \<open>
  \<^verbatim>\<open>internal/webproxy/webproxy.go\<close>: the reverse proxy to local development servers. The backend
  is a parameter, a function from the request the director built to its response, or \<open>None\<close> when
  no response comes; the hop-by-hop headers that \<^verbatim>\<open>httputil.ReverseProxy\<close> handles around the two
  hooks are not modelled.
\<close>

section \<open>Requests and responses with headers\<close>

type_synonym headers = "string \<rightharpoonup> string"

record proxy_request =
  px_Method :: string
  px_Scheme :: string
  px_URLHost :: string
  px_Host :: string
  px_Path :: string
  px_RawQuery :: string
  px_Header :: headers
  px_Body :: string

record proxy_response =
  pr_Status :: nat
  pr_Header :: headers
  pr_Body :: string

definition header_get :: "headers \<Rightarrow> string \<Rightarrow> string" where
  "header_get h k = (case h k of None \<Rightarrow> [] | Some v \<Rightarrow> v)"

section \<open>Targets\<close>

definition proxy_prefix :: string where
  "proxy_prefix = ''/proxy/''"

definition blockedPorts :: "int list" where
  "blockedPorts =
     [7681, 7682, 11434, 51820, 2375, 2376, 2379, 2380, 3306, 5432, 5984, 6379, 8125, 9000, 9090,
      9200, 9300, 11211, 15672, 27017, 5900, 5901]"

definition parseTarget :: "string \<Rightarrow> (int \<times> string) option" where
  "parseTarget path =
     (if \<not> HasPrefix path proxy_prefix then None
      else
        (let tail = TrimPrefix path proxy_prefix;
             (portStr, rest) = (case Cut tail (CHR 0x2F) of None \<Rightarrow> (tail, []) | Some pr \<Rightarrow> pr)
         in case Atoi portStr of
              None \<Rightarrow> None
            | Some p \<Rightarrow> if portStr = [] then None else Some (p, rest)))"

definition rewriteLocation :: "string \<Rightarrow> int \<Rightarrow> string" where
  "rewriteLocation loc port =
     (if HasPrefix loc ''/proxy/'' then loc
      else
        (case ParseUrl loc of
           Some u \<Rightarrow>
             if url_Host u \<noteq> [] then
               (if Hostname u = ''127.0.0.1'' \<or> Hostname u = ''localhost'' then
                  (let out = proxy_prefix @ Itoa port @ ''/'' @ TrimPrefix (url_Path u) ''/''
                   in if url_RawQuery u \<noteq> [] then out @ ''?'' @ url_RawQuery u else out)
                else loc)
             else if HasPrefix loc ''/'' then proxy_prefix @ Itoa port @ loc else loc
         | None \<Rightarrow> if HasPrefix loc ''/'' then proxy_prefix @ Itoa port @ loc else loc))"

section \<open>The handler\<close>

definition Director :: "int \<Rightarrow> string \<Rightarrow> proxy_request \<Rightarrow> proxy_request" where
  "Director port rest req =
     (let target = ''127.0.0.1:'' @ Itoa port;
          h = (px_Header req)(''Authorization'' := None, ''Cookie'' := None, ''Origin'' := None)
      in req\<lparr>px_Scheme := ''http'', px_URLHost := target, px_Host := target, px_Path := ''/'' @ rest,
            px_Header := h(''X-Forwarded-Host'' \<mapsto> header_get h ''Host'')\<rparr>)"

definition ModifyResponse :: "int \<Rightarrow> proxy_response \<Rightarrow> proxy_response" where
  "ModifyResponse port resp =
     (let loc = header_get (pr_Header resp) ''Location''
      in if loc \<noteq> [] then resp\<lparr>pr_Header := (pr_Header resp)(''Location'' \<mapsto> rewriteLocation loc port)\<rparr>
         else resp)"

text \<open>The request handed to the backend, if any, and the answer to the client.\<close>

definition Handler ::
  "(proxy_request \<Rightarrow> proxy_response option) \<Rightarrow> proxy_request \<Rightarrow>
   proxy_request option \<times> proxy_response http_response" where
  "Handler backend r =
     (case parseTarget (px_Path r) of
        None \<Rightarrow> (None, HttpError 400 ''usage: /proxy/{port}/{path}'')
      | Some (port, rest) \<Rightarrow>
          if port < 1024 \<or> 65535 < port \<or> port \<in> set blockedPorts
          then (None, HttpError 403 ''port not allowed'')
          else
            (let out = Director port rest r
             in (Some out,
                 case backend out of
                   Some resp \<Rightarrow> HttpReply (pr_Status resp) (Some (ModifyResponse port resp))
                 | None \<Rightarrow> HttpError 502 (''no server reachable on port '' @ Itoa port))))"

section \<open>Targets and redirects\<close>

lemma Itoa_no_slash: "CHR 0x2F \<notin> set (Itoa i)"
  using nat_digits_digits [of "nat i"] nat_digits_digits [of "nat (- i)"]
  by (auto simp: Itoa_def list_all_iff is_digit_def)

lemma Itoa_not_Nil: "Itoa i \<noteq> []"
  by (simp add: Itoa_def)

lemma parseTarget_built:
  assumes "in_int64 port"
  shows "parseTarget (proxy_prefix @ Itoa port @ CHR 0x2F # rest) = Some (port, rest)"
  unfolding parseTarget_def
  by (simp only: TrimPrefix_append Let_def Cut_append [OF Itoa_no_slash])
     (simp add: Atoi_Itoa [OF assms] Itoa_not_Nil)








lemma allowed_in_int64: "\<not> (port < 1024 \<or> 65535 < port) \<Longrightarrow> in_int64 port"
  by (simp add: in_int64_def)

lemma Handler_sent:
  "Handler backend r = (Some out, resp) \<Longrightarrow>
     (\<exists>port rest. parseTarget (px_Path r) = Some (port, rest) \<and> 1024 \<le> port \<and> port \<le> 65535 \<and>
        port \<notin> set blockedPorts \<and> out = Director port rest r)"
  by (auto simp: Handler_def Let_def split: option.splits if_splits)

lemma Director_fields:
  "px_URLHost (Director port rest r) = ''127.0.0.1:'' @ Itoa port"
  "px_Path (Director port rest r) = ''/'' @ rest"
  "px_RawQuery (Director port rest r) = px_RawQuery r"
  "px_Method (Director port rest r) = px_Method r"
  "px_Body (Director port rest r) = px_Body r"
  "k \<in> {''Authorization'', ''Cookie'', ''Origin''} \<Longrightarrow> px_Header (Director port rest r) k = None"
  by (auto simp: Director_def Let_def)

section \<open>Properties\<close>

text \<open>
  C30: the proxy only reaches allowed local ports and never leaks credentials. Whatever the
  request, a request handed to a backend goes to 127.0.0.1 on the port named in its path, a port in
  1024 to 65535 that is none of the relay's own or of the blocked services; its path is the rest of
  the requested path, its method, query and body are the client's, and the relay token, cookies and
  origin are not in its headers.
\<close>

theorem proxy_confined:
  assumes "Handler backend r = (Some out, resp)"
  shows "\<exists>port rest. parseTarget (px_Path r) = Some (port, rest) \<and> 1024 \<le> port \<and> port \<le> 65535 \<and>
           port \<notin> set blockedPorts \<and> px_URLHost out = ''127.0.0.1:'' @ Itoa port \<and>
           px_Path out = ''/'' @ rest \<and> px_RawQuery out = px_RawQuery r \<and> px_Method out = px_Method r \<and>
           px_Body out = px_Body r \<and>
           (\<forall>k \<in> {''Authorization'', ''Cookie'', ''Origin''}. px_Header out k = None)"
  using Handler_sent [OF assms] Director_fields by metis

definition sample_proxy :: "string \<Rightarrow> proxy_request" where
  "sample_proxy path =
     \<lparr>px_Method = ''GET'', px_Scheme = [], px_URLHost = [], px_Host = ''10.100.0.1:7682'', px_Path = path,
      px_RawQuery = ''v=1'', px_Header = [''Authorization'' \<mapsto> ''Bearer t''], px_Body = []\<rparr>"

definition sample_reply :: proxy_response where
  "sample_reply = \<lparr>pr_Status = 200, pr_Header = Map.empty, pr_Body = ''hello''\<rparr>"

lemma Itoa_8000: "Itoa 8000 = ''8000''"
proof -
  have "digit_char 8 = CHR ''8''" "digit_char 0 = CHR ''0''" by code_simp+
  then show ?thesis by (simp add: Itoa_def nat_digits.simps)
qed

lemma sample_target: "parseTarget ''/proxy/8000/a'' = Some (8000, ''a'')"
  using parseTarget_built [of 8000 "''a''"] by (simp add: Itoa_8000 proxy_prefix_def in_int64_def)

theorem proxy_confined_witness:
  "\<exists>out resp. Handler (\<lambda>_. Some sample_reply) (sample_proxy ''/proxy/8000/a'') = (Some out, resp) \<and>
     px_URLHost out = ''127.0.0.1:8000'' \<and> px_Header out ''Authorization'' = None"
proof -
  let ?r = "sample_proxy ''/proxy/8000/a''" and ?b = "\<lambda>_. Some sample_reply"
  have sample_path: "px_Path ?r = ''/proxy/8000/a''" by (simp add: sample_proxy_def)
  have h: "Handler ?b ?r = (Some (Director 8000 ''a'' ?r), HttpReply 200 (Some (ModifyResponse 8000 sample_reply)))"
    using sample_target by (simp add: Handler_def sample_path sample_reply_def blockedPorts_def Let_def)
  from proxy_confined [OF h] obtain port rest where
    p: "parseTarget (px_Path ?r) = Some (port, rest)" "px_URLHost (Director 8000 ''a'' ?r) = ''127.0.0.1:'' @ Itoa port"
      "\<forall>k \<in> {''Authorization'', ''Cookie'', ''Origin''}. px_Header (Director 8000 ''a'' ?r) k = None"
    by blast
  have "port = 8000" using p(1) sample_target by (simp add: sample_proxy_def)
  then have "px_URLHost (Director 8000 ''a'' ?r) = ''127.0.0.1:8000'' \<and>
      px_Header (Director 8000 ''a'' ?r) ''Authorization'' = None"
    using p Itoa_8000 by simp
  with h show ?thesis by blast
qed











text \<open>
  A redirect to another port of the same machine is sent to the port of the request.
\<close>

theorem redirect_other_port:
  "rewriteLocation ''http://localhost:9999/a'' 8000 = ''/proxy/8000/a''"
proof -
  have u: "ParseUrl ''http://localhost:9999/a'' =
      Some \<lparr>url_Scheme = ''http'', url_Host = ''localhost:9999'', url_Path = ''/a'', url_RawQuery = []\<rparr>"
    (is "_ = Some ?u")
    by code_simp
  have h: "Hostname ?u = ''localhost''" by code_simp
  show ?thesis using h by (simp add: rewriteLocation_def u Itoa_8000 proxy_prefix_def TrimPrefix_def)
qed

text \<open>
  An escaped question mark in the path of a redirect becomes a real one: the decoded path is
  written out unescaped.
\<close>

theorem redirect_unescaped:
  "rewriteLocation ''http://localhost/a%3Fb'' 8000 = ''/proxy/8000/a?b''"
proof -
  have u: "ParseUrl ''http://localhost/a%3Fb'' =
      Some \<lparr>url_Scheme = ''http'', url_Host = ''localhost'', url_Path = ''/a?b'', url_RawQuery = []\<rparr>"
    (is "_ = Some ?u")
    by code_simp
  have h: "Hostname ?u = ''localhost''" by code_simp
  show ?thesis using h by (simp add: rewriteLocation_def u Itoa_8000 proxy_prefix_def TrimPrefix_def)
qed

text \<open>
  The header \<^verbatim>\<open>Host\<close> is not among the headers of a request that Go's server read (it is moved
  to a field of its own), so the forwarded host is always empty.
\<close>

theorem forwarded_host_empty:
  assumes "px_Header r ''Host'' = None"
  shows "px_Header (Director port rest r) ''X-Forwarded-Host'' = Some []"
  using assms by (simp add: Director_def header_get_def Let_def)

end
