(* ===== verification/Client.thy ===== *)
theory Client
  imports Auth Session_Hub_Proofs Projects
begin

text \<open>
  \<^verbatim>\<open>internal/relay/client.go\<close>: the messages of one WebSocket client and what each does to the hub,
  the authenticator, the token file and the projects, with the answers it writes. The two
  goroutines beside the read loop (status delivery and ping) are steps of the relation at the end.
\<close>

section \<open>Validation patterns\<close>

definition lower_hex :: "char \<Rightarrow> bool" where
  "lower_hex c \<longleftrightarrow> is_digit c \<or> (97 \<le> byte c \<and> byte c \<le> 102)"

definition any_hex :: "char \<Rightarrow> bool" where
  "any_hex c \<longleftrightarrow> lower_hex c \<or> (65 \<le> byte c \<and> byte c \<le> 70)"

definition sessionNameRe :: "string \<Rightarrow> bool" where
  "sessionNameRe = matches_class name_char 1 64"

definition tokenRe :: "string \<Rightarrow> bool" where
  "tokenRe = matches_class lower_hex 64 64"

definition apnsTokenRe :: "string \<Rightarrow> bool" where
  "apnsTokenRe = matches_class any_hex 64 64"

definition activityTokenRe :: "string \<Rightarrow> bool" where
  "activityTokenRe = matches_class any_hex 64 512"

section \<open>Messages\<close>

record ClientMessage =
  cm_Type :: string
  cm_Name :: string
  cm_CWD :: string
  cm_SessionType :: string
  cm_Session :: string
  cm_GitHubToken :: string
  cm_Slug :: string
  cm_ID :: string
  cm_Allow :: bool
  cm_Token :: string
  cm_DeviceToken :: string
  cm_ActivityToken :: string
  cm_Force :: bool

definition zero_message :: ClientMessage where
  "zero_message =
     \<lparr>cm_Type = [], cm_Name = [], cm_CWD = [], cm_SessionType = [], cm_Session = [], cm_GitHubToken = [],
      cm_Slug = [], cm_ID = [], cm_Allow = False, cm_Token = [], cm_DeviceToken = [], cm_ActivityToken = [],
      cm_Force = False\<rparr>"

text \<open>
  \<^verbatim>\<open>json.Unmarshal\<close> into the struct: a name selects the field whose tag it equals up to the case of
  ASCII letters, unknown names are skipped, \<^verbatim>\<open>null\<close> leaves the field, another type is an error; a
  later pair overwrites an earlier one. A text that is no JSON is \<open>None\<close>.
\<close>

fun str_field :: "json \<Rightarrow> (string \<Rightarrow> ClientMessage) \<Rightarrow> ClientMessage \<Rightarrow> ClientMessage option" where
  "str_field (JStr s) upd m = Some (upd s)"
| "str_field JNull upd m = Some m"
| "str_field _ upd m = None"

fun bool_field :: "json \<Rightarrow> (bool \<Rightarrow> ClientMessage) \<Rightarrow> ClientMessage \<Rightarrow> ClientMessage option" where
  "bool_field (JBool b) upd m = Some (upd b)"
| "bool_field JNull upd m = Some m"
| "bool_field _ upd m = None"

definition decode_field :: "string \<times> json \<Rightarrow> ClientMessage \<Rightarrow> ClientMessage option" where
  "decode_field f m =
     (let k = map lower_char (fst f); v = snd f in
      if k = ''type'' then str_field v (\<lambda>s. m\<lparr>cm_Type := s\<rparr>) m
      else if k = ''name'' then str_field v (\<lambda>s. m\<lparr>cm_Name := s\<rparr>) m
      else if k = ''cwd'' then str_field v (\<lambda>s. m\<lparr>cm_CWD := s\<rparr>) m
      else if k = ''sessiontype'' then str_field v (\<lambda>s. m\<lparr>cm_SessionType := s\<rparr>) m
      else if k = ''session'' then str_field v (\<lambda>s. m\<lparr>cm_Session := s\<rparr>) m
      else if k = ''githubtoken'' then str_field v (\<lambda>s. m\<lparr>cm_GitHubToken := s\<rparr>) m
      else if k = ''slug'' then str_field v (\<lambda>s. m\<lparr>cm_Slug := s\<rparr>) m
      else if k = ''id'' then str_field v (\<lambda>s. m\<lparr>cm_ID := s\<rparr>) m
      else if k = ''allow'' then bool_field v (\<lambda>b. m\<lparr>cm_Allow := b\<rparr>) m
      else if k = ''token'' then str_field v (\<lambda>s. m\<lparr>cm_Token := s\<rparr>) m
      else if k = ''device_token'' then str_field v (\<lambda>s. m\<lparr>cm_DeviceToken := s\<rparr>) m
      else if k = ''activity_token'' then str_field v (\<lambda>s. m\<lparr>cm_ActivityToken := s\<rparr>) m
      else if k = ''force'' then bool_field v (\<lambda>b. m\<lparr>cm_Force := b\<rparr>) m
      else Some m)"

fun decode_fields :: "(string \<times> json) list \<Rightarrow> ClientMessage \<Rightarrow> ClientMessage option" where
  "decode_fields [] m = Some m"
| "decode_fields (f # fs) m = (case decode_field f m of None \<Rightarrow> None | Some m' \<Rightarrow> decode_fields fs m')"

fun decode_message :: "json option \<Rightarrow> ClientMessage option" where
  "decode_message (Some (JObj fs)) = decode_fields fs zero_message"
| "decode_message (Some JNull) = Some zero_message"
| "decode_message _ = None"

section \<open>Answers\<close>

definition error_message :: "string \<Rightarrow> string \<Rightarrow> json" where
  "error_message code msg = JObj [(''type'', JStr ''error''), (''code'', JStr code), (''message'', JStr msg)]"

text \<open>A field with \<^verbatim>\<open>omitempty\<close> is left out when it is empty.\<close>

definition omitempty :: "string \<Rightarrow> string \<Rightarrow> (string \<times> json) list" where
  "omitempty k v = (if v = [] then [] else [(k, JStr v)])"

definition session_json :: "(time \<Rightarrow> string) \<Rightarrow> SessionRecord \<Rightarrow> json" where
  "session_json rfc s =
     JObj ([(''name'', JStr (sr_Name s)), (''sessionType'', JStr (sr_Type s)), (''status'', JStr (sr_Status s))] @
           omitempty ''workingDirectory'' (sr_WorkingDirectory s) @ omitempty ''project'' (sr_Project s) @
           [(''lastActivity'', JStr (rfc (sr_LastActivity s)))] @ omitempty ''source'' (sr_Source s))"

definition SessionListJSON :: "(time \<Rightarrow> string) \<Rightarrow> string option \<Rightarrow> Hub \<Rightarrow> json" where
  "SessionListJSON rfc out h =
     JObj [(''type'', JStr ''session_list''), (''sessions'', JArr (map (session_json rfc) (ListSessions out h)))]"

definition project_json :: "ProjectRecord \<Rightarrow> json" where
  "project_json p = JObj [(''name'', JStr (prj_Name p)), (''path'', JStr (prj_Path p))]"

definition unpushed_json :: "UnpushedBranch \<Rightarrow> json" where
  "unpushed_json u =
     JObj [(''branch'', JStr (ub_Branch u)), (''ahead'', JNum (ub_Ahead u)), (''hasUpstream'', JBool (ub_HasUpstream u))]"

definition status_json :: "ProjectGitStatus \<Rightarrow> json" where
  "status_json st =
     JObj [(''type'', JStr ''project_status_result''), (''name'', JStr (gs_Name st)), (''isRepo'', JBool (gs_IsRepo st)),
           (''clean'', JBool (gs_Clean st)), (''uncommitted'', JNum (int (gs_Uncommitted st))),
           (''untracked'', JNum (int (gs_Untracked st))), (''stashes'', JNum (int (gs_Stashes st))),
           (''unpushed'', JArr (map unpushed_json (gs_Unpushed st)))]"

section \<open>The token file\<close>

text \<open>
  The files under \<^verbatim>\<open>/etc/continuum\<close>, by path. Reading, writing and renaming may each fail; a failed
  write leaves the temporary file as it was, or with what had been written so far.
\<close>

type_synonym files = "string \<rightharpoonup> string"

record client_env =
  ce_now :: time
  ce_rfc :: "time \<Rightarrow> string"
  ce_tmux :: "string option"
  ce_proj :: proj_env
  ce_read :: "string option"
  ce_write :: "(string \<times> string option) option"
  ce_rename :: "string option"

definition envPath :: string where
  "envPath = ''/etc/continuum/env''"

definition token_key :: string where
  "token_key = ''CONTINUUM_TOKEN=''"

text \<open>The loop over the lines, up to the first one with the token: \<open>None\<close> when there is none.\<close>

fun replace_token :: "string \<Rightarrow> string list \<Rightarrow> string list option" where
  "replace_token tok [] = None"
| "replace_token tok (l # ls) =
     (if HasPrefix l token_key then Some ((token_key @ tok) # ls)
      else map_option ((#) l) (replace_token tok ls))"

definition token_lines :: "string \<Rightarrow> string list \<Rightarrow> string list" where
  "token_lines tok ls =
     (case replace_token tok ls of
        Some ls' \<Rightarrow> ls'
      | None \<Rightarrow> if ls \<noteq> [] \<and> last ls = [] then butlast ls @ [token_key @ tok, []] else ls @ [token_key @ tok])"

definition rewriteEnvFile :: "client_env \<Rightarrow> string \<Rightarrow> files \<Rightarrow> string option \<times> files" where
  "rewriteEnvFile env newToken fs =
     (case (ce_read env, fs envPath) of
        (Some e, _) \<Rightarrow> (Some e, fs)
      | (None, None) \<Rightarrow> (Some ''open /etc/continuum/env: no such file or directory'', fs)
      | (None, Some content) \<Rightarrow>
          (let tmp = envPath @ ''.tmp'';
               data = Join (token_lines newToken (Split content (CHR 0x0A))) [CHR 0x0A]
           in case ce_write env of
                Some (e, part) \<Rightarrow> (Some e, case part of None \<Rightarrow> fs | Some p \<Rightarrow> fs(tmp \<mapsto> p))
              | None \<Rightarrow>
                  (case ce_rename env of
                     Some e \<Rightarrow> (Some e, fs(tmp \<mapsto> data))
                   | None \<Rightarrow> (None, fs(tmp := None, envPath \<mapsto> data)))))"

section \<open>Handling one message\<close>

record Relay =
  rl_hub :: Hub
  rl_auth :: Authenticator
  rl_files :: files

text \<open>What a message does besides changing the state: the answers, the calls to git and the file
  system, and a synchronisation started in a goroutine (slug and token).\<close>

record effects =
  ef_sent :: "json list"
  ef_calls :: "proj_call list"
  ef_sync :: "(string \<times> string) option"

definition send :: "json list \<Rightarrow> effects" where
  "send ms = \<lparr>ef_sent = ms, ef_calls = [], ef_sync = None\<rparr>"

abbreviation fail_with :: "string \<Rightarrow> string \<Rightarrow> effects" where
  "fail_with code msg \<equiv> send [error_message code msg]"

definition on_list_sessions :: "client_env \<Rightarrow> Relay \<Rightarrow> effects \<times> Relay" where
  "on_list_sessions env r = (send [SessionListJSON (ce_rfc env) (ce_tmux env) (rl_hub r)], r)"

definition on_create_session :: "client_env \<Rightarrow> ClientMessage \<Rightarrow> Relay \<Rightarrow> effects \<times> Relay" where
  "on_create_session env m r =
     (if \<not> sessionNameRe (cm_Name m) then (fail_with ''invalid_name'' ''Session name invalid'', r)
      else case CreateSession (ce_now env) (cm_Name m) (cm_CWD m) (cm_SessionType m) (rl_hub r) of
        (Inl e, h) \<Rightarrow> (fail_with ''create_failed'' e, r\<lparr>rl_hub := h\<rparr>)
      | (Inr s, h) \<Rightarrow> on_list_sessions env (r\<lparr>rl_hub := h\<rparr>))"

definition on_attach_session :: "ClientMessage \<Rightarrow> Relay \<Rightarrow> effects \<times> Relay" where
  "on_attach_session m r =
     (if \<not> sessionNameRe (cm_Name m) then (fail_with ''invalid_name'' ''Session name invalid'', r)
      else if GetSession (cm_Name m) (rl_hub r) = None then (fail_with ''not_found'' ''Session not found'', r)
      else (send [], r))"

definition on_delete_session :: "client_env \<Rightarrow> ClientMessage \<Rightarrow> Relay \<Rightarrow> effects \<times> Relay" where
  "on_delete_session env m r =
     (if \<not> sessionNameRe (cm_Name m) then (fail_with ''invalid_name'' ''Session name invalid'', r)
      else on_list_sessions env (r\<lparr>rl_hub := DeleteSession (cm_Name m) (rl_hub r)\<rparr>))"

definition on_register_device :: "ClientMessage \<Rightarrow> Relay \<Rightarrow> effects \<times> Relay" where
  "on_register_device m r =
     (if cm_DeviceToken m = [] \<or> \<not> apnsTokenRe (cm_DeviceToken m) then (send [], r)
      else (send [], r\<lparr>rl_hub := RegisterDevice (cm_DeviceToken m) (rl_hub r)\<rparr>))"

definition on_register_activity :: "ClientMessage \<Rightarrow> Relay \<Rightarrow> effects \<times> Relay" where
  "on_register_activity m r =
     (if \<not> sessionNameRe (cm_Session m) then (send [], r)
      else if cm_ActivityToken m \<noteq> [] \<and> \<not> activityTokenRe (cm_ActivityToken m) then (send [], r)
      else (send [], r\<lparr>rl_hub := RegisterActivity (cm_Session m) (cm_ActivityToken m) (rl_hub r)\<rparr>))"

definition on_rotate_token :: "client_env \<Rightarrow> ClientMessage \<Rightarrow> Relay \<Rightarrow> effects \<times> Relay" where
  "on_rotate_token env m r =
     (if \<not> tokenRe (cm_Token m) then (fail_with ''invalid_token'' ''token must be 64 lowercase hex chars'', r)
      else case rewriteEnvFile env (cm_Token m) (rl_files r) of
        (Some e, fs) \<Rightarrow> (fail_with ''rotate_failed'' (''env file rewrite failed: '' @ e), r\<lparr>rl_files := fs\<rparr>)
      | (None, fs) \<Rightarrow>
          (send [JObj [(''type'', JStr ''token_rotated'')]],
           r\<lparr>rl_files := fs, rl_auth := UpdateToken (cm_Token m) (rl_auth r)\<rparr>))"

definition on_list_projects :: "client_env \<Rightarrow> Relay \<Rightarrow> effects \<times> Relay" where
  "on_list_projects env r =
     (case ListProjects (ce_proj env) of
        Inl e \<Rightarrow> (fail_with ''list_failed'' e, r)
      | Inr ps \<Rightarrow>
          (send [JObj [(''type'', JStr ''project_list''), (''projects'', JArr (map project_json ps))]], r))"

definition on_sync_project :: "ClientMessage \<Rightarrow> Relay \<Rightarrow> effects \<times> Relay" where
  "on_sync_project m r =
     (if cm_Slug m = [] then (fail_with ''invalid_slug'' ''slug required'', r)
      else if cm_GitHubToken m = [] then (fail_with ''missing_token'' ''githubToken required'', r)
      else (\<lparr>ef_sent = [JObj [(''type'', JStr ''project_sync_started''), (''slug'', JStr (cm_Slug m))]],
             ef_calls = [], ef_sync = Some (cm_Slug m, cm_GitHubToken m)\<rparr>, r))"

text \<open>The goroutine of a synchronisation: its answer and its calls.\<close>

definition sync_goroutine :: "client_env \<Rightarrow> string \<Rightarrow> string \<Rightarrow> json \<times> proj_call list" where
  "sync_goroutine env slug token =
     (case SyncProject (ce_proj env) slug token of
        (Some e, calls) \<Rightarrow>
          (JObj [(''type'', JStr ''project_sync_error''), (''slug'', JStr slug), (''message'', JStr ''sync failed'')], calls)
      | (None, calls) \<Rightarrow>
          (JObj [(''type'', JStr ''project_sync_ok''), (''slug'', JStr slug), (''name'', JStr (last (SplitN slug sep 2)))],
           calls))"

fun remove_code :: "remove_error \<Rightarrow> string \<times> string" where
  "remove_code ErrUnsavedWork = (''remove_needs_force'', ''project has unsaved work'')"
| "remove_code (RemoveFailed e) = (''remove_failed'', e)"

definition on_remove_project :: "client_env \<Rightarrow> ClientMessage \<Rightarrow> Relay \<Rightarrow> effects \<times> Relay" where
  "on_remove_project env m r =
     (case RemoveProject (ce_proj env) (cm_Name m) (cm_Force m) of
        (Some e, calls) \<Rightarrow> ((case_prod fail_with (remove_code e))\<lparr>ef_calls := calls\<rparr>, r)
      | (None, calls) \<Rightarrow>
          ((send [JObj [(''type'', JStr ''project_removed''), (''name'', JStr (cm_Name m))]])\<lparr>ef_calls := calls\<rparr>, r))"

definition on_project_status :: "client_env \<Rightarrow> ClientMessage \<Rightarrow> Relay \<Rightarrow> effects \<times> Relay" where
  "on_project_status env m r =
     (case ProjectStatus (ce_proj env) (cm_Name m) of
        (st, Some e) \<Rightarrow> (fail_with ''status_failed'' e, r)
      | (st, None) \<Rightarrow> (send [status_json st], r))"

definition handle_message :: "client_env \<Rightarrow> ClientMessage \<Rightarrow> Relay \<Rightarrow> effects \<times> Relay" where
  "handle_message env m r =
     (let t = cm_Type m in
      if t = ''list_sessions'' then on_list_sessions env r
      else if t = ''create_session'' then on_create_session env m r
      else if t = ''attach_session'' then on_attach_session m r
      else if t = ''delete_session'' then on_delete_session env m r
      else if t = ''register_device'' then on_register_device m r
      else if t = ''register_activity'' then on_register_activity m r
      else if t = ''rotate_token'' then on_rotate_token env m r
      else if t = ''list_projects'' then on_list_projects env r
      else if t = ''sync_project'' then on_sync_project m r
      else if t = ''remove_project'' then on_remove_project env m r
      else if t = ''project_status'' then on_project_status env m r
      else (send [], r))"

text \<open>The read loop, over the messages that arrive until a read fails.\<close>

fun read_loop :: "(client_env \<times> json option) list \<Rightarrow> Relay \<Rightarrow> effects list \<times> Relay" where
  "read_loop [] r = ([], r)"
| "read_loop ((env, raw) # rest) r =
     (case decode_message raw of
        None \<Rightarrow> read_loop rest r
      | Some m \<Rightarrow>
          (let (e, r1) = handle_message env m r; (es, r2) = read_loop rest r1 in (e # es, r2)))"

definition HandleClient :: "string \<Rightarrow> (client_env \<times> json option) list \<Rightarrow> Relay \<Rightarrow> effects list \<times> Relay" where
  "HandleClient clientID raws r =
     (let r0 = r\<lparr>rl_hub := RegisterClient clientID [] (rl_hub r)\<rparr>;
          (es, r1) = read_loop raws r0
      in (es, r1\<lparr>rl_hub := UnregisterClient clientID (rl_hub r1)\<rparr>))"

end
