(* ===== verification/Client_Proofs.thy ===== *)
theory Client_Proofs
  imports Client
begin

text \<open>
  Facts about the client protocol: every message is a sequence of hub steps, the hub only ever
  holds validated input, and a token rotation either happens in the file and in memory or not at
  all.
\<close>

section \<open>The relay as a step relation\<close>

inductive relay_step :: "Relay \<Rightarrow> Relay \<Rightarrow> bool" where
  Connect: "relay_step r (r\<lparr>rl_hub := RegisterClient cid [] (rl_hub r)\<rparr>)"
| Disconnect: "relay_step r (r\<lparr>rl_hub := UnregisterClient cid (rl_hub r)\<rparr>)"
| Deliver: "map_of (hub_clients (rl_hub r)) cid = Some ch \<Longrightarrow>
    relay_step r (r\<lparr>rl_hub := RegisterClient cid (drop 1 ch) (rl_hub r)\<rparr>)"
| Message: "decode_message raw = Some m \<Longrightarrow> relay_step r (snd (handle_message env m r))"
| Login: "relay_step r (r\<lparr>rl_auth := snd (ValidateRequest now now' req (rl_auth r))\<rparr>)"
| Publish: "relay_step r (r\<lparr>rl_hub := snd (PublishStatus rfc name st la (rl_hub r))\<rparr>)"
| Activity_done: "relay_step r (r\<lparr>rl_hub := activity_done name err (rl_hub r)\<rparr>)"
| Notify: "relay_step r (r\<lparr>rl_hub := snd (NotifyPermission name tool rid (rl_hub r))\<rparr>)"
| Alert_done: "relay_step r (r\<lparr>rl_hub := alert_done tok err (rl_hub r)\<rparr>)"

inductive_cases relay_stepE: "relay_step r r'"

text \<open>One case per handler, without the comparison of message types.\<close>

lemma handle_message_cases:
  assumes "P (on_list_sessions env r)" "P (on_create_session env m r)" "P (on_attach_session m r)"
    "P (on_delete_session env m r)" "P (on_register_device m r)" "P (on_register_activity m r)"
    "cm_Type m = ''rotate_token'' \<Longrightarrow> P (on_rotate_token env m r)" "P (on_list_projects env r)" "P (on_sync_project m r)"
    "P (on_remove_project env m r)" "P (on_project_status env m r)" "P (send [], r)"
  shows "P (handle_message env m r)"
proof (cases "cm_Type m = ''rotate_token''")
  case True
  then show ?thesis
    unfolding handle_message_def Let_def using assms by (simp only: if_split simp_thms)
next
  case False
  then show ?thesis
    unfolding handle_message_def Let_def using assms by (simp only: if_split simp_thms if_False)
qed

text \<open>What a message can do to the hub, with the validation it went through.\<close>

definition hub_effect :: "client_env \<Rightarrow> ClientMessage \<Rightarrow> Hub \<Rightarrow> Hub \<Rightarrow> bool" where
  "hub_effect env m h h' \<longleftrightarrow>
     h' = h \<or>
     (sessionNameRe (cm_Name m) \<and>
        h' = snd (CreateSession (ce_now env) (cm_Name m) (cm_CWD m) (cm_SessionType m) h)) \<or>
     h' = DeleteSession (cm_Name m) h \<or>
     (apnsTokenRe (cm_DeviceToken m) \<and> h' = RegisterDevice (cm_DeviceToken m) h) \<or>
     (sessionNameRe (cm_Session m) \<and> (cm_ActivityToken m = [] \<or> activityTokenRe (cm_ActivityToken m)) \<and>
        h' = RegisterActivity (cm_Session m) (cm_ActivityToken m) h)"

lemma create_session_hub: "hub_effect env m (rl_hub r) (rl_hub (snd (on_create_session env m r)))"
  by (cases "CreateSession (ce_now env) (cm_Name m) (cm_CWD m) (cm_SessionType m) (rl_hub r)")
     (auto simp: hub_effect_def on_create_session_def on_list_sessions_def split: sum.splits)

lemma session_hub:
  "hub_effect env m (rl_hub r) (rl_hub (snd (on_list_sessions env r)))"
  "hub_effect env m (rl_hub r) (rl_hub (snd (on_attach_session m r)))"
  "hub_effect env m (rl_hub r) (rl_hub (snd (on_delete_session env m r)))"
  "hub_effect env m (rl_hub r) (rl_hub (snd (on_register_device m r)))"
  "hub_effect env m (rl_hub r) (rl_hub (snd (on_register_activity m r)))"
  by (simp_all add: hub_effect_def on_list_sessions_def on_attach_session_def
        on_delete_session_def on_register_device_def on_register_activity_def)

lemma hub_effect_refl: "hub_effect env m h h"
  by (simp add: hub_effect_def)

lemma rotate_token_hub: "rl_hub (snd (on_rotate_token env m r)) = rl_hub r"
  by (auto simp: on_rotate_token_def split: option.splits prod.splits)

lemma project_hub:
  "snd (on_list_projects env r) = r" "snd (on_sync_project m r) = r"
  "snd (on_remove_project env m r) = r" "snd (on_project_status env m r) = r"
  by (auto simp: on_list_projects_def on_sync_project_def on_remove_project_def on_project_status_def
      split: sum.splits option.splits prod.splits)

lemma handle_message_hub: "hub_effect env m (rl_hub r) (rl_hub (snd (handle_message env m r)))"
  by (rule handle_message_cases [where P = "\<lambda>x. hub_effect env m (rl_hub r) (rl_hub (snd x))"])
     (simp_all only: create_session_hub session_hub rotate_token_hub project_hub hub_effect_refl snd_conv)

lemma session_auth:
  "rl_auth (snd (on_create_session env m r)) = rl_auth r"
  "rl_auth (snd (on_list_sessions env r)) = rl_auth r" "rl_auth (snd (on_attach_session m r)) = rl_auth r"
  "rl_auth (snd (on_delete_session env m r)) = rl_auth r" "rl_auth (snd (on_register_device m r)) = rl_auth r"
  "rl_auth (snd (on_register_activity m r)) = rl_auth r"
  by (auto simp: on_list_sessions_def on_create_session_def on_attach_session_def on_delete_session_def
      on_register_device_def on_register_activity_def split: sum.splits prod.splits)

lemma session_files:
  "rl_files (snd (on_create_session env m r)) = rl_files r"
  "rl_files (snd (on_list_sessions env r)) = rl_files r" "rl_files (snd (on_attach_session m r)) = rl_files r"
  "rl_files (snd (on_delete_session env m r)) = rl_files r" "rl_files (snd (on_register_device m r)) = rl_files r"
  "rl_files (snd (on_register_activity m r)) = rl_files r"
  by (auto simp: on_list_sessions_def on_create_session_def on_attach_session_def on_delete_session_def
      on_register_device_def on_register_activity_def split: sum.splits prod.splits)

lemma rotate_token_auth:
  "rl_auth (snd (on_rotate_token env m r)) = rl_auth r \<or>
   (tokenRe (cm_Token m) \<and> rl_auth (snd (on_rotate_token env m r)) = UpdateToken (cm_Token m) (rl_auth r))"
  by (auto simp: on_rotate_token_def split: option.splits prod.splits)

lemma handle_message_auth:
  "rl_auth (snd (handle_message env m r)) = rl_auth r \<or>
   (tokenRe (cm_Token m) \<and> rl_auth (snd (handle_message env m r)) = UpdateToken (cm_Token m) (rl_auth r))"
  by (rule handle_message_cases [where P = "\<lambda>x. rl_auth (snd x) = rl_auth r \<or>
        (tokenRe (cm_Token m) \<and> rl_auth (snd x) = UpdateToken (cm_Token m) (rl_auth r))"])
     (simp_all only: session_auth project_hub rotate_token_auth snd_conv simp_thms)

lemma hub_effect_step: "hub_effect env m h h' \<Longrightarrow> h' = h \<or> hub_step h h'"
  unfolding hub_effect_def by (auto intro: hub_step.intros)

lemma relay_step_hub: "relay_step r r' \<Longrightarrow> rl_hub r' = rl_hub r \<or> hub_step (rl_hub r) (rl_hub r')"
proof (erule relay_stepE)
  fix raw m env
  assume "r' = snd (handle_message env m r)"
  then show ?thesis using hub_effect_step [OF handle_message_hub [of env m r]] by simp
next
  fix cid ch
  assume "r' = r\<lparr>rl_hub := RegisterClient cid (drop (Suc 0) ch) (rl_hub r)\<rparr>" "map_of (hub_clients (rl_hub r)) cid = Some ch"
  then show ?thesis using hub_step.intros(3) [of "rl_hub r" cid ch] by simp
qed (auto intro: hub_step.intros)

lemma relay_steps_hub: "relay_step\<^sup>*\<^sup>* r r' \<Longrightarrow> hub_step\<^sup>*\<^sup>* (rl_hub r) (rl_hub r')"
  by (induction rule: rtranclp_induct) (auto dest: relay_step_hub intro: rtranclp.rtrancl_into_rtrancl)

section \<open>Validated input\<close>

definition inputs_ok :: "Hub \<Rightarrow> bool" where
  "inputs_ok h \<longleftrightarrow>
     list_all (\<lambda>(n, s). sessionNameRe n) (hub_sessions h) \<and>
     list_all apnsTokenRe (hub_deviceTokens h) \<and>
     (\<forall>n t. hub_activityTokens h n = Some t \<longrightarrow> sessionNameRe n \<and> activityTokenRe t)"

lemma inputs_ok_cong:
  "hub_sessions h' = hub_sessions h \<Longrightarrow> hub_deviceTokens h' = hub_deviceTokens h \<Longrightarrow>
     hub_activityTokens h' = hub_activityTokens h \<Longrightarrow> inputs_ok h' = inputs_ok h"
  by (simp add: inputs_ok_def)

lemma inputs_ok_message:
  assumes "inputs_ok (rl_hub r)"
  shows "inputs_ok (rl_hub (snd (handle_message env m r)))"
proof -
  have c: "inputs_ok (snd (CreateSession now n cwd ty h))" if "inputs_ok h" "sessionNameRe n" for now n cwd ty h
    using that
    by (auto simp: CreateSession_def inputs_ok_def Let_def list_all_update split: option.splits)
  have d: "inputs_ok (DeleteSession n h)" if "inputs_ok h" for n h
    using that by (simp add: DeleteSession_def inputs_ok_def list_all_delete)
  have v: "inputs_ok (RegisterDevice t h)" if "inputs_ok h" "apnsTokenRe t" for t h
    using that by (auto simp: RegisterDevice_def inputs_ok_def Let_def list_all_iff dest: in_set_dropD)
  have a: "inputs_ok (RegisterActivity n t h)" if "inputs_ok h" "sessionNameRe n" "t = [] \<or> activityTokenRe t" for n t h
    using that by (auto simp: RegisterActivity_def inputs_ok_def)
  show ?thesis using handle_message_hub [of env m r] assms c d v a unfolding hub_effect_def by metis
qed

definition auth_source :: "string \<Rightarrow> Authenticator \<Rightarrow> bool" where
  "auth_source token a \<longleftrightarrow> (auth_token a = token \<or> tokenRe (auth_token a)) \<and> auth_inv a"

definition relay_inv :: "string \<Rightarrow> Relay \<Rightarrow> bool" where
  "relay_inv token r \<longleftrightarrow> inputs_ok (rl_hub r) \<and> hub_inv (rl_hub r) \<and> auth_source token (rl_auth r)"

definition relay_start :: "string \<Rightarrow> Relay \<Rightarrow> bool" where
  "relay_start token r \<longleftrightarrow> (\<exists>apns. rl_hub r = NewHub apns \<and> rl_auth r = New token)"

lemma inputs_ok_step: "inputs_ok (rl_hub r) \<Longrightarrow> relay_step r r' \<Longrightarrow> inputs_ok (rl_hub r')"
proof (erule relay_stepE)
  fix raw m env
  assume "inputs_ok (rl_hub r)" "r' = snd (handle_message env m r)"
  then show "inputs_ok (rl_hub r')" by (simp add: inputs_ok_message)
next
  fix name err
  assume "inputs_ok (rl_hub r)" "r' = r\<lparr>rl_hub := activity_done name err (rl_hub r)\<rparr>"
  then show "inputs_ok (rl_hub r')"
    by (auto simp: activity_done_def inputs_ok_def split: option.splits)
next
  fix tok err
  assume "inputs_ok (rl_hub r)" "r' = r\<lparr>rl_hub := alert_done tok err (rl_hub r)\<rparr>"
  then show "inputs_ok (rl_hub r')"
    using set_remove1_subset [of tok "hub_deviceTokens (rl_hub r)"]
    by (auto simp: alert_done_def inputs_ok_def list_all_iff)
next
  fix name tool rid
  assume "inputs_ok (rl_hub r)" "r' = r\<lparr>rl_hub := snd (NotifyPermission name tool rid (rl_hub r))\<rparr>"
  then show "inputs_ok (rl_hub r')" by (simp add: NotifyPermission_def Let_def inputs_ok_def)
next
  fix rfc name st la
  assume "inputs_ok (rl_hub r)" "r' = r\<lparr>rl_hub := snd (PublishStatus rfc name st la (rl_hub r))\<rparr>"
  then show "inputs_ok (rl_hub r')" by (simp add: PublishStatus_def Let_def inputs_ok_def)
qed (simp_all add: RegisterClient_def UnregisterClient_def inputs_ok_def)

lemma auth_step_relay: "relay_step r r' \<Longrightarrow> auth_source token (rl_auth r) \<Longrightarrow> auth_source token (rl_auth r')"
proof (erule relay_stepE)
  fix raw m env
  assume "auth_source token (rl_auth r)" "r' = snd (handle_message env m r)"
  then show "auth_source token (rl_auth r')"
    using handle_message_auth [of env m r] auth_inv_UpdateToken by (auto simp: UpdateToken_def auth_source_def)
qed (simp_all add: ValidateRequest_def auth_inv_validate auth_source_def)

interpretation relay_system: invariant_system "relay_start token" relay_step "relay_inv token" for token
proof
  fix r assume "relay_start token r"
  then obtain apns where s: "rl_hub r = NewHub apns" "rl_auth r = New token"
    by (auto simp: relay_start_def)
  have "hub_inv (NewHub apns)" by (rule hub_system.start_inv) (auto simp: hub_start_def)
  moreover have "auth_inv (New token)" by (rule auth_system.start_inv) blast
  ultimately show "relay_inv token r" using s by (simp add: relay_inv_def auth_source_def inputs_ok_def NewHub_def New_def)
next
  fix r r' assume "relay_inv token r" "relay_step r r'"
  then show "relay_inv token r'"
    using inputs_ok_step auth_step_relay relay_step_hub [of r r'] hub_inv_step
    by (auto simp: relay_inv_def)
qed

section \<open>The token file\<close>

abbreviation token_line :: "string \<Rightarrow> bool" where
  "token_line l \<equiv> HasPrefix l token_key"

lemma replace_token_Some:
  "replace_token tok ls = Some ls' \<Longrightarrow>
     find token_line ls' = Some (token_key @ tok) \<and>
     filter (Not \<circ> token_line) ls' = filter (Not \<circ> token_line) ls \<and> ls' \<noteq> [] \<and>
     set ls' \<subseteq> insert (token_key @ tok) (set ls)"
  by (induction ls arbitrary: ls') (auto split: if_splits)

lemma replace_token_None: "replace_token tok ls = None \<Longrightarrow> find token_line ls = None"
  by (induction ls) (auto split: if_splits)

lemma find_append: "find P (xs @ ys) = (case find P xs of None \<Rightarrow> find P ys | Some x \<Rightarrow> Some x)"
  by (induction xs) auto

lemma token_lines_spec:
  "find token_line (token_lines tok ls) = Some (token_key @ tok) \<and>
   filter (Not \<circ> token_line) (token_lines tok ls) = filter (Not \<circ> token_line) ls \<and>
   token_lines tok ls \<noteq> [] \<and> set (token_lines tok ls) \<subseteq> insert [] (insert (token_key @ tok) (set ls))"
proof (cases "replace_token tok ls")
  case (Some ls')
  then show ?thesis using replace_token_Some [OF Some] by (auto simp: token_lines_def)
next
  case None
  note n = replace_token_None [OF None]
  show ?thesis
  proof (cases "ls \<noteq> [] \<and> last ls = []")
    case True
    then obtain xs where ls: "ls = xs @ [[]]" by (metis append_butlast_last_id)
    have "find token_line xs = None" using n by (simp add: ls find_append split: option.splits)
    then show ?thesis using None by (auto simp: token_lines_def ls find_append token_key_def)
  next
    case False
    then have "token_lines tok ls = ls @ [token_key @ tok]" using None by (auto simp: token_lines_def)
    then show ?thesis using n by (auto simp: find_append)
  qed
qed

lemma token_no_newline: "tokenRe tok \<Longrightarrow> CHR 0x0A \<notin> set (token_key @ tok)"
  by (auto simp: tokenRe_def matches_class_def token_key_def list_all_iff lower_hex_def is_digit_def)

lemma token_file_lines:
  assumes "tokenRe tok"
  shows "Split (Join (token_lines tok (Split old (CHR 0x0A))) [CHR 0x0A]) (CHR 0x0A) = token_lines tok (Split old (CHR 0x0A))"
proof (rule Split_Join)
  show "token_lines tok (Split old (CHR 0x0A)) \<noteq> []" using token_lines_spec by blast
  fix l assume "l \<in> set (token_lines tok (Split old (CHR 0x0A)))"
  then have "l = [] \<or> l = token_key @ tok \<or> l \<in> set (Split old (CHR 0x0A))"
    using token_lines_spec [of tok "Split old (CHR 0x0A)"] by blast
  then show "CHR 0x0A \<notin> set l"
    using Split_pieces [of l old "CHR 0x0A"] token_no_newline [OF assms] by fastforce
qed

lemma envPath_neq: "envPath @ ''.tmp'' \<noteq> envPath"
  by simp

lemma rewriteEnvFile_cases:
  assumes "rewriteEnvFile env tok fs = (err, fs')"
  shows "(err \<noteq> None \<and> fs' envPath = fs envPath) \<or>
         (err = None \<and> (\<exists>old. fs envPath = Some old \<and>
            fs' envPath = Some (Join (token_lines tok (Split old (CHR 0x0A))) [CHR 0x0A])))"
  using assms envPath_neq
  by (auto simp: rewriteEnvFile_def Let_def split: option.splits, metis)

text \<open>The two outcomes of a rotation, with the new contents of the file.\<close>

lemma rotation_cases:
  assumes "on_rotate_token env m r = (eff, r')"
  shows "(ef_sent eff = [JObj [(''type'', JStr ''token_rotated'')]] \<and> tokenRe (cm_Token m) \<and>
            rl_auth r' = UpdateToken (cm_Token m) (rl_auth r) \<and>
            (\<exists>old. rl_files r envPath = Some old \<and>
               rl_files r' envPath = Some (Join (token_lines (cm_Token m) (Split old (CHR 0x0A))) [CHR 0x0A]))) \<or>
         ((\<exists>code msg. ef_sent eff = [error_message code msg]) \<and>
            rl_auth r' = rl_auth r \<and> rl_files r' envPath = rl_files r envPath)"
proof (cases "tokenRe (cm_Token m)")
  case False
  then have "ef_sent eff = [error_message ''invalid_token'' ''token must be 64 lowercase hex chars'']" "r' = r"
    using assms by (auto simp: on_rotate_token_def send_def)
  then show ?thesis by blast
next
  case True
  obtain err fs where rw: "rewriteEnvFile env (cm_Token m) (rl_files r) = (err, fs)"
    by (cases "rewriteEnvFile env (cm_Token m) (rl_files r)")
  show ?thesis
  proof (cases err)
    case None
    then obtain old where old: "rl_files r envPath = Some old"
      "fs envPath = Some (Join (token_lines (cm_Token m) (Split old (CHR 0x0A))) [CHR 0x0A])"
      using rewriteEnvFile_cases [OF rw] by auto
    show ?thesis
      using assms rw None True old by (auto simp: on_rotate_token_def send_def)
  next
    case (Some e)
    then have "ef_sent eff = [error_message ''rotate_failed'' (''env file rewrite failed: '' @ e)]"
      "r' = r\<lparr>rl_files := fs\<rparr>"
      using assms rw True by (auto simp: on_rotate_token_def send_def)
    moreover have "fs envPath = rl_files r envPath" using rewriteEnvFile_cases [OF rw] Some by simp
    ultimately have "\<exists>code msg. ef_sent eff = [error_message code msg]"
      "rl_auth r' = rl_auth r \<and> rl_files r' envPath = rl_files r envPath"
      by (blast, simp)
    then show ?thesis by (intro disjI2 conjI) simp_all
  qed
qed

lemma rotation_success:
  assumes "on_rotate_token env m r = (eff, r')" "ef_sent eff = [JObj [(''type'', JStr ''token_rotated'')]]"
  shows "tokenRe (cm_Token m) \<and> rl_auth r' = UpdateToken (cm_Token m) (rl_auth r) \<and>
         (\<exists>new. rl_files r' envPath = Some new \<and>
            find token_line (Split new (CHR 0x0A)) = Some (token_key @ cm_Token m))"
  using rotation_cases [OF assms(1)]
proof
  assume "(\<exists>code msg. ef_sent eff = [error_message code msg]) \<and>
      rl_auth r' = rl_auth r \<and> rl_files r' envPath = rl_files r envPath"
  then show ?thesis using assms(2) by (auto simp: error_message_def)
next
  assume s: "ef_sent eff = [JObj [(''type'', JStr ''token_rotated'')]] \<and> tokenRe (cm_Token m) \<and>
      rl_auth r' = UpdateToken (cm_Token m) (rl_auth r) \<and>
      (\<exists>old. rl_files r envPath = Some old \<and>
         rl_files r' envPath = Some (Join (token_lines (cm_Token m) (Split old (CHR 0x0A))) [CHR 0x0A]))"
  then show ?thesis using token_file_lines [of "cm_Token m"] token_lines_spec by auto
qed

section \<open>What a message means\<close>

text \<open>
  The abstract state that a client works on: sessions and activity tokens by name, and the devices
  from the oldest to the newest.
\<close>

record relay_view =
  vw_sessions :: "string \<rightharpoonup> SessionRecord"
  vw_devices :: "string list"
  vw_activities :: "string \<rightharpoonup> string"

definition view :: "Relay \<Rightarrow> relay_view" where
  "view r =
     \<lparr>vw_sessions = map_of (hub_sessions (rl_hub r)), vw_devices = hub_deviceTokens (rl_hub r),
      vw_activities = hub_activityTokens (rl_hub r)\<rparr>"

text \<open>
  The specification of the protocol. A new session needs a free valid name and an accepted
  directory; the ten newest devices are kept; an empty activity token ends an activity.
\<close>

definition spec_create :: "time \<Rightarrow> ClientMessage \<Rightarrow> relay_view \<Rightarrow> relay_view" where
  "spec_create now m v =
     (if sessionNameRe (cm_Name m) \<and> cm_Name m \<notin> dom (vw_sessions v) \<and> validateWorkingDir (cm_CWD m) = None
      then v\<lparr>vw_sessions := (vw_sessions v)(cm_Name m \<mapsto>
             \<lparr>sr_Name = cm_Name m, sr_Type = cm_SessionType m, sr_Status = ''idle'', sr_WorkingDirectory = cm_CWD m,
              sr_Project = [], sr_LastActivity = now, sr_Source = []\<rparr>)\<rparr>
      else v)"

definition spec_delete :: "ClientMessage \<Rightarrow> relay_view \<Rightarrow> relay_view" where
  "spec_delete m v =
     (if sessionNameRe (cm_Name m) then v\<lparr>vw_sessions := (vw_sessions v)(cm_Name m := None)\<rparr> else v)"

definition newest :: "nat \<Rightarrow> 'a list \<Rightarrow> 'a list" where
  "newest n xs = drop (length xs - n) xs"

definition spec_device :: "ClientMessage \<Rightarrow> relay_view \<Rightarrow> relay_view" where
  "spec_device m v =
     (if apnsTokenRe (cm_DeviceToken m) \<and> cm_DeviceToken m \<notin> set (vw_devices v)
      then v\<lparr>vw_devices := newest 10 (vw_devices v @ [cm_DeviceToken m])\<rparr> else v)"

definition spec_activity :: "ClientMessage \<Rightarrow> relay_view \<Rightarrow> relay_view" where
  "spec_activity m v =
     (if \<not> sessionNameRe (cm_Session m) then v
      else if cm_ActivityToken m = [] then v\<lparr>vw_activities := (vw_activities v)(cm_Session m := None)\<rparr>
      else if activityTokenRe (cm_ActivityToken m)
      then v\<lparr>vw_activities := (vw_activities v)(cm_Session m \<mapsto> cm_ActivityToken m)\<rparr>
      else v)"

definition spec_message :: "time \<Rightarrow> ClientMessage \<Rightarrow> relay_view \<Rightarrow> relay_view" where
  "spec_message now m =
     (if cm_Type m = ''create_session'' then spec_create now m
      else if cm_Type m = ''delete_session'' then spec_delete m
      else if cm_Type m = ''register_device'' then spec_device m
      else if cm_Type m = ''register_activity'' then spec_activity m
      else (\<lambda>v. v))"

text \<open>The messages of a connection: what is no message is skipped.\<close>

definition decoded :: "(client_env \<times> json option) list \<Rightarrow> (client_env \<times> ClientMessage) list" where
  "decoded raws = List.map_filter (\<lambda>(env, raw). map_option (Pair env) (decode_message raw)) raws"

lemma view_session:
  "view (snd (on_list_sessions env r)) = view r" "view (snd (on_attach_session m r)) = view r"
  "view (snd (on_create_session env m r)) = spec_create (ce_now env) m (view r)"
  "view (snd (on_delete_session env m r)) = spec_delete m (view r)"
  by (auto simp: on_list_sessions_def on_attach_session_def on_create_session_def on_delete_session_def
      spec_create_def spec_delete_def view_def CreateSession_def DeleteSession_def NewSession_def StatusIdle_def
      Let_def update_conv' delete_conv' dom_def split: option.splits)

lemma apnsTokenRe_ne: "apnsTokenRe [] = False"
  by (simp add: apnsTokenRe_def matches_class_def)

lemma view_device:
  "length (hub_deviceTokens (rl_hub r)) \<le> 10 \<Longrightarrow> view (snd (on_register_device m r)) = spec_device m (view r)"
  by (auto simp: on_register_device_def spec_device_def view_def RegisterDevice_def maxDeviceTokens_def newest_def
      apnsTokenRe_ne Let_def)

lemma view_other:
  "view (snd (on_register_activity m r)) = spec_activity m (view r)"
  "view (snd (on_rotate_token env m r)) = view r"
  by (auto simp: on_register_activity_def spec_activity_def view_def RegisterActivity_def rotate_token_hub)

lemma handle_message_view:
  assumes "length (hub_deviceTokens (rl_hub r)) \<le> 10"
  shows "view (snd (handle_message env m r)) = spec_message (ce_now env) m (view r)"
  using view_device [OF assms, of m]
  by (simp add: handle_message_def spec_message_def view_session view_other project_hub Let_def)

lemma handle_message_frame:
  "hub_clients (rl_hub (snd (handle_message env m r))) = hub_clients (rl_hub r) \<and>
   hub_notifiedPermIDs (rl_hub (snd (handle_message env m r))) = hub_notifiedPermIDs (rl_hub r)"
  using handle_message_hub [of env m r]
  by (auto simp: hub_effect_def CreateSession_def DeleteSession_def RegisterDevice_def RegisterActivity_def Let_def
      split: option.splits)

lemma handle_message_rest:
  assumes "cm_Type m \<noteq> ''rotate_token''"
  shows "rl_auth (snd (handle_message env m r)) = rl_auth r \<and> rl_files (snd (handle_message env m r)) = rl_files r"
  by (rule handle_message_cases [where P = "\<lambda>x. rl_auth (snd x) = rl_auth r \<and> rl_files (snd x) = rl_files r"])
     (simp_all only: session_auth session_files project_hub assms snd_conv simp_thms)

lemma length_newest: "length (newest n xs) \<le> n"
  by (simp add: newest_def)

lemma spec_message_devices: "length (vw_devices v) \<le> 10 \<Longrightarrow> length (vw_devices (spec_message now m v)) \<le> 10"
  by (simp add: spec_message_def spec_create_def spec_delete_def spec_device_def spec_activity_def length_newest)

lemma read_loop_view:
  "length (hub_deviceTokens (rl_hub r)) \<le> 10 \<Longrightarrow>
     view (snd (read_loop raws r)) = fold (\<lambda>(env, m). spec_message (ce_now env) m) (decoded raws) (view r) \<and>
     hub_clients (rl_hub (snd (read_loop raws r))) = hub_clients (rl_hub r) \<and>
     hub_notifiedPermIDs (rl_hub (snd (read_loop raws r))) = hub_notifiedPermIDs (rl_hub r)"
proof (induction raws r rule: read_loop.induct)
  case (2 env raw rest r)
  show ?case
  proof (cases "decode_message raw")
    case None
    then show ?thesis using 2 by (simp add: decoded_def List.map_filter_simps)
  next
    case (Some m)
    obtain e r1 where h: "handle_message env m r = (e, r1)" by force
    have v: "view r1 = spec_message (ce_now env) m (view r)" using handle_message_view [OF 2(3), of env m] h by simp
    have "length (vw_devices (view r1)) \<le> 10" unfolding v using 2(3) by (intro spec_message_devices) (simp add: view_def)
    then have len: "length (hub_deviceTokens (rl_hub r1)) \<le> 10" by (simp add: view_def)
    show ?thesis
      using "2.IH"(2) [OF Some h [symmetric] refl len] v Some h handle_message_frame [of env m r]
      by (simp add: decoded_def List.map_filter_simps case_prod_beta)
  qed
qed (simp add: decoded_def List.map_filter_simps)

lemma read_loop_steps: "relay_step\<^sup>*\<^sup>* r (snd (read_loop raws r))"
proof (induction raws r rule: read_loop.induct)
  case (2 env raw rest r)
  show ?case
  proof (cases "decode_message raw")
    case None
    then show ?thesis using 2 by simp
  next
    case (Some m)
    obtain e r1 where h: "handle_message env m r = (e, r1)" by force
    have "relay_step r r1" using relay_step.Message [OF Some, of r env] h by simp
    then have "relay_step\<^sup>*\<^sup>* r (snd (read_loop rest r1))"
      using "2.IH"(2) [OF Some h [symmetric] refl] by (rule converse_rtranclp_into_rtranclp)
    then show ?thesis using Some h by (simp add: case_prod_beta)
  qed
qed simp

lemma read_loop_rest:
  "\<forall>(env, m) \<in> set (decoded raws). cm_Type m \<noteq> ''rotate_token'' \<Longrightarrow>
     rl_auth (snd (read_loop raws r)) = rl_auth r \<and> rl_files (snd (read_loop raws r)) = rl_files r"
proof (induction raws r rule: read_loop.induct)
  case (2 env raw rest r)
  show ?case
  proof (cases "decode_message raw")
    case None
    then show ?thesis using 2 by (simp add: decoded_def List.map_filter_simps)
  next
    case (Some m)
    obtain e r1 where h: "handle_message env m r = (e, r1)" by force
    have "cm_Type m \<noteq> ''rotate_token''" "\<forall>(env, m) \<in> set (decoded rest). cm_Type m \<noteq> ''rotate_token''"
      using 2(3) Some by (simp_all add: decoded_def List.map_filter_simps)
    then show ?thesis
      using "2.IH"(2) [OF Some h [symmetric] refl] Some h handle_message_rest [of m env r]
      by (simp add: case_prod_beta)
  qed
qed simp

section \<open>Properties\<close>

text \<open>
  C32: the hub only holds validated input. In every state the relay reaches, whatever clients send and
  in whatever order logins, deliveries and pushes interleave: session names have at most 64
  letters, digits, underscores and dashes, working directories are empty or accepted ones, device tokens
  are 64 hexadecimal digits, activity tokens belong to such names and have 64 to 512 digits, and
  the token clients are checked against is the one the relay was started with, which is any text, or has
  64 lower-case hexadecimal digits.
\<close>

theorem validated_inputs:
  assumes "rl_hub r0 = NewHub apns" "rl_auth r0 = New token" "relay_step\<^sup>*\<^sup>* r0 r"
  shows "list_all (\<lambda>(n, s). sessionNameRe n \<and> sr_Name s = n \<and> validateWorkingDir (sr_WorkingDirectory s) = None)
           (hub_sessions (rl_hub r)) \<and>
         list_all apnsTokenRe (hub_deviceTokens (rl_hub r)) \<and>
         (\<forall>n t. hub_activityTokens (rl_hub r) n = Some t \<longrightarrow> sessionNameRe n \<and> activityTokenRe t) \<and>
         (auth_token (rl_auth r) = token \<or> tokenRe (auth_token (rl_auth r)))"
proof -
  have "relay_start token r0" using assms by (auto simp: relay_start_def)
  from relay_system.reachable_inv [OF this assms(3)] show ?thesis
    by (auto simp: relay_inv_def auth_source_def inputs_ok_def hub_inv_def session_ok_def list_all_iff)
qed

definition sample_token :: string where
  "sample_token = replicate 64 (CHR ''a'')"

lemma sample_token_ok: "tokenRe sample_token" "apnsTokenRe sample_token"
proof -
  have "lower_hex (CHR ''a'')" by code_simp
  then show "tokenRe sample_token" "apnsTokenRe sample_token"
    by (simp_all add: tokenRe_def apnsTokenRe_def sample_token_def matches_class_def list_all_iff any_hex_def
        set_replicate_conv_if)
qed

definition sample_relay :: Relay where
  "sample_relay =
     \<lparr>rl_hub = NewHub True, rl_auth = New sample_token,
      rl_files = [''/etc/continuum/env'' \<mapsto> ''CONTINUUM_TOKEN=old'']\<rparr>"

definition sample_proj_env :: proj_env where
  "sample_proj_env =
     \<lparr>pj_HOME = ''/home/u'', pj_PATH = ''/bin'', pj_git = (\<lambda>_. ([], None)), pj_stat = (\<lambda>_. NotExist),
      pj_mkdir = None, pj_remove = None, pj_readdir = None\<rparr>"

definition sample_env :: client_env where
  "sample_env =
     \<lparr>ce_now = 0, ce_rfc = (\<lambda>_. []), ce_tmux = None, ce_proj = sample_proj_env, ce_read = None, ce_write = None,
      ce_rename = None\<rparr>"

text \<open>A client that creates two sessions, registers a device and an activity, and deletes the second session.\<close>

definition sample_raws :: "(client_env \<times> json option) list" where
  "sample_raws = map (\<lambda>fs. (sample_env, Some (JObj fs)))
     [[(''type'', JStr ''create_session''), (''name'', JStr ''dev''), (''cwd'', JStr ''/home/u/app'')],
      [(''type'', JStr ''create_session''), (''name'', JStr ''old'')],
      [(''type'', JStr ''create_session''), (''name'', JStr ''a/b'')],
      [(''type'', JStr ''register_device''), (''device_token'', JStr sample_token)],
      [(''type'', JStr ''register_activity''), (''session'', JStr ''dev''), (''activity_token'', JStr sample_token)],
      [(''type'', JStr ''delete_session''), (''name'', JStr ''old'')]]"

definition sample_messages :: "ClientMessage list" where
  "sample_messages =
     [zero_message\<lparr>cm_Type := ''create_session'', cm_Name := ''dev'', cm_CWD := ''/home/u/app''\<rparr>,
      zero_message\<lparr>cm_Type := ''create_session'', cm_Name := ''old''\<rparr>,
      zero_message\<lparr>cm_Type := ''create_session'', cm_Name := ''a/b''\<rparr>,
      zero_message\<lparr>cm_Type := ''register_device'', cm_DeviceToken := sample_token\<rparr>,
      zero_message\<lparr>cm_Type := ''register_activity'', cm_Session := ''dev'', cm_ActivityToken := sample_token\<rparr>,
      zero_message\<lparr>cm_Type := ''delete_session'', cm_Name := ''old''\<rparr>]"

lemma decode_field_keys:
  "decode_field (''type'', JStr s) m = Some (m\<lparr>cm_Type := s\<rparr>)"
  "decode_field (''name'', JStr s) m = Some (m\<lparr>cm_Name := s\<rparr>)"
  "decode_field (''cwd'', JStr s) m = Some (m\<lparr>cm_CWD := s\<rparr>)"
  "decode_field (''session'', JStr s) m = Some (m\<lparr>cm_Session := s\<rparr>)"
  "decode_field (''device_token'', JStr s) m = Some (m\<lparr>cm_DeviceToken := s\<rparr>)"
  "decode_field (''activity_token'', JStr s) m = Some (m\<lparr>cm_ActivityToken := s\<rparr>)"
proof -
  have k: "map lower_char ''type'' = ''type''" "map lower_char ''name'' = ''name''" "map lower_char ''cwd'' = ''cwd''"
    "map lower_char ''session'' = ''session''" "map lower_char ''device_token'' = ''device_token''" "map lower_char ''activity_token'' = ''activity_token''"
    by code_simp+
  show "decode_field (''type'', JStr s) m = Some (m\<lparr>cm_Type := s\<rparr>)"
    "decode_field (''name'', JStr s) m = Some (m\<lparr>cm_Name := s\<rparr>)"
    "decode_field (''cwd'', JStr s) m = Some (m\<lparr>cm_CWD := s\<rparr>)"
    "decode_field (''session'', JStr s) m = Some (m\<lparr>cm_Session := s\<rparr>)"
    "decode_field (''device_token'', JStr s) m = Some (m\<lparr>cm_DeviceToken := s\<rparr>)"
    "decode_field (''activity_token'', JStr s) m = Some (m\<lparr>cm_ActivityToken := s\<rparr>)"
    by (simp_all only: decode_field_def Let_def fst_conv snd_conv k) simp_all
qed

lemma sample_decoded: "decoded sample_raws = map (Pair sample_env) sample_messages"
  by (simp add: decoded_def sample_raws_def sample_messages_def List.map_filter_simps decode_field_keys)

lemma sample_inputs:
  "sessionNameRe ''dev''" "sessionNameRe ''old''" "\<not> sessionNameRe ''a/b''" "validateWorkingDir ''/home/u/app'' = None"
  "validateWorkingDir [] = None" "activityTokenRe sample_token" "sample_token \<noteq> []"
proof -
  show "activityTokenRe sample_token" "sample_token \<noteq> []"
    using sample_token_ok(2) by (auto simp: activityTokenRe_def apnsTokenRe_def matches_class_def)
qed code_simp+

lemma sample_spec:
  "fold (\<lambda>(env, m). spec_message (ce_now env) m) (decoded sample_raws) (view sample_relay) =
     \<lparr>vw_sessions = [''dev'' \<mapsto> \<lparr>sr_Name = ''dev'', sr_Type = [], sr_Status = ''idle'', sr_WorkingDirectory = ''/home/u/app'',
        sr_Project = [], sr_LastActivity = 0, sr_Source = []\<rparr>],
      vw_devices = [sample_token], vw_activities = [''dev'' \<mapsto> sample_token]\<rparr>"
proof -
  have now: "ce_now sample_env = 0" by (simp add: sample_env_def)
  have v: "view sample_relay = \<lparr>vw_sessions = Map.empty, vw_devices = [], vw_activities = Map.empty\<rparr>"
    by (simp add: view_def sample_relay_def NewHub_def)
  show ?thesis
    unfolding sample_decoded v
    by (simp add: sample_messages_def now spec_message_def spec_create_def spec_delete_def spec_device_def
        spec_activity_def sample_inputs sample_token_ok newest_def zero_message_def fun_upd_twist)
qed

text \<open>The relay started with a token of another form, after the messages of that client.\<close>

theorem validated_inputs_witness:
  "\<exists>r. relay_step\<^sup>*\<^sup>* (sample_relay\<lparr>rl_auth := New ''secret''\<rparr>) r \<and>
     GetSession ''dev'' (rl_hub r) \<noteq> None \<and> hub_deviceTokens (rl_hub r) = [sample_token] \<and>
     hub_activityTokens (rl_hub r) ''dev'' = Some sample_token \<and>
     list_all (\<lambda>(n, s). sessionNameRe n \<and> sr_Name s = n \<and> validateWorkingDir (sr_WorkingDirectory s) = None)
       (hub_sessions (rl_hub r)) \<and>
     (auth_token (rl_auth r) = ''secret'' \<or> tokenRe (auth_token (rl_auth r)))"
proof -
  let ?start = "sample_relay\<lparr>rl_auth := New ''secret''\<rparr>"
  let ?r = "snd (read_loop sample_raws ?start)"
  have "length (hub_deviceTokens (rl_hub ?start)) \<le> 10" by (simp add: sample_relay_def NewHub_def)
  from read_loop_view [OF this, of sample_raws] have
    w: "hub_deviceTokens (rl_hub ?r) = [sample_token]" "hub_activityTokens (rl_hub ?r) ''dev'' = Some sample_token"
      "map_of (hub_sessions (rl_hub ?r)) ''dev'' \<noteq> None"
    using sample_spec by (simp_all add: view_def)
  have s: "relay_step\<^sup>*\<^sup>* ?start ?r" by (rule read_loop_steps)
  have "rl_hub ?start = NewHub True" "rl_auth ?start = New ''secret''" by (simp_all add: sample_relay_def)
  from validated_inputs [OF this s] s w show ?thesis unfolding GetSession_def by blast
qed

text \<open>
  C33: the protocol does what it means. From every state the relay can reach, a connection with any messages,
  in any order and as bad as they may be, changes sessions, devices and activities exactly as the
  specification says, one decoded message after the other; it leaves the other clients and the prompts already
  announced alone, and is itself forgotten at its end. If no message asks for a rotation, the authenticator and
  the token file are as before.
\<close>

theorem protocol_refines_hub:
  assumes "rl_hub r0 = NewHub apns" "rl_auth r0 = New token" "relay_step\<^sup>*\<^sup>* r0 r"
    and "HandleClient cid raws r = (es, r')"
  shows "view r' = fold (\<lambda>(env, m). spec_message (ce_now env) m) (decoded raws) (view r) \<and>
         map_of (hub_clients (rl_hub r')) = (map_of (hub_clients (rl_hub r)))(cid := None) \<and>
         hub_notifiedPermIDs (rl_hub r') = hub_notifiedPermIDs (rl_hub r) \<and>
         ((\<exists>(env, m) \<in> set (decoded raws). cm_Type m = ''rotate_token'') \<or>
          rl_auth r' = rl_auth r \<and> rl_files r' = rl_files r)"
proof -
  have "relay_start token r0" using assms(1,2) by (auto simp: relay_start_def)
  from relay_system.reachable_inv [OF this assms(3)]
  have len: "length (hub_deviceTokens (rl_hub r)) \<le> 10" by (simp add: relay_inv_def hub_inv_def)
  let ?c = "r\<lparr>rl_hub := RegisterClient cid [] (rl_hub r)\<rparr>"
  obtain r1 where r1: "read_loop raws ?c = (es, r1)" "r' = r1\<lparr>rl_hub := UnregisterClient cid (rl_hub r1)\<rparr>"
    using assms(4) by (auto simp: HandleClient_def Let_def split: prod.splits)
  have c: "view ?c = view r" "length (hub_deviceTokens (rl_hub ?c)) \<le> 10" "rl_auth ?c = rl_auth r" "rl_files ?c = rl_files r"
    "hub_notifiedPermIDs (rl_hub ?c) = hub_notifiedPermIDs (rl_hub r)"
    using len by (simp_all add: view_def RegisterClient_def)
  note loop = read_loop_view [OF c(2), of raws, unfolded r1(1) snd_conv c]
  have "view r' = view r1" "rl_auth r' = rl_auth r1" "rl_files r' = rl_files r1"
    "hub_notifiedPermIDs (rl_hub r') = hub_notifiedPermIDs (rl_hub r1)"
    by (simp_all add: r1(2) view_def UnregisterClient_def)
  moreover have "map_of (hub_clients (rl_hub r')) = (map_of (hub_clients (rl_hub r)))(cid := None)"
    using loop by (simp add: r1(2) UnregisterClient_def RegisterClient_def delete_conv' update_conv')
  moreover have "(\<exists>(env, m) \<in> set (decoded raws). cm_Type m = ''rotate_token'') \<or> rl_auth r1 = rl_auth r \<and> rl_files r1 = rl_files r"
    using read_loop_rest [of raws ?c] r1(1) c(3,4) by fastforce
  ultimately show ?thesis using loop by simp
qed

theorem protocol_refines_hub_witness:
  "\<exists>es r'. HandleClient ''c1'' sample_raws sample_relay = (es, r') \<and>
     dom (vw_sessions (view r')) = {''dev''} \<and> vw_devices (view r') = [sample_token] \<and>
     vw_activities (view r') = [''dev'' \<mapsto> sample_token]"
proof -
  obtain es r' where h: "HandleClient ''c1'' sample_raws sample_relay = (es, r')" by (rule prod.exhaust)
  have s: "rl_hub sample_relay = NewHub True" "rl_auth sample_relay = New sample_token" by (simp_all add: sample_relay_def)
  from protocol_refines_hub [OF s rtranclp.rtrancl_refl h] h show ?thesis
    unfolding sample_spec by (intro exI [of _ es] exI [of _ r']) simp
qed

text \<open>
  C5: a rotation happens completely or not at all. If it is answered with success, the authenticator
  accepts the new token, the first token line of the token file is the new one, and all other lines
  are the old ones in their order; otherwise the answer is an error, the authenticator and the file
  are as they were, whichever system call failed.
\<close>

theorem rotation_atomic:
  assumes "on_rotate_token env m r = (eff, r')"
  shows "(ef_sent eff = [JObj [(''type'', JStr ''token_rotated'')]] \<and> tokenRe (cm_Token m) \<and>
            rl_auth r' = UpdateToken (cm_Token m) (rl_auth r) \<and>
            (\<exists>old new. rl_files r envPath = Some old \<and> rl_files r' envPath = Some new \<and>
               find token_line (Split new (CHR 0x0A)) = Some (token_key @ cm_Token m) \<and>
               filter (Not \<circ> token_line) (Split new (CHR 0x0A)) = filter (Not \<circ> token_line) (Split old (CHR 0x0A)))) \<or>
         ((\<exists>code msg. ef_sent eff = [error_message code msg]) \<and>
            rl_auth r' = rl_auth r \<and> rl_files r' envPath = rl_files r envPath)"
  using rotation_cases [OF assms]
proof
  assume s: "ef_sent eff = [JObj [(''type'', JStr ''token_rotated'')]] \<and> tokenRe (cm_Token m) \<and>
      rl_auth r' = UpdateToken (cm_Token m) (rl_auth r) \<and>
      (\<exists>old. rl_files r envPath = Some old \<and>
         rl_files r' envPath = Some (Join (token_lines (cm_Token m) (Split old (CHR 0x0A))) [CHR 0x0A]))"
  then obtain old where "rl_files r envPath = Some old"
    "rl_files r' envPath = Some (Join (token_lines (cm_Token m) (Split old (CHR 0x0A))) [CHR 0x0A])" by blast
  then show ?thesis
    using s token_file_lines [of "cm_Token m" old] token_lines_spec [of "cm_Token m" "Split old (CHR 0x0A)"] by auto
qed simp

text \<open>A rotation that succeeds.\<close>

definition sample_rotation :: ClientMessage where
  "sample_rotation = zero_message\<lparr>cm_Token := sample_token\<rparr>"

lemma sample_rotation_succeeds:
  "\<exists>eff r'. on_rotate_token sample_env sample_rotation sample_relay = (eff, r') \<and>
     ef_sent eff = [JObj [(''type'', JStr ''token_rotated'')]]"
proof -
  obtain eff r' where r: "on_rotate_token sample_env sample_rotation sample_relay = (eff, r')"
    by (cases "on_rotate_token sample_env sample_rotation sample_relay")
  have e: "ce_read sample_env = None" "ce_write sample_env = None" "ce_rename sample_env = None"
    by (simp_all add: sample_env_def)
  have f: "rl_files sample_relay envPath = Some ''CONTINUUM_TOKEN=old''" by (simp add: sample_relay_def envPath_def)
  have m: "tokenRe (cm_Token sample_rotation)" using sample_token_ok by (simp add: sample_rotation_def)
  have "ef_sent (fst (on_rotate_token sample_env sample_rotation sample_relay)) = [JObj [(''type'', JStr ''token_rotated'')]]"
    using m unfolding on_rotate_token_def rewriteEnvFile_def e f Let_def
    by (simp only: option.case prod.case not_True_eq_False if_False simp_thms fst_conv send_def effects.select_convs)
  then show ?thesis using r by simp
qed

theorem rotation_atomic_witness:
  "\<exists>eff r' new. on_rotate_token sample_env sample_rotation sample_relay = (eff, r') \<and>
     auth_token (rl_auth r') = sample_token \<and> rl_files r' envPath = Some new \<and>
     find token_line (Split new (CHR 0x0A)) = Some (token_key @ sample_token)"
proof -
  obtain eff r' where r: "on_rotate_token sample_env sample_rotation sample_relay = (eff, r')"
    "ef_sent eff = [JObj [(''type'', JStr ''token_rotated'')]]"
    using sample_rotation_succeeds by blast
  then have "\<not> (\<exists>code msg. ef_sent eff = [error_message code msg])" by (simp add: error_message_def)
  with rotation_atomic [OF r(1)] r(1) show ?thesis by (auto simp: UpdateToken_def sample_rotation_def)
qed

end
