(* ===== verification/Terminal.thy ===== *)
theory Terminal
  imports Auth Go_Json "HOL-Library.Word"
begin

text \<open>
  \<^verbatim>\<open>internal/terminal/server.go\<close>: the terminal server, which gives each WebSocket a shell of its
  own. The environment of the relay, the user database and the pseudo terminal are parameters; a
  connection is the sequence of frames it receives and what it does with each.
\<close>

section \<open>The host\<close>

record user_info =
  ui_Uid :: string
  ui_Gid :: string
  ui_HomeDir :: string

text \<open>
  \<open>th_lookpath\<close>: \<^verbatim>\<open>systemd-run\<close> is on the path; \<open>th_isdir\<close>: a path is a directory; \<open>th_start\<close>: the
  pseudo terminal starts.
\<close>

record term_host =
  th_goos :: string
  th_environ :: "string list"
  th_lookpath :: bool
  th_getuid :: int
  th_user :: "string \<Rightarrow> user_info option"
  th_isdir :: "string \<Rightarrow> bool"
  th_start :: bool

record Server =
  ts_command :: "string list"
  ts_User :: string
  ts_SharedDir :: string

text \<open>\<^verbatim>\<open>os.Getenv\<close>: the first entry of the name.\<close>

definition getenv :: "string list \<Rightarrow> string \<Rightarrow> string" where
  "getenv env k =
     (case find (\<lambda>e. HasPrefix e (k @ ''='')) env of None \<Rightarrow> [] | Some e \<Rightarrow> drop (length k + 1) e)"

text \<open>\<^verbatim>\<open>n, _ := strconv.Atoi(s)\<close>: zero for a text that is no number, the nearest integer for one
  that is out of range.\<close>

definition atoi_value :: "string \<Rightarrow> int" where
  "atoi_value s =
     (case Atoi s of
        Some n \<Rightarrow> n
      | None \<Rightarrow>
          if s \<noteq> [] \<and> list_all is_digit s then 2 ^ 63 - 1
          else if HasPrefix s ''-'' \<and> tl s \<noteq> [] \<and> list_all is_digit (tl s) then - (2 ^ 63)
          else if HasPrefix s ''+'' \<and> tl s \<noteq> [] \<and> list_all is_digit (tl s) then 2 ^ 63 - 1 else 0)"

section \<open>Command and environment of a session\<close>

definition scope_args :: "string list" where
  "scope_args = [''systemd-run'', ''--user'', ''--scope'', ''--quiet'', ''--collect'', ''--'']"

definition buildPTYCommand :: "term_host \<Rightarrow> string list \<Rightarrow> string list \<times> bool" where
  "buildPTYCommand host command =
     (if th_goos host \<noteq> ''linux'' \<or> getenv (th_environ host) ''CONTINUUM_NO_USER_SCOPE'' = ''1'' then (command, False)
      else if \<not> th_lookpath host then (command, False)
      else (scope_args @ command, True))"

definition secretEnvPrefixes :: "string list" where
  "secretEnvPrefixes = [''CONTINUUM_TOKEN='', ''OLLAMA_API_KEY='', ''BEDROCK_'', ''AWS_'', ''APNS_'']"

definition is_secret :: "string \<Rightarrow> bool" where
  "is_secret e = list_ex (HasPrefix e) secretEnvPrefixes"

definition stripSecrets :: "string list \<Rightarrow> string list" where
  "stripSecrets env = filter (\<lambda>e. \<not> is_secret e) env"

definition envHas :: "string list \<Rightarrow> string \<Rightarrow> bool" where
  "envHas env key = list_ex (\<lambda>e. HasPrefix e (key @ ''='')) env"

definition relay_env :: "Server \<Rightarrow> string list \<Rightarrow> string list" where
  "relay_env s environ =
     (let env = (if list_ex (\<lambda>e. HasPrefix e ''TERM='') environ then environ
                 else environ @ [''TERM=xterm-256color'']);
          env = env @ [''TERM_PROGRAM=Continuum'', ''CONTINUUM_RELAY=1''];
          env = (if ts_SharedDir s \<noteq> [] then env @ [''CONTINUUM_SHARED_DIR='' @ ts_SharedDir s] else env)
      in stripSecrets env)"

fun override_home :: "string \<Rightarrow> string list \<Rightarrow> string list" where
  "override_home home [] = []"
| "override_home home (e # es) =
     (if HasPrefix e ''HOME='' then (''HOME='' @ home) # es else e # override_home home es)"

definition user_env :: "term_host \<Rightarrow> bool \<Rightarrow> string \<Rightarrow> int \<Rightarrow> string list \<Rightarrow> string list" where
  "user_env host userScoped home uid env =
     (let runDir = ''/run/user/'' @ Itoa uid;
          env = override_home home env;
          env = (if userScoped \<and> \<not> envHas env ''XDG_RUNTIME_DIR''
                 then env @ [''XDG_RUNTIME_DIR='' @ runDir] else env)
      in if \<not> envHas env ''TMUX_TMPDIR'' \<and> th_isdir host runDir
         then env @ [''TMUX_TMPDIR='' @ runDir] else env)"

record pty_spec =
  pty_Args :: "string list"
  pty_Env :: "string list"
  pty_Dir :: "string option"
  pty_Credential :: "(32 word \<times> 32 word) option"

definition pty_setup :: "term_host \<Rightarrow> Server \<Rightarrow> pty_spec" where
  "pty_setup host s =
     (let (args, userScoped) = buildPTYCommand host (ts_command s);
          env = relay_env s (th_environ host);
          plain_spec = \<lparr>pty_Args = args, pty_Env = env, pty_Dir = None, pty_Credential = None\<rparr>
      in if ts_User s = [] then plain_spec
         else case th_user host (ts_User s) of
           None \<Rightarrow> plain_spec
         | Some u \<Rightarrow>
             (let uid = atoi_value (ui_Uid u); gid = atoi_value (ui_Gid u)
              in if uid \<le> 0 then plain_spec
                 else \<lparr>pty_Args = args, pty_Env = user_env host userScoped (ui_HomeDir u) uid env,
                       pty_Dir = Some (ui_HomeDir u),
                       pty_Credential = (if uid \<noteq> th_getuid host then Some (of_int uid, of_int gid) else None)\<rparr>))"

section \<open>Frames\<close>

abbreviation frame_data :: char where "frame_data \<equiv> CHR 0x30"
abbreviation frame_resize :: char where "frame_resize \<equiv> CHR 0x31"

text \<open>Output: each successful read of the terminal is sent as one frame.\<close>

definition output_frames :: "string list \<Rightarrow> string list" where
  "output_frames reads = map ((#) frame_data) (filter (\<lambda>b. b \<noteq> []) reads)"

text \<open>
  The decoded size of a resize frame: \<^verbatim>\<open>None\<close> when the payload does not decode, that is, it is no
  object (or null), or a \<open>columns\<close> or \<open>rows\<close> is no integer from 0 to 65535.
\<close>

fun size_field :: "json \<Rightarrow> 16 word \<Rightarrow> 16 word option" where
  "size_field (JNum n) old = (if 0 \<le> n \<and> n < 65536 then Some (of_int n) else None)"
| "size_field JNull old = Some old"
| "size_field _ old = None"

fun decode_size :: "(string \<times> json) list \<Rightarrow> 16 word \<times> 16 word \<Rightarrow> (16 word \<times> 16 word) option" where
  "decode_size [] cr = Some cr"
| "decode_size ((k, v) # fs) (c, r) =
     (if map lower_char k = ''columns'' then
        (case size_field v c of None \<Rightarrow> None | Some c' \<Rightarrow> decode_size fs (c', r))
      else if map lower_char k = ''rows'' then
        (case size_field v r of None \<Rightarrow> None | Some r' \<Rightarrow> decode_size fs (c, r'))
      else decode_size fs (c, r))"

fun unmarshal_size :: "json option \<Rightarrow> (16 word \<times> 16 word) option" where
  "unmarshal_size (Some (JObj fs)) = decode_size fs (0, 0)"
| "unmarshal_size (Some JNull) = Some (0, 0)"
| "unmarshal_size _ = None"

definition clamp :: "16 word \<Rightarrow> 16 word" where
  "clamp x = (if 9999 < x then 9999 else x)"

text \<open>
  The state of the input loop: what was written to the terminal, the sizes that were set, what was
  logged of the input, and whether the first line was seen.
\<close>

record conn_state =
  cs_stdin :: string
  cs_sizes :: "(16 word \<times> 16 word) list"
  cs_log :: "string list"
  cs_logged :: bool

definition trim_newlines :: "string \<Rightarrow> string" where
  "trim_newlines s = rev (dropWhile (\<lambda>c. c = CHR 0x0D \<or> c = CHR 0x0A) (rev s))"

definition mouse_prefix :: string where
  "mouse_prefix = ''tmux set-option -g mouse on''"

definition ellipsis :: string where
  "ellipsis = [CHR 0xE2, CHR 0x80, CHR 0xA6]"

definition redacted_line :: string where
  "redacted_line = ''[REDACTED: unexpected first stdin line]''"

definition log_stdin :: "string \<Rightarrow> conn_state \<Rightarrow> conn_state" where
  "log_stdin payload st =
     (if cs_logged st then st
      else
        (let preview = trim_newlines payload
         in if preview = [] then st
            else
              (let line = (if HasPrefix preview mouse_prefix
                           then (if 300 < length preview then take 300 preview @ ellipsis else preview)
                           else redacted_line)
               in st\<lparr>cs_logged := True, cs_log := cs_log st @ [line]\<rparr>)))"

text \<open>\<open>parse\<close> reads JSON text.\<close>

definition on_frame :: "(string \<Rightarrow> json option) \<Rightarrow> string \<Rightarrow> conn_state \<Rightarrow> conn_state" where
  "on_frame parse msg st =
     (case msg of
        [] \<Rightarrow> st
      | t # payload \<Rightarrow>
          if t = frame_data then
            (if payload = [] then st
             else (let st1 = log_stdin payload st in st1\<lparr>cs_stdin := cs_stdin st1 @ payload\<rparr>))
          else if t = frame_resize then
            (case unmarshal_size (parse payload) of
               None \<Rightarrow> st
             | Some (c, r) \<Rightarrow>
                 if 0 < c \<and> 0 < r then st\<lparr>cs_sizes := cs_sizes st @ [(clamp c, clamp r)]\<rparr> else st)
          else st)"

definition start_state :: conn_state where
  "start_state = \<lparr>cs_stdin = [], cs_sizes = [(80, 24)], cs_log = [], cs_logged = False\<rparr>"

datatype conn_result =
    PtyFailed
  | Ended pty_spec conn_state "string list"

text \<open>A connection: the frames it receives until a read fails, and the reads of its terminal.\<close>

definition handleConn ::
  "(string \<Rightarrow> json option) \<Rightarrow> term_host \<Rightarrow> Server \<Rightarrow> string list \<Rightarrow> string list \<Rightarrow> conn_result" where
  "handleConn parse host s frames reads =
     (if \<not> th_start host then PtyFailed
      else Ended (pty_setup host s) (fold (on_frame parse) frames start_state) (output_frames reads))"

text \<open>\<open>accept\<close>: the upgrade to a WebSocket succeeds (otherwise the library has answered).\<close>

datatype serve_result = NotFound | AuthFailed | AcceptFailed | Served conn_result

definition ServeHTTP ::
  "(string \<Rightarrow> json option) \<Rightarrow> term_host \<Rightarrow> Server \<Rightarrow> time \<Rightarrow> time \<Rightarrow> bool \<Rightarrow> http_request \<Rightarrow>
   string list \<Rightarrow> string list \<Rightarrow> Authenticator \<Rightarrow> serve_result \<times> Authenticator" where
  "ServeHTTP parse host s now now' accept r frames reads a =
     (if req_Path r \<noteq> ''/ws'' then (NotFound, a)
      else
        (let (ok, a1) = ValidateBasic now now' ''continuum'' r a
         in if \<not> ok then (AuthFailed, a1)
            else if \<not> accept then (AcceptFailed, a1)
            else (Served (handleConn parse host s frames reads), a1)))"

section \<open>The environment holds no secret\<close>

lemma no_secrets_append:
  "list_all (\<lambda>e. \<not> is_secret e) (xs @ ys) \<longleftrightarrow> list_all (\<lambda>e. \<not> is_secret e) xs \<and> list_all (\<lambda>e. \<not> is_secret e) ys"
  by simp

lemma stripSecrets_clean: "list_all (\<lambda>e. \<not> is_secret e) (stripSecrets env)"
  by (simp add: stripSecrets_def list_all_iff)

lemma override_home_clean:
  "list_all (\<lambda>e. \<not> is_secret e) env \<Longrightarrow> list_all (\<lambda>e. \<not> is_secret e) (override_home home env)"
  by (induction env) (auto simp: is_secret_def secretEnvPrefixes_def)

text \<open>The variables that are added after the secrets are gone.\<close>

lemma if_append_form:
  "P [] \<Longrightarrow> P [x] \<Longrightarrow> \<exists>extra. (if c then env @ [x] else env) = env @ extra \<and> P extra"
  by (metis append_Nil2)

lemma user_env_form:
  "\<exists>extra. user_env host sc home uid env = override_home home env @ extra \<and> list_all (\<lambda>e. \<not> is_secret e) extra"
proof -
  let ?ns = "list_all (\<lambda>e. \<not> is_secret e)" and ?d = "''/run/user/'' @ Itoa uid"
  have x: "?ns [''XDG_RUNTIME_DIR='' @ d]" "?ns [''TMUX_TMPDIR='' @ d]" for d
    by (simp_all add: is_secret_def secretEnvPrefixes_def)
  obtain e1 where e1: "(if sc \<and> \<not> envHas (override_home home env) ''XDG_RUNTIME_DIR''
      then override_home home env @ [''XDG_RUNTIME_DIR='' @ ?d] else override_home home env) =
      override_home home env @ e1" "?ns e1"
    using if_append_form [where P = ?ns, OF _ x(1)] by (metis list.pred_inject(1))
  obtain e2 where e2: "user_env host sc home uid env = (override_home home env @ e1) @ e2" "?ns e2"
    using if_append_form [where P = ?ns, OF _ x(2)] unfolding user_env_def Let_def e1 by (metis list.pred_inject(1))
  then show ?thesis using e1(2) by (intro exI [of _ "e1 @ e2"]) simp
qed

lemma user_env_clean:
  assumes "list_all (\<lambda>e. \<not> is_secret e) env"
  shows "list_all (\<lambda>e. \<not> is_secret e) (user_env host sc home uid env)"
  using user_env_form [of host sc home uid env] override_home_clean [OF assms, of home] by auto

lemma relay_env_form: "\<exists>extra. relay_env s environ = stripSecrets (environ @ extra)"
  unfolding relay_env_def Let_def
  by (cases "list_ex (\<lambda>e. HasPrefix e ''TERM='') environ"; cases "ts_SharedDir s = []")
     (simp only: append_assoc if_True if_False simp_thms, blast)+

lemma pty_setup_clean: "list_all (\<lambda>e. \<not> is_secret e) (pty_Env (pty_setup host s))"
proof -
  have r: "list_all (\<lambda>e. \<not> is_secret e) (relay_env s env)" for env
    unfolding relay_env_def Let_def by (rule stripSecrets_clean)
  show ?thesis
    using r user_env_clean [OF r] by (auto simp: pty_setup_def Let_def split: prod.splits option.splits)
qed

interpretation pty_env: env_policy "\<lambda>(host, s). pty_Env (pty_setup host s)" is_secret
  using pty_setup_clean by unfold_locales (fastforce simp: list_all_iff)

section \<open>Every other variable is kept\<close>

text \<open>The variables that the relay may add for a session; none of them is a secret or a home.\<close>

definition session_var :: "string \<Rightarrow> bool" where
  "session_var e \<longleftrightarrow>
     list_ex (HasPrefix e) [''TERM='', ''TERM_PROGRAM='', ''CONTINUUM_RELAY='', ''CONTINUUM_SHARED_DIR='',
                            ''XDG_RUNTIME_DIR='', ''TMUX_TMPDIR='']"

lemma session_var_other: "session_var e \<Longrightarrow> \<not> is_secret e \<and> \<not> HasPrefix e ''HOME=''"
  by (auto simp: session_var_def is_secret_def secretEnvPrefixes_def prefix_def)

lemma session_vars_kept: "list_all session_var xs \<Longrightarrow> filter (\<lambda>e. \<not> is_secret e) xs = xs"
  using session_var_other by (induction xs) simp_all

lemma session_vars:
  "session_var ''TERM=xterm-256color''" "session_var ''TERM_PROGRAM=Continuum''" "session_var ''CONTINUUM_RELAY=1''"
  "session_var (''CONTINUUM_SHARED_DIR='' @ d)" "session_var (''XDG_RUNTIME_DIR='' @ d)" "session_var (''TMUX_TMPDIR='' @ d)"
  by (simp_all add: session_var_def)

text \<open>The environment with another value of the first \<^verbatim>\<open>HOME\<close>, if there is one.\<close>

definition with_home :: "string \<Rightarrow> string list \<Rightarrow> string list" where
  "with_home home env =
     (let other = (\<lambda>e. \<not> HasPrefix e ''HOME='') in
      takeWhile other env @ (case dropWhile other env of [] \<Rightarrow> [] | _ # rest \<Rightarrow> (''HOME='' @ home) # rest))"

lemma override_home_append:
  "list_all (\<lambda>e. \<not> HasPrefix e ''HOME='') ys \<Longrightarrow> override_home home (xs @ ys) = with_home home xs @ ys"
proof (induction xs)
  case Nil
  then show ?case by (induction ys) (auto simp: with_home_def)
qed (simp add: with_home_def Let_def)

lemma relay_env_exact:
  "\<exists>added. relay_env s environ = stripSecrets environ @ added \<and> list_all session_var added \<and>
     {''TERM_PROGRAM=Continuum'', ''CONTINUUM_RELAY=1''} \<subseteq> set added"
proof -
  let ?added = "(if list_ex (\<lambda>e. HasPrefix e ''TERM='') environ then [] else [''TERM=xterm-256color'']) @
    [''TERM_PROGRAM=Continuum'', ''CONTINUUM_RELAY=1''] @
    (if ts_SharedDir s \<noteq> [] then [''CONTINUUM_SHARED_DIR='' @ ts_SharedDir s] else [])"
  have v: "list_all session_var ?added" using session_vars by simp
  have "relay_env s environ = stripSecrets (environ @ ?added)"
    unfolding relay_env_def Let_def
    by (cases "list_ex (\<lambda>e. HasPrefix e ''TERM='') environ"; cases "ts_SharedDir s = []")
       (simp_all only: if_True if_False simp_thms append_assoc append_Nil append_Nil2)
  moreover have "filter (\<lambda>e. \<not> is_secret e) ?added = ?added"
    by (rule session_vars_kept [OF v])
  then have "stripSecrets (environ @ ?added) = stripSecrets environ @ ?added"
    by (simp only: stripSecrets_def filter_append)
  ultimately have "relay_env s environ = stripSecrets environ @ ?added" by (rule trans)
  moreover have "{''TERM_PROGRAM=Continuum'', ''CONTINUUM_RELAY=1''} \<subseteq> set ?added" by simp
  ultimately show ?thesis using v by blast
qed

lemma user_env_exact: "\<exists>extra. user_env host sc home uid env = override_home home env @ extra \<and> list_all session_var extra"
proof -
  let ?d = "''/run/user/'' @ Itoa uid"
  let ?e1 = "if sc \<and> \<not> envHas (override_home home env) ''XDG_RUNTIME_DIR'' then [''XDG_RUNTIME_DIR='' @ ?d] else []"
  let ?e2 = "if \<not> envHas (override_home home env @ ?e1) ''TMUX_TMPDIR'' \<and> th_isdir host ?d then [''TMUX_TMPDIR='' @ ?d] else []"
  have "user_env host sc home uid env = override_home home env @ ?e1 @ ?e2"
    by (simp add: user_env_def Let_def)
  moreover have "list_all session_var (?e1 @ ?e2)" using session_vars by simp
  ultimately show ?thesis by blast
qed

section \<open>The input loop\<close>

text \<open>What a frame contributes to the input of the terminal.\<close>

fun stdin_of :: "string \<Rightarrow> string" where
  "stdin_of [] = []"
| "stdin_of (t # payload) = (if t = frame_data then payload else [])"

definition log_line_ok :: "string \<Rightarrow> bool" where
  "log_line_ok l \<longleftrightarrow> l = redacted_line \<or> (HasPrefix l mouse_prefix \<and> length l \<le> 303)"

definition size_ok :: "16 word \<times> 16 word \<Rightarrow> bool" where
  "size_ok cr \<longleftrightarrow> 0 < unat (fst cr) \<and> unat (fst cr) \<le> 9999 \<and> 0 < unat (snd cr) \<and> unat (snd cr) \<le> 9999"

definition conn_inv :: "conn_state \<Rightarrow> bool" where
  "conn_inv st \<longleftrightarrow>
     list_all size_ok (cs_sizes st) \<and> list_all log_line_ok (cs_log st) \<and>
     length (cs_log st) \<le> (if cs_logged st then 1 else 0)"

lemma log_stdin_frame: "cs_stdin (log_stdin p st) = cs_stdin st" "cs_sizes (log_stdin p st) = cs_sizes st"
  by (simp_all add: log_stdin_def Let_def)

lemma on_frame_stdin: "cs_stdin (on_frame parse msg st) = cs_stdin st @ stdin_of msg"
  by (cases msg) (auto simp: on_frame_def log_stdin_frame Let_def split: option.splits prod.splits)

lemma mouse_length: "length mouse_prefix \<le> 300"
  by (simp add: mouse_prefix_def)

lemma log_line_ok_preview:
  assumes "HasPrefix preview mouse_prefix"
  shows "log_line_ok (if 300 < length preview then take 300 preview @ ellipsis else preview)"
proof -
  have "HasPrefix (take 300 preview) mouse_prefix"
    using assms mouse_length by (auto simp: prefix_def take_append)
  then show ?thesis using assms by (auto simp: log_line_ok_def ellipsis_def prefix_def)
qed

lemma log_stdin_inv: "conn_inv st \<Longrightarrow> conn_inv (log_stdin p st)"
  using log_line_ok_preview [of "trim_newlines p"]
  by (auto simp: conn_inv_def log_stdin_def Let_def log_line_ok_def)

lemma clamp_ok: "0 < x \<Longrightarrow> 0 < unat (clamp x) \<and> unat (clamp x) \<le> 9999"
  by (auto simp: clamp_def word_less_nat_alt)

lemma on_frame_inv: "conn_inv st \<Longrightarrow> conn_inv (on_frame parse msg st)"
proof (cases msg)
  case (Cons t payload)
  assume i: "conn_inv st"
  then have "conn_inv (log_stdin payload st)" by (rule log_stdin_inv)
  with i show ?thesis
    using clamp_ok by (auto simp: on_frame_def Cons conn_inv_def Let_def size_ok_def split: option.splits)
qed (simp add: on_frame_def)

lemma fold_on_frame:
  "conn_inv st \<Longrightarrow>
     conn_inv (fold (on_frame parse) frames st) \<and>
     cs_stdin (fold (on_frame parse) frames st) = cs_stdin st @ concat (map stdin_of frames)"
  by (induction frames arbitrary: st) (simp_all add: on_frame_inv on_frame_stdin)

lemma start_inv: "conn_inv start_state"
  by (simp add: conn_inv_def start_state_def size_ok_def)

section \<open>Properties\<close>

text \<open>
  C34: a session sees no secret of the relay and loses nothing else. The environment of a shell is the
  relay's without the token, API and signing variables, in order, followed by variables that the relay adds
  for the session, with both marks of the relay among them; none of it is a secret. Only when the shell runs in the home
  of a configured user that exists and is not root is there one more change: the value of the first
  \<^verbatim>\<open>HOME\<close>, if there is one, is that home.
\<close>

theorem pty_env_clean:
  "(\<exists>added. pty_Env (pty_setup host s) =
      (let base = filter (\<lambda>e. \<not> is_secret e) (th_environ host) in
       case pty_Dir (pty_setup host s) of None \<Rightarrow> base | Some home \<Rightarrow> with_home home base) @ added \<and>
      list_all session_var added \<and> {''TERM_PROGRAM=Continuum'', ''CONTINUUM_RELAY=1''} \<subseteq> set added) \<and>
   list_all (\<lambda>e. \<not> is_secret e) (pty_Env (pty_setup host s)) \<and>
   pty_Dir (pty_setup host s) =
     (if ts_User s = [] then None
      else case th_user host (ts_User s) of
        None \<Rightarrow> None
      | Some u \<Rightarrow> if atoi_value (ui_Uid u) \<le> 0 then None else Some (ui_HomeDir u))"
proof -
  let ?ps = "pty_setup host s" and ?base = "filter (\<lambda>e. \<not> is_secret e) (th_environ host)"
  obtain added where added: "relay_env s (th_environ host) = ?base @ added" "list_all session_var added"
    "{''TERM_PROGRAM=Continuum'', ''CONTINUUM_RELAY=1''} \<subseteq> set added"
    using relay_env_exact [of s "th_environ host"] unfolding stripSecrets_def by blast
  have no_home: "list_all (\<lambda>e. \<not> HasPrefix e ''HOME='') added"
    using added(2) session_var_other by (simp add: list_all_iff)
  have dir: "pty_Dir ?ps =
     (if ts_User s = [] then None
      else case th_user host (ts_User s) of
        None \<Rightarrow> None
      | Some u \<Rightarrow> if atoi_value (ui_Uid u) \<le> 0 then None else Some (ui_HomeDir u))"
    by (simp add: pty_setup_def Let_def case_prod_beta split: option.split)
  have "pty_Env ?ps = relay_env s (th_environ host) \<and> pty_Dir ?ps = None \<or>
      (\<exists>sc home uid. pty_Env ?ps = user_env host sc home uid (relay_env s (th_environ host)) \<and> pty_Dir ?ps = Some home)"
    by (auto simp: pty_setup_def Let_def case_prod_beta split: option.split)
  then have "\<exists>added. pty_Env ?ps = (let base = ?base in case pty_Dir ?ps of None \<Rightarrow> base | Some home \<Rightarrow> with_home home base) @ added \<and>
      list_all session_var added \<and> {''TERM_PROGRAM=Continuum'', ''CONTINUUM_RELAY=1''} \<subseteq> set added"
  proof (elim disjE exE conjE)
    assume "pty_Env ?ps = relay_env s (th_environ host)" "pty_Dir ?ps = None"
    then show ?thesis using added by auto
  next
    fix sc home uid
    assume e: "pty_Env ?ps = user_env host sc home uid (relay_env s (th_environ host))" "pty_Dir ?ps = Some home"
    obtain extra where x: "pty_Env ?ps = override_home home (?base @ added) @ extra" "list_all session_var extra"
      using user_env_exact [of host sc home uid "?base @ added"] e(1) unfolding added(1) by metis
    have "pty_Env ?ps = with_home home ?base @ added @ extra"
      using x(1) override_home_append [OF no_home] by simp
    then show ?thesis using e(2) x(2) added(2,3) by (intro exI [of _ "added @ extra"]) auto
  qed
  then show ?thesis using dir pty_setup_clean by blast
qed

text \<open>
  C35: what goes through a connection. The bytes written to the terminal are exactly the payloads of
  the data frames, in order; every size set is from 1 to 9999; at most one line of the input is
  logged, and it is the redaction or starts with the app's own tmux command; and the payloads of the
  frames sent to the client are exactly the terminal's output.
\<close>

theorem terminal_stream:
  assumes "handleConn parse host s frames reads = Ended spec st out"
  shows "cs_stdin st = concat (map stdin_of frames) \<and>
         list_all (\<lambda>(c, r). 0 < unat c \<and> unat c \<le> 9999 \<and> 0 < unat r \<and> unat r \<le> 9999) (cs_sizes st) \<and>
         length (cs_log st) \<le> 1 \<and>
         list_all (\<lambda>l. l = redacted_line \<or> (HasPrefix l mouse_prefix \<and> length l \<le> 303)) (cs_log st) \<and>
         concat (map tl out) = concat reads"
proof -
  have st: "st = fold (on_frame parse) frames start_state" "out = output_frames reads"
    using assms by (auto simp: handleConn_def split: if_splits)
  have o: "concat (map tl (output_frames reads)) = concat reads"
    unfolding output_frames_def by (induction reads) auto
  show ?thesis
    using fold_on_frame [OF start_inv, of parse frames] o
    by (auto simp: st conn_inv_def start_state_def list_all_iff size_ok_def log_line_ok_def split: if_splits)
qed

definition sample_host :: term_host where
  "sample_host =
     \<lparr>th_goos = ''linux'', th_environ = [''CONTINUUM_TOKEN=t'', ''PATH=/bin''], th_lookpath = True, th_getuid = 0,
      th_user = (\<lambda>_. None), th_isdir = (\<lambda>_. False), th_start = True\<rparr>"

definition sample_shell :: Server where
  "sample_shell = \<lparr>ts_command = [''sh''], ts_User = [], ts_SharedDir = []\<rparr>"

theorem terminal_stream_witness:
  "\<exists>spec st out. handleConn (\<lambda>_. None) sample_host sample_shell [''0ls'', ''1{}''] [''hi''] = Ended spec st out \<and>
     cs_stdin st = ''ls'' \<and> concat (map tl out) = ''hi''"
proof -
  obtain spec st out where
    h: "handleConn (\<lambda>_. None) sample_host sample_shell [''0ls'', ''1{}''] [''hi''] = Ended spec st out"
    by (auto simp: handleConn_def sample_host_def)
  from terminal_stream [OF h] h show ?thesis by simp
qed

text \<open>
  A session without a home: when the relay has no \<^verbatim>\<open>HOME\<close> itself, none is set for the user.
\<close>

theorem home_not_set:
  assumes "filter (\<lambda>e. HasPrefix e ''HOME='') env = []"
  shows "filter (\<lambda>e. HasPrefix e ''HOME='') (user_env host sc home uid env) = []"
proof -
  have o: "override_home home env = env" using assms by (induction env) (auto split: if_splits)
  show ?thesis unfolding user_env_def Let_def o using assms by auto
qed

end
