(* ===== verification/Tools.thy ===== *)
theory Tools
  imports Interfaces Go_Json Go_Url
begin

text \<open>
  \<^verbatim>\<open>internal/tools\<close>: the tools a chat model may call: web search and fetch (run without asking), and
  reading and writing files and running code (only after approval). What the host answers is a
  parameter; a tool returns its result and what it did, in order.
\<close>

section \<open>Definitions of the tools\<close>

record Property =
  pp_Type :: string
  pp_Description :: string
  pp_Enum :: "string list"

record ToolDefinition =
  td_Name :: string
  td_Description :: string
  td_Properties :: "(string \<times> Property) list"
  td_Required :: "string list"

definition text_property :: "string \<Rightarrow> Property" where
  "text_property d = \<lparr>pp_Type = ''string'', pp_Description = d, pp_Enum = []\<rparr>"

definition AllTools :: "ToolDefinition list" where
  "AllTools =
     [\<lparr>td_Name = ''web_search'', td_Description = ''Search the web for information'',
       td_Properties = [(''query'', text_property ''The search query'')], td_Required = [''query'']\<rparr>,
      \<lparr>td_Name = ''run_code'', td_Description = ''Execute code in a sandboxed environment'',
       td_Properties = [(''language'', (text_property ''Programming language'')\<lparr>pp_Enum := [''python'', ''bash'']\<rparr>),
                        (''code'', text_property ''The code to execute'')],
       td_Required = [''language'', ''code'']\<rparr>,
      \<lparr>td_Name = ''web_fetch'', td_Description = ''Fetch a web page and extract its main content as markdown'',
       td_Properties = [(''url'', text_property ''The URL to fetch'')], td_Required = [''url'']\<rparr>,
      \<lparr>td_Name = ''read_file'', td_Description = ''Read the contents of a file'',
       td_Properties = [(''path'', text_property ''Absolute file path to read'')], td_Required = [''path'']\<rparr>,
      \<lparr>td_Name = ''write_file'', td_Description = ''Write content to a file'',
       td_Properties = [(''path'', text_property ''Absolute file path to write''),
                        (''content'', text_property ''Content to write to the file'')],
       td_Required = [''path'', ''content'']\<rparr>]"

record ToolCall =
  tl_Name :: string
  tl_Args :: "json option"

record ToolResult =
  tr_Name :: string
  tr_Content :: string
  tr_Error :: string

definition failed :: "string \<Rightarrow> string \<Rightarrow> ToolResult" where
  "failed name e = \<lparr>tr_Name = name, tr_Content = [], tr_Error = e\<rparr>"

definition succeeded :: "string \<Rightarrow> string \<Rightarrow> ToolResult" where
  "succeeded name c = \<lparr>tr_Name = name, tr_Content = c, tr_Error = []\<rparr>"

section \<open>The host\<close>

record lstat_info =
  ls_symlink :: bool
  ls_dir :: bool
  ls_size :: int

text \<open>
  \<open>tk_eval\<close> is \<^verbatim>\<open>filepath.EvalSymlinks\<close>; \<open>tk_run\<close> gives the writes of a process to its output and
  its error; \<open>tk_post\<close> the status and body of an answer of the hosted API; \<open>tk_parse\<close> reads JSON.
\<close>

record tool_host =
  tk_goos :: string
  tk_eval :: "string \<Rightarrow> string option"
  tk_lstat :: "string \<Rightarrow> lstat_info option"
  tk_read :: "string \<Rightarrow> string option"
  tk_mkdir :: bool
  tk_open :: bool
  tk_write :: bool
  tk_lookpath :: "string \<Rightarrow> string option"
  tk_tempdir :: string
  tk_PATH :: string
  tk_user :: "string option"
  tk_run :: "string list \<Rightarrow> string list \<Rightarrow> string list \<times> string option"
  tk_key :: string
  tk_post :: "string \<Rightarrow> json \<Rightarrow> (nat \<times> string) option"
  tk_parse :: "string \<Rightarrow> json option"

datatype tool_effect =
    ReadFile string
  | MakeDir string
  | WriteFile string string
  | RunCode "string list" "string list"
  | PostTo string json

section \<open>Files\<close>

definition maxReadBytes :: int where "maxReadBytes = 10 * 1024"
definition maxWriteBytes :: int where "maxWriteBytes = 100 * 1024"

definition sensitivePatterns :: "string list" where
  "sensitivePatterns =
     [''.ssh'', ''.aws'', ''.gnupg'', ''.env'', ''.git/config'', ''.netrc'', ''.docker'', ''.kube'', ''.config/gh'',
      ''id_rsa'', ''id_ed25519'', ''authorized_keys'', ''known_hosts'', ''.npmrc'', ''.pgpass'', ''.my.cnf'', ''.pypirc'',
      ''.cargo/credentials'', ''.azure'', ''gcloud/credentials'', ''gcloud/legacy_credentials'',
      ''service-account.json'', ''service_account.json'', ''.boto'', ''terraform.tfstate'', ''.terraform'',
      ''.htpasswd'', ''credentials.json'', ''secrets.yaml'', ''secrets.yml'']"

definition sensitiveExactPaths :: "string list" where
  "sensitiveExactPaths = [''/etc/shadow'', ''/etc/passwd'', ''/etc/continuum/env'', ''/etc/wireguard'']"

definition allowed_root :: "string \<Rightarrow> bool" where
  "allowed_root p \<longleftrightarrow> HasPrefix p ''/home/'' \<or> HasPrefix p ''/tmp/''"

definition validatePath :: "tool_host \<Rightarrow> string \<Rightarrow> string result" where
  "validatePath h path =
     (if \<not> IsAbs path then Inl ''path must be absolute''
      else if Contains path ''..'' then Inl ''path traversal not allowed''
      else
        (let clean = Clean path in
         if \<not> allowed_root clean then Inl ''path must be under /home/ or /tmp/''
         else
           (let dir = (case tk_eval h (DirPath clean) of None \<Rightarrow> DirPath clean | Some d \<Rightarrow> d);
                resolved = JoinPath dir (BasePath clean)
            in if \<not> allowed_root resolved then Inl ''resolved path escapes allowed directory''
               else if list_ex (\<lambda>p. Contains clean p \<or> Contains resolved p) sensitivePatterns
               then Inl ''access to sensitive path denied''
               else if list_ex (\<lambda>e. HasPrefix clean e \<or> HasPrefix resolved e) sensitiveExactPaths
               then Inl ''access to sensitive path denied''
               else Inr resolved)))"

definition executeReadFile :: "tool_host \<Rightarrow> string \<Rightarrow> ToolResult \<times> tool_effect list" where
  "executeReadFile h path =
     (case validatePath h path of
        Inl e \<Rightarrow> (failed ''read_file'' e, [])
      | Inr resolved \<Rightarrow>
          (case tk_lstat h resolved of
             None \<Rightarrow> (failed ''read_file'' ''file not found'', [])
           | Some info \<Rightarrow>
               if ls_symlink info then (failed ''read_file'' ''symlinks not allowed'', [])
               else if ls_dir info then (failed ''read_file'' ''path is a directory'', [])
               else if maxReadBytes < ls_size info then (failed ''read_file'' ''file exceeds 10KB limit'', [])
               else case tk_read h resolved of
                 None \<Rightarrow> (failed ''read_file'' ''read failed'', [ReadFile resolved])
               | Some data \<Rightarrow> (succeeded ''read_file'' data, [ReadFile resolved])))"

definition executeWriteFile :: "tool_host \<Rightarrow> string \<Rightarrow> string \<Rightarrow> ToolResult \<times> tool_effect list" where
  "executeWriteFile h path content =
     (case validatePath h path of
        Inl e \<Rightarrow> (failed ''write_file'' e, [])
      | Inr resolved \<Rightarrow>
          if maxWriteBytes < int (length content) then (failed ''write_file'' ''content exceeds 100KB limit'', [])
          else if (case tk_lstat h resolved of Some info \<Rightarrow> ls_symlink info | None \<Rightarrow> False)
          then (failed ''write_file'' ''symlinks not allowed'', [])
          else
            (let mk = MakeDir (DirPath resolved) in
             if \<not> tk_mkdir h then (failed ''write_file'' ''failed to create directory'', [mk])
             else if \<not> tk_open h then (failed ''write_file'' ''write failed'', [mk])
             else if \<not> tk_write h then (failed ''write_file'' ''write failed'', [mk, WriteFile resolved content])
             else (succeeded ''write_file'' (''wrote '' @ path), [mk, WriteFile resolved content])))"

section \<open>Code\<close>

definition maxOutputBytes :: nat where "maxOutputBytes = 10 * 1024"
definition maxConcurrentRunCode :: nat where "maxConcurrentRunCode = 4"

text \<open>\<^verbatim>\<open>cappedBuffer.Write\<close>: the buffer after a write, which always reports success.\<close>

definition buffer_write :: "nat \<Rightarrow> string \<Rightarrow> string \<Rightarrow> string" where
  "buffer_write cap buf p =
     (let remaining = int cap - int (length buf) in
      if 0 < remaining then
        (if remaining < int (length p) then buf @ take (nat remaining) p else buf @ p)
      else buf)"

definition macOSSandboxProfile :: string where
  "macOSSandboxProfile =
     Join [''(version 1)'', ''(deny default)'', ''(import '' @ [CHR 0x22] @ ''system.sb'' @ [CHR 0x22] @ '')'',
           ''(allow process-exec)'', ''(allow process-fork)'', ''(allow file-read*)'',
           ''(allow file-write* (subpath '' @ [CHR 0x22] @ ''/tmp'' @ [CHR 0x22] @ ''))'',
           ''(allow signal (target self))''] [CHR 0x0A]"

definition buildSandboxedCommand :: "tool_host \<Rightarrow> string \<Rightarrow> string \<Rightarrow> string list" where
  "buildSandboxedCommand h interpreter code =
     (let direct = [interpreter, ''-c'', code] in
      if tk_goos h = ''linux'' then
        (case tk_lookpath h ''unshare'' of
           Some path \<Rightarrow> [path, ''--net'', ''--''] @ direct
         | None \<Rightarrow> direct)
      else if tk_goos h = ''darwin'' then
        (case tk_lookpath h ''sandbox-exec'' of
           Some path \<Rightarrow> [path, ''-p'', macOSSandboxProfile] @ direct
         | None \<Rightarrow> direct)
      else direct)"

definition sandboxEnv :: "tool_host \<Rightarrow> string list" where
  "sandboxEnv h =
     [''HOME='' @ JoinPath (tk_tempdir h) ''continuum-sandbox'', ''TMPDIR='' @ tk_tempdir h, ''LANG=en_US.UTF-8''] @
     (if tk_PATH h \<noteq> [] then [''PATH='' @ tk_PATH h] else []) @
     (case tk_user h of Some u \<Rightarrow> [''USER='' @ u] | None \<Rightarrow> [])"

definition executeRunCode :: "tool_host \<Rightarrow> string \<Rightarrow> string \<Rightarrow> ToolResult \<times> tool_effect list" where
  "executeRunCode h language code =
     (case (if language = ''python'' then Some ''python3'' else if language = ''bash'' then Some ''bash'' else None) of
        None \<Rightarrow> (failed ''run_code'' ''unsupported language'', [])
      | Some interpreter \<Rightarrow>
          (let argv = buildSandboxedCommand h interpreter code;
               env = sandboxEnv h;
               (writes, err) = tk_run h argv env;
               out = foldl (buffer_write maxOutputBytes) [] writes;
               effects = [MakeDir (JoinPath (tk_tempdir h) ''continuum-sandbox''), RunCode argv env]
           in case err of
                Some e \<Rightarrow> (\<lparr>tr_Name = ''run_code'', tr_Content = out, tr_Error = e\<rparr>, effects)
              | None \<Rightarrow> (succeeded ''run_code'' out, effects)))"

section \<open>Web search and fetch\<close>

abbreviation newline :: string where
  "newline \<equiv> [CHR 0x0A]"

definition maxFetchOutputBytes :: int where "maxFetchOutputBytes = 20 * 1024"
definition maxFetchURLLen :: int where "maxFetchURLLen = 2048"

text \<open>\<^verbatim>\<open>io.LimitReader\<close>: the first bytes of a body.\<close>

definition limit_body :: "int \<Rightarrow> string \<Rightarrow> string" where
  "limit_body n body = take (nat n) body"

definition validateFetchURL :: "string \<Rightarrow> string option" where
  "validateFetchURL rawURL =
     (if maxFetchURLLen < int (length rawURL) then Some ''url too long''
      else case ParseUrl rawURL of
        None \<Rightarrow> Some ''invalid url''
      | Some u \<Rightarrow>
          if url_Scheme u \<noteq> ''http'' \<and> url_Scheme u \<noteq> ''https'' then Some ''url scheme must be http or https''
          else if url_Host u = [] then Some ''url must have a host''
          else None)"

text \<open>The struct of a fetched page: two strings and a list of strings.\<close>

fun is_text :: "json \<Rightarrow> bool" where
  "is_text (JStr _) = True"
| "is_text JNull = True"
| "is_text _ = False"

fun links_ok :: "json \<Rightarrow> bool" where
  "links_ok (JArr vs) = list_all is_text vs"
| "links_ok JNull = True"
| "links_ok _ = False"

definition decode_page :: "json option \<Rightarrow> (string \<times> string) option" where
  "decode_page j =
     (case j of
        Some (JObj fs) \<Rightarrow>
          if \<not> list_all (\<lambda>(k, v). map lower_char k = ''links'' \<longrightarrow> links_ok v) fs then None
          else map_option (\<lambda>m. (m ''title'', m ''content'')) (unmarshal_strings [''title'', ''content''] j)
      | _ \<Rightarrow> map_option (\<lambda>m. (m ''title'', m ''content'')) (unmarshal_strings [''title'', ''content''] j))"

definition page_text :: "string \<Rightarrow> string \<times> string \<Rightarrow> string" where
  "page_text rawURL tc =
     (let out = (if fst tc \<noteq> []
                 then ''# '' @ fst tc @ newline @ newline @ ''Source: '' @ rawURL @ newline @ newline @ ''---'' @ newline @ newline
                 else []) @ snd tc
      in if maxFetchOutputBytes < int (length out)
         then take (nat maxFetchOutputBytes) out @ newline @ newline @ ''[truncated]'' else out)"

definition fetch_endpoint :: string where "fetch_endpoint = ''https://ollama.com/api/web_fetch''"
definition search_endpoint :: string where "search_endpoint = ''https://ollama.com/api/web_search''"

definition executeWebFetch :: "tool_host \<Rightarrow> string \<Rightarrow> ToolResult \<times> tool_effect list" where
  "executeWebFetch h rawURL =
     (if rawURL = [] then (failed ''web_fetch'' ''url is required'', [])
      else case validateFetchURL rawURL of
        Some e \<Rightarrow> (failed ''web_fetch'' e, [])
      | None \<Rightarrow>
          if tk_key h = [] then (failed ''web_fetch'' ''OLLAMA_API_KEY not configured'', [])
          else
            (let body = JObj [(''url'', JStr rawURL)]; sent = [PostTo fetch_endpoint body] in
             case tk_post h fetch_endpoint body of
               None \<Rightarrow> (failed ''web_fetch'' ''fetch request failed'', sent)
             | Some (status, data) \<Rightarrow>
                 if status \<noteq> 200 then (failed ''web_fetch'' (''fetch API returned '' @ Itoa (int status)), sent)
                 else case decode_page (tk_parse h (limit_body (512 * 1024) data)) of
                   None \<Rightarrow> (failed ''web_fetch'' ''invalid response'', sent)
                 | Some tc \<Rightarrow> (succeeded ''web_fetch'' (page_text rawURL tc), sent)))"

fun decode_results :: "json list \<Rightarrow> (string \<Rightarrow> string) list option" where
  "decode_results [] = Some []"
| "decode_results (v # vs) =
     (case (unmarshal_strings [''title'', ''url'', ''content''] (Some v), decode_results vs) of
        (Some m, Some ms) \<Rightarrow> Some (m # ms)
      | _ \<Rightarrow> None)"

text \<open>The last \<open>results\<close> field counts; another type than a list of objects is an error.\<close>

fun search_results :: "(string \<times> json) list \<Rightarrow> (string \<Rightarrow> string) list \<Rightarrow> (string \<Rightarrow> string) list option" where
  "search_results [] acc = Some acc"
| "search_results ((k, v) # fs) acc =
     (if map lower_char k \<noteq> ''results'' then search_results fs acc
      else (case v of
              JArr vs \<Rightarrow> (case decode_results vs of None \<Rightarrow> None | Some ms \<Rightarrow> search_results fs ms)
            | JNull \<Rightarrow> search_results fs []
            | _ \<Rightarrow> None))"

definition result_text :: "nat \<Rightarrow> (string \<Rightarrow> string) \<Rightarrow> string" where
  "result_text i m =
     Itoa (int i + 1) @ ''. **'' @ m ''title'' @ ''**'' @ newline @ ''   '' @ m ''url'' @ newline @ ''   '' @
     m ''content'' @ newline @ newline"

definition executeWebSearch :: "tool_host \<Rightarrow> string \<Rightarrow> ToolResult \<times> tool_effect list" where
  "executeWebSearch h query =
     (if query = [] then (failed ''web_search'' ''query is required'', [])
      else if tk_key h = [] then (failed ''web_search'' ''OLLAMA_API_KEY not configured'', [])
      else
        (let body = JObj [(''query'', JStr query), (''max_results'', JNum 5)]; sent = [PostTo search_endpoint body] in
         case tk_post h search_endpoint body of
           None \<Rightarrow> (failed ''web_search'' ''search request failed'', sent)
         | Some (status, data) \<Rightarrow>
             if status \<noteq> 200 then (failed ''web_search'' (''search API returned '' @ Itoa (int status)), sent)
             else case (case tk_parse h (limit_body (256 * 1024) data) of
                          Some (JObj fs) \<Rightarrow> search_results fs []
                        | Some JNull \<Rightarrow> Some []
                        | _ \<Rightarrow> None) of
                    Some (m # ms) \<Rightarrow>
                      (succeeded ''web_search''
                         (concat (map (\<lambda>(i, r). result_text i r) (zip [0 ..< Suc (length ms)] (m # ms)))), sent)
                  | _ \<Rightarrow> (succeeded ''web_search'' ''No results found.'', sent)))"

section \<open>Dispatch\<close>

definition SafeTools :: "string list" where
  "SafeTools = [''web_search'', ''web_fetch'']"

definition Execute :: "tool_host \<Rightarrow> ToolCall \<Rightarrow> ToolResult \<times> tool_effect list" where
  "Execute h call =
     (let name = tl_Name call in
      if name \<notin> set SafeTools
      then (failed name (''Tool '' @ name @ '' requires user approval. Describe what you would do instead.''), [])
      else if name = ''web_search'' then
        (case unmarshal_strings [''query''] (tl_Args call) of
           None \<Rightarrow> (failed name ''invalid arguments'', [])
         | Some m \<Rightarrow> if 500 < length (m ''query'') then (failed name ''query too long'', [])
                     else executeWebSearch h (m ''query''))
      else if name = ''web_fetch'' then
        (case unmarshal_strings [''url''] (tl_Args call) of
           None \<Rightarrow> (failed name ''invalid arguments'', [])
         | Some m \<Rightarrow> executeWebFetch h (m ''url''))
      else (failed name ''unknown tool'', []))"

definition ExecuteUnsafe :: "tool_host \<Rightarrow> ToolCall \<Rightarrow> ToolResult \<times> tool_effect list" where
  "ExecuteUnsafe h call =
     (let name = tl_Name call in
      if name = ''read_file'' then
        (case unmarshal_strings [''path''] (tl_Args call) of
           None \<Rightarrow> (failed name ''invalid arguments'', [])
         | Some m \<Rightarrow> executeReadFile h (m ''path''))
      else if name = ''run_code'' then
        (case unmarshal_strings [''language'', ''code''] (tl_Args call) of
           None \<Rightarrow> (failed name ''invalid arguments'', [])
         | Some m \<Rightarrow> executeRunCode h (m ''language'') (m ''code''))
      else if name = ''write_file'' then
        (case unmarshal_strings [''path'', ''content''] (tl_Args call) of
           None \<Rightarrow> (failed name ''invalid arguments'', [])
         | Some m \<Rightarrow> executeWriteFile h (m ''path'') (m ''content''))
      else (failed name ''unknown unsafe tool'', []))"

end
