(* ===== verification/Tools_Proofs.thy ===== *)
theory Tools_Proofs
  imports Tools
begin

text \<open>
  What the tools may touch and how much they return: files only below \<^verbatim>\<open>/home\<close> and \<^verbatim>\<open>/tmp\<close>, posts only
  to the hosted API, code only in an environment without the relay's variables.
\<close>

section \<open>Files\<close>







section \<open>Output of code\<close>

lemma nat_int_minus: "nat (int a - int b) = a - b"
  by (cases "b \<le> a") (simp_all flip: of_nat_diff)

lemma buffer_write_take:
  "length buf \<le> cap \<Longrightarrow> buffer_write cap buf p = take cap (buf @ p)"
  by (auto simp: buffer_write_def Let_def min_def nat_int_minus)

lemma buffer_writes:
  "length buf \<le> cap \<Longrightarrow> foldl (buffer_write cap) buf ws = take cap (buf @ concat ws)"
proof (induction ws arbitrary: buf)
  case (Cons w ws)
  have "length (take cap (buf @ w)) \<le> cap" by simp
  from Cons.IH [OF this] show ?case
    using Cons.prems by (cases "cap \<le> length (buf @ w)") (simp_all add: buffer_write_take)
qed simp

text \<open>The semaphore of running interpreters: a buffered channel with four places.\<close>

inductive sem_step :: "nat \<Rightarrow> nat \<Rightarrow> bool" where
  "n < maxConcurrentRunCode \<Longrightarrow> sem_step n (Suc n)"
| "sem_step (Suc n) n"

interpretation run_sem: invariant_system "\<lambda>n. n = 0" sem_step "\<lambda>n. n \<le> 4"
  by unfold_locales (auto simp: maxConcurrentRunCode_def elim: sem_step.cases)

section \<open>The sandbox environment\<close>



section \<open>What a tool does\<close>

fun safe_effect :: "tool_effect \<Rightarrow> bool" where
  "safe_effect (PostTo url body) \<longleftrightarrow> url = fetch_endpoint \<or> url = search_endpoint"
| "safe_effect _ \<longleftrightarrow> False"



lemma web_effects:
  "list_all safe_effect (snd (executeWebFetch h u))" "length (snd (executeWebFetch h u)) \<le> 1"
  "list_all safe_effect (snd (executeWebSearch h q))" "length (snd (executeWebSearch h q)) \<le> 1"
  by (auto simp: executeWebFetch_def executeWebSearch_def Let_def split: option.splits list.splits json.splits)




lemma run_output: "length (tr_Content (fst (executeRunCode h l c))) \<le> 10240"
  by (auto simp: executeRunCode_def Let_def buffer_writes maxOutputBytes_def failed_def succeeded_def
      split: option.splits prod.splits if_splits)

lemma page_text_length: "int (length (page_text u tc)) \<le> 20 * 1024 + 13"
  by (auto simp: page_text_def Let_def maxFetchOutputBytes_def)

lemma fetch_output: "int (length (tr_Content (fst (executeWebFetch h u)))) \<le> 20 * 1024 + 13"
  using page_text_length
  by (auto simp: executeWebFetch_def Let_def failed_def succeeded_def split: option.splits)

section \<open>Properties\<close>

text \<open>
  Tools that run without approval only ask the hosted API. Whatever a model calls, \<^verbatim>\<open>Execute\<close> sends
  at most one request, to the search or fetch endpoint; it never touches a file or runs code, and a
  tool outside the list is refused.
\<close>

theorem safe_tools_only_post:
  "list_all safe_effect (snd (Execute h call)) \<and> length (snd (Execute h call)) \<le> 1 \<and>
   (tl_Name call \<in> {''web_search'', ''web_fetch''} \<or>
      (snd (Execute h call) = [] \<and> tr_Error (fst (Execute h call)) \<noteq> []))"
  using web_effects
  by (auto simp: Execute_def SafeTools_def Let_def failed_def split: option.splits)


text \<open>
  C36: tool output is bounded. Code in either language returns exactly the first 10 KB of all it wrote, in
  order, whatever it writes; a fetched page is at most 20 KB and the mark of truncation; a file is
  read only if it had at most 10 KB when it was looked at, so its text has at most 10 KB unless
  the file had grown between the look and the read.
\<close>

theorem tool_output_bounded:
  "tr_Content (fst (executeRunCode h ''bash'' code)) =
     take 10240 (concat (fst (tk_run h (buildSandboxedCommand h ''bash'' code) (sandboxEnv h)))) \<and>
   tr_Content (fst (executeRunCode h ''python'' code)) =
     take 10240 (concat (fst (tk_run h (buildSandboxedCommand h ''python3'' code) (sandboxEnv h)))) \<and>
   length (tr_Content (fst (executeRunCode h lang code))) \<le> 10240 \<and>
   int (length (tr_Content (fst (executeWebFetch h url)))) \<le> 20 * 1024 + 13 \<and>
   (length (tr_Content (fst (executeReadFile h path))) \<le> 10240 \<or>
      (\<exists>p info. validatePath h path = Inr p \<and> tk_lstat h p = Some info \<and> ls_size info \<le> 10 * 1024 \<and>
         \<not> ls_symlink info \<and> tk_read h p = Some (tr_Content (fst (executeReadFile h path))) \<and>
         ls_size info < int (length (tr_Content (fst (executeReadFile h path))))))"
proof -
  have run: "tr_Content (fst (executeRunCode h l code)) =
     take 10240 (concat (fst (tk_run h (buildSandboxedCommand h i code) (sandboxEnv h))))"
    if "(l, i) = (''bash'', ''bash'') \<or> (l, i) = (''python'', ''python3'')" for l i
    using that by (auto simp: executeRunCode_def Let_def buffer_writes maxOutputBytes_def succeeded_def
        split: option.splits prod.splits)
  have "length (tr_Content (fst (executeReadFile h path))) \<le> 10240 \<or>
      (\<exists>p info. validatePath h path = Inr p \<and> tk_lstat h p = Some info \<and> ls_size info \<le> 10 * 1024 \<and>
         \<not> ls_symlink info \<and> tk_read h p = Some (tr_Content (fst (executeReadFile h path))) \<and>
         ls_size info < int (length (tr_Content (fst (executeReadFile h path)))))"
    by (auto simp: executeReadFile_def failed_def succeeded_def maxReadBytes_def split: option.splits sum.splits)
  then show ?thesis using run_output fetch_output run by blast
qed

text \<open>Every tool that is advertised to the model is one the dispatchers know.\<close>

theorem advertised_tools_known:
  "list_all (\<lambda>t. td_Name t \<in> set SafeTools \<or>
     tr_Error (fst (ExecuteUnsafe h \<lparr>tl_Name = td_Name t, tl_Args = None\<rparr>)) = ''invalid arguments'') AllTools"
  by (simp add: AllTools_def SafeTools_def ExecuteUnsafe_def failed_def)

text \<open>
  When the directory of the target cannot be resolved (it does not exist yet), nothing is resolved:
  the path is used as it was given, and the missing directories are made along it. A link further
  up, such as \<^verbatim>\<open>/tmp/link\<close>, is then followed to wherever it points.
\<close>

theorem unresolved_parent_written:
  assumes "tk_eval h ''/tmp/link/new'' = None" "tk_lstat h ''/tmp/link/new/f'' = None" "tk_mkdir h" "tk_open h" "tk_write h"
  shows "executeWriteFile h ''/tmp/link/new/f'' ''x'' =
    (succeeded ''write_file'' ''wrote /tmp/link/new/f'',
     [MakeDir ''/tmp/link/new'', WriteFile ''/tmp/link/new/f'' ''x''])"
proof -
  let ?p = "''/tmp/link/new/f''"
  have c: "Clean ?p = ?p" "DirPath ?p = ''/tmp/link/new''" "BasePath ?p = ''f''" "JoinPath ''/tmp/link/new'' ''f'' = ?p"
    "IsAbs ?p" "\<not> Contains ?p ''..''" "allowed_root ?p"
    "\<not> list_ex (\<lambda>p. Contains ?p p \<or> Contains ?p p) sensitivePatterns"
    "\<not> list_ex (\<lambda>e. HasPrefix ?p e \<or> HasPrefix ?p e) sensitiveExactPaths"
    by code_simp+
  have "validatePath h ?p = Inr ?p"
    unfolding validatePath_def Let_def c(1-3) assms(1) option.case c(4)
    using c(5-9) by simp
  then show ?thesis
    unfolding executeWriteFile_def c(2) assms(2) Let_def
    by (simp add: maxWriteBytes_def assms c(2))
qed

text \<open>The patterns are looked for anywhere in the path, not component by component.\<close>

theorem sensitive_overmatch:
  "validatePath h ''/tmp/app.environment'' = Inl ''access to sensitive path denied'' \<or>
   validatePath h ''/tmp/app.environment'' = Inl ''resolved path escapes allowed directory''"
proof -
  let ?p = "''/tmp/app.environment''"
  have c: "Clean ?p = ?p" "IsAbs ?p" "\<not> Contains ?p ''..''" "allowed_root ?p" by code_simp+
  have s: "list_ex (\<lambda>p. Contains ?p p \<or> Contains q p) sensitivePatterns" for q
    by (simp add: sensitivePatterns_def) (simp add: sublist_code)
  show ?thesis
    unfolding validatePath_def Let_def c(1) by (simp only: c s if_True if_False simp_thms split: if_split)
qed

end
