(* ===== verification/Chat_Proxy.thy ===== *)
theory Chat_Proxy
  imports Auth Permission Session_Hub Tools
begin

text \<open>
  \<^verbatim>\<open>internal/relay/chat_proxy.go\<close>: the chat endpoint. It asks the model in rounds, runs the tools
  the model calls (unsafe ones only after a prompt to the client), and finally streams an answer.
  The model, the clock of the prompts and what other requests do meanwhile are parameters; a trace
  records prompts, verdicts, tool runs and requests to the model in their order.
\<close>

section \<open>Messages\<close>

record ollamaToolCall =
  tc_Name :: string
  tc_Arguments :: "json option"

record ollamaMessage =
  om_Role :: string
  om_Content :: string
  om_Images :: "string list"
  om_ToolCalls :: "ollamaToolCall list"

record ollamaChatRequest =
  cr_Model :: string
  cr_Messages :: "ollamaMessage list"
  cr_Stream :: bool
  cr_Think :: "bool option"
  cr_Options :: "json option"
  cr_KeepAlive :: string
  cr_Tools :: "ToolDefinition list"

record toolEvent =
  te_Name :: string
  te_Args :: "json option"
  te_Result :: string

definition maxOllamaResponseBytes :: int where
  "maxOllamaResponseBytes = 2 * 1024 * 1024"

definition maxRounds :: nat where
  "maxRounds = 10"

text \<open>What is written to the client: a JSON line, or bytes of the model's stream.\<close>

datatype chat_out = Line json | Chunk string

definition error_line :: "string \<Rightarrow> chat_out" where
  "error_line msg = Line (JObj [(''error'', JStr msg)])"

definition args_json :: "json option \<Rightarrow> json" where
  "args_json a = (case a of None \<Rightarrow> JNull | Some j \<Rightarrow> j)"

definition events_line :: "toolEvent list \<Rightarrow> chat_out" where
  "events_line es =
     Line (JObj [(''tool_events'', JArr (map (\<lambda>e. JObj [(''name'', JStr (te_Name e)),
        (''args'', args_json (te_Args e)), (''result'', JStr (te_Result e))]) es))])"

definition permission_line :: "string \<Rightarrow> string \<Rightarrow> json option \<Rightarrow> chat_out" where
  "permission_line pid toolName args =
     Line (JObj [(''tool_permission_request'',
        JObj [(''id'', JStr pid), (''tool_name'', JStr toolName), (''arguments'', args_json args)])])"

section \<open>The environment and the state of a chat\<close>

text \<open>One request to the model: it cannot be built, fails, cannot be read, or has a body.\<close>

datatype post_result = NoRequest | PostFailed | ReadFailed | Body string

text \<open>
  \<open>pe_post\<close> answers the n-th request; \<open>pe_stream\<close> the final one with the reads of its body;
  \<open>pe_message\<close> and \<open>pe_request\<close> decode JSON text into the structs; \<open>pe_id\<close> is the random id of
  the n-th prompt; \<open>pe_during\<close> what other requests do to the broker while it waits; \<open>pe_gave_up\<close> whether
  the timer or the cancellation ends the wait.
\<close>

record chat_env =
  pe_OLLAMA_HOST :: string
  pe_tools :: tool_host
  pe_post :: "nat \<Rightarrow> string \<Rightarrow> ollamaChatRequest \<Rightarrow> post_result"
  pe_stream :: "string \<Rightarrow> ollamaChatRequest \<Rightarrow> (string list) option option"
  pe_message :: "string \<Rightarrow> ollamaMessage option"
  pe_request :: "string \<Rightarrow> ollamaChatRequest option"
  pe_id :: "nat \<Rightarrow> string"
  pe_during :: "nat \<Rightarrow> broker_op list"
  pe_gave_up :: "nat \<Rightarrow> bool"
  pe_flusher :: bool

datatype chat_event =
    Asked ollamaChatRequest
  | RanSafe ToolCall
  | Prompted string string ToolCall
  | Verdict string bool
  | RanUnsafe ToolCall

record chat_state =
  ch_req :: ollamaChatRequest
  ch_events :: "toolEvent list"
  ch_out :: "chat_out list"
  ch_hub :: Hub
  ch_broker :: PermissionBroker
  ch_alerts :: "Alert list"
  ch_prompts :: nat
  ch_posts :: nat
  ch_effects :: "tool_effect list"
  ch_trace :: "chat_event list"

definition ollamaHost :: "chat_env \<Rightarrow> string" where
  "ollamaHost env = (if pe_OLLAMA_HOST env \<noteq> [] then pe_OLLAMA_HOST env else ''http://10.100.0.1:11434'')"

definition writeProxyError :: "string \<Rightarrow> chat_state \<Rightarrow> chat_state" where
  "writeProxyError msg st = st\<lparr>ch_out := ch_out st @ [error_line msg]\<rparr>"

section \<open>Prompts\<close>

definition requestInlinePermission ::
  "chat_env \<Rightarrow> string \<Rightarrow> string \<Rightarrow> ToolCall \<Rightarrow> chat_state \<Rightarrow> bool \<times> chat_state" where
  "requestInlinePermission env ownerIP sessionName call st =
     (let n = ch_prompts st;
          pid = pe_id env n;
          (ch, b1) = RegisterPending pid ownerIP (ch_broker st);
          (alert, h1) = NotifyPermission sessionName (tl_Name call) pid (ch_hub st);
          b2 = fold run_op (pe_during env n) b1;
          allowed = (\<not> pe_gave_up env n \<and> chan_buf b2 ch \<noteq> [] \<and> hd (chan_buf b2 ch))
      in (allowed,
          st\<lparr>ch_out := ch_out st @ [permission_line pid (tl_Name call) (tl_Args call)],
             ch_hub := h1, ch_alerts := ch_alerts st @ (case alert of None \<Rightarrow> [] | Some a \<Rightarrow> [a]),
             ch_broker := RemovePending pid b2, ch_prompts := Suc n,
             ch_trace := ch_trace st @ [Prompted pid ownerIP call, Verdict pid allowed]\<rparr>))"

section \<open>Rounds\<close>

definition run_tool :: "chat_env \<Rightarrow> string \<Rightarrow> ToolCall \<Rightarrow> chat_state \<Rightarrow> ToolResult \<times> chat_state" where
  "run_tool env ownerIP call st =
     (if tl_Name call \<in> set SafeTools then
        (let (r, eff) = Execute (pe_tools env) call
         in (r, st\<lparr>ch_effects := ch_effects st @ eff, ch_trace := ch_trace st @ [RanSafe call]\<rparr>))
      else
        (let (allowed, st1) = requestInlinePermission env ownerIP (cr_Model (ch_req st)) call st
         in if allowed then
              (let (r, eff) = ExecuteUnsafe (pe_tools env) call
               in (r, st1\<lparr>ch_effects := ch_effects st1 @ eff, ch_trace := ch_trace st1 @ [RanUnsafe call]\<rparr>))
            else (failed (tl_Name call) ''User denied permission'', st1)))"

definition result_content :: "ToolResult \<Rightarrow> string" where
  "result_content r = (if tr_Error r \<noteq> [] then ''error: '' @ tr_Error r else tr_Content r)"

definition tool_message :: "string \<Rightarrow> ollamaMessage" where
  "tool_message content = \<lparr>om_Role = ''tool'', om_Content = content, om_Images = [], om_ToolCalls = []\<rparr>"

definition add_message :: "ollamaMessage \<Rightarrow> chat_state \<Rightarrow> chat_state" where
  "add_message m st = st\<lparr>ch_req := (ch_req st)\<lparr>cr_Messages := cr_Messages (ch_req st) @ [m]\<rparr>\<rparr>"

fun run_calls :: "chat_env \<Rightarrow> string \<Rightarrow> ollamaToolCall list \<Rightarrow> chat_state \<Rightarrow> chat_state" where
  "run_calls env ip [] st = st"
| "run_calls env ip (tc # tcs) st =
     (let (r, st1) = run_tool env ip \<lparr>tl_Name = tc_Name tc, tl_Args = tc_Arguments tc\<rparr> st;
          content = result_content r;
          st2 = st1\<lparr>ch_events := ch_events st1 @
                      [\<lparr>te_Name = tc_Name tc, te_Args = tc_Arguments tc, te_Result = content\<rparr>]\<rparr>
      in run_calls env ip tcs (add_message (tool_message content) st2))"

text \<open>One request to the model: the decoded message, or the error line to write.\<close>

definition ask_model :: "chat_env \<Rightarrow> chat_state \<Rightarrow> ollamaMessage result \<times> chat_state" where
  "ask_model env st =
     (let req = (ch_req st)\<lparr>cr_Stream := False\<rparr>;
          st1 = st\<lparr>ch_req := req, ch_posts := Suc (ch_posts st), ch_trace := ch_trace st @ [Asked req]\<rparr>
      in (case pe_post env (ch_posts st) (ollamaHost env @ ''/api/chat'') req of
            NoRequest \<Rightarrow> Inl ''internal error building request''
          | PostFailed \<Rightarrow> Inl ''backend request failed''
          | ReadFailed \<Rightarrow> Inl ''backend response read failed''
          | Body body \<Rightarrow>
              (case pe_message env (limit_body maxOllamaResponseBytes body) of
                 None \<Rightarrow> Inl ''backend returned invalid response''
               | Some m \<Rightarrow> Inr m), st1))"

text \<open>The loop; the flag tells whether the handler goes on after it.\<close>

fun rounds :: "chat_env \<Rightarrow> string \<Rightarrow> nat \<Rightarrow> chat_state \<Rightarrow> bool \<times> chat_state" where
  "rounds env ip 0 st = (True, st)"
| "rounds env ip (Suc n) st =
     (case ask_model env st of
        (Inl e, st1) \<Rightarrow> (False, writeProxyError e st1)
      | (Inr m, st1) \<Rightarrow>
          if om_ToolCalls m = [] then (True, add_message m st1)
          else rounds env ip n (run_calls env ip (om_ToolCalls m) (add_message m st1)))"

section \<open>The final answer\<close>

text \<open>The request of the final answer, and the reads of its body.\<close>

definition stream_answer :: "chat_env \<Rightarrow> chat_state \<Rightarrow> chat_state" where
  "stream_answer env st =
     (let req = (ch_req st)\<lparr>cr_Stream := True, cr_Tools := []\<rparr>;
          st1 = st\<lparr>ch_req := req, ch_trace := ch_trace st @ [Asked req]\<rparr>
      in case pe_stream env (ollamaHost env @ ''/api/chat'') req of
           None \<Rightarrow> writeProxyError ''internal error building request'' st1
         | Some None \<Rightarrow> writeProxyError ''backend request failed'' st1
         | Some (Some reads) \<Rightarrow>
             st1\<lparr>ch_out := ch_out st1 @ map Chunk (filter (\<lambda>b. b \<noteq> []) reads)\<rparr>)"

definition send_events :: "chat_state \<Rightarrow> chat_state" where
  "send_events st =
     (if ch_events st \<noteq> [] then st\<lparr>ch_out := ch_out st @ [events_line (ch_events st)]\<rparr> else st)"

definition start_chat :: "ollamaChatRequest \<Rightarrow> Hub \<Rightarrow> PermissionBroker \<Rightarrow> chat_state" where
  "start_chat req h b =
     \<lparr>ch_req = req\<lparr>cr_Tools := AllTools\<rparr>, ch_events = [], ch_out = [], ch_hub = h, ch_broker = b, ch_alerts = [],
      ch_prompts = 0, ch_posts = 0, ch_effects = [], ch_trace = []\<rparr>"

definition chat :: "chat_env \<Rightarrow> string \<Rightarrow> ollamaChatRequest \<Rightarrow> Hub \<Rightarrow> PermissionBroker \<Rightarrow> chat_state" where
  "chat env ip req h b =
     (let (ok, st) = rounds env ip maxRounds (start_chat req h b)
      in if ok then stream_answer env (send_events st) else st)"

datatype chat_reply = ChatError nat string | ChatStream chat_state

definition handleChatProxy ::
  "chat_env \<Rightarrow> time \<Rightarrow> time \<Rightarrow> http_request \<Rightarrow> Authenticator \<Rightarrow> Hub \<Rightarrow> PermissionBroker \<Rightarrow>
   chat_reply \<times> Authenticator" where
  "handleChatProxy env now now' r a h b =
     (let (ok, a1) = ValidateRequest now now' r a
      in if \<not> ok then (ChatError 401 ''Unauthorized'', a1)
         else
           (case max_bytes (2 ^ 20) (req_Body r) of
              None \<Rightarrow> (ChatError 400 ''failed to read body'', a1)
            | Some body \<Rightarrow>
                (case pe_request env body of
                   None \<Rightarrow> (ChatError 400 ''invalid JSON'', a1)
                 | Some req \<Rightarrow>
                     if \<not> pe_flusher env then (ChatError 500 ''streaming not supported'', a1)
                     else (ChatStream (chat env (clientIP r) req h b), a1))))"

section \<open>Tool runs are gated\<close>

text \<open>
  What one step appends to the trace: a request, a safe run, a refusal, or a run after an answer of
  yes that was posted for exactly that prompt from the client's own address while the chat waited.
\<close>

fun step_ok :: "chat_env \<Rightarrow> string \<Rightarrow> chat_event list \<Rightarrow> bool" where
  "step_ok env ip [Asked r] \<longleftrightarrow> True"
| "step_ok env ip [RanSafe c] \<longleftrightarrow> tl_Name c \<in> set SafeTools"
| "step_ok env ip [Prompted pid owner c, Verdict pid' v] \<longleftrightarrow> pid' = pid \<and> owner = ip \<and> \<not> v"
| "step_ok env ip [Prompted pid owner c, Verdict pid' v, RanUnsafe c'] \<longleftrightarrow>
     pid' = pid \<and> owner = ip \<and> v \<and> c' = c \<and> (\<exists>n. pid = pe_id env n \<and> OpRespond pid ip True \<in> set (pe_during env n))"
| "step_ok env ip _ \<longleftrightarrow> False"

definition gated :: "chat_env \<Rightarrow> string \<Rightarrow> chat_event list \<Rightarrow> bool" where
  "gated env ip t \<longleftrightarrow> (\<exists>steps. t = concat steps \<and> list_all (step_ok env ip) steps)"

lemma gated_Nil: "gated env ip []"
  unfolding gated_def by (rule exI [of _ "[]"]) simp

lemma gated_append: "gated env ip t \<Longrightarrow> step_ok env ip s \<Longrightarrow> gated env ip (t @ s)"
  unfolding gated_def by (metis concat_append concat.simps append_Nil2 list_all_append list.pred_inject)

text \<open>A granted prompt was answered by the client it was sent to.\<close>

lemma prompt_trace:
  assumes "requestInlinePermission env ip sess call st = (allowed, st1)" "broker_wf (ch_broker st)"
  shows "ch_trace st1 = ch_trace st @ [Prompted (pe_id env (ch_prompts st)) ip call,
             Verdict (pe_id env (ch_prompts st)) allowed]"
    and "allowed \<Longrightarrow> OpRespond (pe_id env (ch_prompts st)) ip True \<in> set (pe_during env (ch_prompts st))"
    and "broker_wf (ch_broker st1)"
proof -
  let ?n = "ch_prompts st"
  obtain ch b1 where r: "RegisterPending (pe_id env ?n) ip (ch_broker st) = (ch, b1)" by (rule prod.exhaust)
  obtain al h1 where h: "NotifyPermission sess (tl_Name call) (pe_id env ?n) (ch_hub st) = (al, h1)" by (rule prod.exhaust)
  let ?b2 = "fold run_op (pe_during env ?n) b1"
  have wf1: "broker_wf b1" using broker_wf_op [OF assms(2), of "OpRegister (pe_id env ?n) ip"] r by simp
  show "ch_trace st1 = ch_trace st @ [Prompted (pe_id env ?n) ip call, Verdict (pe_id env ?n) allowed]"
    "broker_wf (ch_broker st1)"
    using assms(1) broker_wf_Remove [OF broker_wf_run [OF wf1]]
    by (auto simp: requestInlinePermission_def Let_def r h)
  assume allowed
  then have "chan_buf ?b2 ch \<noteq> []" "hd (chan_buf ?b2 ch)"
    using assms(1) by (auto simp: requestInlinePermission_def Let_def r h)
  then have "True \<in> set (chan_buf ?b2 ch)" by (metis (full_types) hd_in_set)
  then show "OpRespond (pe_id env ?n) ip True \<in> set (pe_during env ?n)"
    by (rule answer_from_owner [OF assms(2) r])
qed

lemma run_tool_trace:
  assumes "gated env ip (ch_trace st)" "broker_wf (ch_broker st)"
  shows "gated env ip (ch_trace (snd (run_tool env ip call st))) \<and> broker_wf (ch_broker (snd (run_tool env ip call st)))"
proof (cases "tl_Name call \<in> set SafeTools")
  case True
  then show ?thesis
    using assms by (auto simp: run_tool_def Let_def split: prod.splits intro: gated_append)
next
  case False
  obtain allowed st1 where p: "requestInlinePermission env ip (cr_Model (ch_req st)) call st = (allowed, st1)"
    by (rule prod.exhaust)
  note t = prompt_trace [OF p assms(2)]
  let ?pid = "pe_id env (ch_prompts st)"
  show ?thesis
  proof (cases allowed)
    case True
    have "step_ok env ip [Prompted ?pid ip call, Verdict ?pid True, RanUnsafe call]"
      using t(2) [OF True] by auto
    from gated_append [OF assms(1) this] show ?thesis
      using False True t(1,3) by (auto simp: run_tool_def p Let_def split: prod.splits)
  next
    case refusal: False
    have "step_ok env ip [Prompted ?pid ip call, Verdict ?pid False]" by simp
    from gated_append [OF assms(1) this] show ?thesis
      using False refusal t(1,3) by (simp add: run_tool_def p Let_def)
  qed
qed

text \<open>The effects of a chat are those of the tool runs in its trace.\<close>

fun effects_of :: "tool_host \<Rightarrow> chat_event \<Rightarrow> tool_effect list" where
  "effects_of h (RanSafe c) = snd (Execute h c)"
| "effects_of h (RanUnsafe c) = snd (ExecuteUnsafe h c)"
| "effects_of h _ = []"

definition traced :: "chat_env \<Rightarrow> chat_state \<Rightarrow> bool" where
  "traced env st \<longleftrightarrow> ch_effects st = concat (map (effects_of (pe_tools env)) (ch_trace st))"

lemma run_tool_traced: "traced env st \<Longrightarrow> traced env (snd (run_tool env ip call st))"
  by (auto simp: traced_def run_tool_def requestInlinePermission_def Let_def split: prod.splits)

lemma run_tool_frame:
  "ch_req (snd (run_tool env ip call st)) = ch_req st" "ch_events (snd (run_tool env ip call st)) = ch_events st"
  by (auto simp: run_tool_def requestInlinePermission_def Let_def split: prod.splits)

definition asked :: "chat_event list \<Rightarrow> nat" where
  "asked t = length (filter (\<lambda>e. case e of Asked _ \<Rightarrow> True | _ \<Rightarrow> False) t)"

lemma run_tool_asked: "asked (ch_trace (snd (run_tool env ip call st))) = asked (ch_trace st)"
  by (auto simp: asked_def run_tool_def requestInlinePermission_def Let_def split: prod.splits)

text \<open>What every step of a chat keeps, for the client's address.\<close>

definition chat_inv :: "chat_env \<Rightarrow> string \<Rightarrow> chat_state \<Rightarrow> bool" where
  "chat_inv env ip st \<longleftrightarrow> gated env ip (ch_trace st) \<and> broker_wf (ch_broker st) \<and> traced env st"

lemma chat_inv_frame:
  "chat_inv env ip st \<Longrightarrow> chat_inv env ip (add_message m st)"
  "chat_inv env ip st \<Longrightarrow> chat_inv env ip (writeProxyError e st)"
  "chat_inv env ip st \<Longrightarrow> chat_inv env ip (send_events st)"
  "chat_inv env ip st \<Longrightarrow> chat_inv env ip (st\<lparr>ch_events := es\<rparr>)"
  by (auto simp: chat_inv_def traced_def add_message_def writeProxyError_def send_events_def)

lemma chat_inv_run_tool: "chat_inv env ip st \<Longrightarrow> chat_inv env ip (snd (run_tool env ip call st))"
  using run_tool_trace run_tool_traced by (fastforce simp: chat_inv_def)

lemma chat_inv_run_calls: "chat_inv env ip st \<Longrightarrow> chat_inv env ip (run_calls env ip tcs st)"
proof (induction tcs arbitrary: st)
  case (Cons tc tcs)
  obtain r st1 where r: "run_tool env ip \<lparr>tl_Name = tc_Name tc, tl_Args = tc_Arguments tc\<rparr> st = (r, st1)"
    by (cases "run_tool env ip \<lparr>tl_Name = tc_Name tc, tl_Args = tc_Arguments tc\<rparr> st")
  then have "chat_inv env ip st1" using chat_inv_run_tool [OF Cons.prems] by (metis snd_conv)
  then show ?case by (simp add: Let_def r Cons.IH chat_inv_frame)
qed simp

lemma chat_inv_ask: "chat_inv env ip st \<Longrightarrow> chat_inv env ip (snd (ask_model env st))"
  by (auto simp: chat_inv_def traced_def ask_model_def Let_def intro: gated_append)

lemma chat_inv_rounds: "chat_inv env ip st \<Longrightarrow> chat_inv env ip (snd (rounds env ip n st))"
proof (induction n arbitrary: st)
  case (Suc n)
  obtain res st1 where r: "ask_model env st = (res, st1)" by (cases "ask_model env st")
  then have "chat_inv env ip st1" using chat_inv_ask [OF Suc.prems] by (metis snd_conv)
  then show ?case
    by (cases res) (simp_all add: r Suc.IH chat_inv_run_calls chat_inv_frame)
qed simp

lemma chat_inv_stream: "chat_inv env ip st \<Longrightarrow> chat_inv env ip (stream_answer env st)"
  by (auto simp: chat_inv_def traced_def stream_answer_def writeProxyError_def Let_def split: option.splits
      intro: gated_append)

lemma chat_inv_chat:
  assumes "broker_wf b"
  shows "chat_inv env ip (chat env ip req h b)"
proof -
  have "chat_inv env ip (start_chat req h b)"
    using assms by (simp add: chat_inv_def traced_def start_chat_def gated_Nil)
  from chat_inv_rounds [OF this, of maxRounds] show ?thesis
    by (auto simp: chat_def split: prod.splits intro!: chat_inv_stream chat_inv_frame)
qed

section \<open>Transcripts\<close>

text \<open>A round: the model's message and one tool message for each of its calls.\<close>

definition turn_ok :: "ollamaMessage list \<Rightarrow> bool" where
  "turn_ok ms \<longleftrightarrow>
     (\<exists>m cs. ms = m # map tool_message cs \<and> om_ToolCalls m \<noteq> [] \<and> length cs = length (om_ToolCalls m))"

definition messages :: "chat_state \<Rightarrow> ollamaMessage list" where
  "messages st = cr_Messages (ch_req st)"

lemma messages_simps [simp]:
  "messages (add_message m st) = messages st @ [m]" "messages (writeProxyError e st) = messages st"
  "messages (send_events st) = messages st" "messages (st\<lparr>ch_events := es\<rparr>) = messages st"
  "messages (snd (run_tool env ip call st)) = messages st"
  "messages (snd (ask_model env st)) = messages st" "messages (stream_answer env st) = messages st"
  by (auto simp: messages_def add_message_def writeProxyError_def send_events_def run_tool_frame ask_model_def
      stream_answer_def Let_def split: option.splits)

lemma run_calls_messages:
  "\<exists>cs. length cs = length tcs \<and> messages (run_calls env ip tcs st) = messages st @ map tool_message cs"
proof (induction tcs arbitrary: st)
  case (Cons tc tcs)
  let ?call = "\<lparr>tl_Name = tc_Name tc, tl_Args = tc_Arguments tc\<rparr>"
  obtain r st1 where r: "run_tool env ip ?call st = (r, st1)" by (cases "run_tool env ip ?call st")
  then have m: "messages st1 = messages st" using messages_simps(5) [of env ip ?call st] by simp
  let ?st2 = "add_message (tool_message (result_content r)) (st1\<lparr>ch_events := ch_events st1 @
      [\<lparr>te_Name = tc_Name tc, te_Args = tc_Arguments tc, te_Result = result_content r\<rparr>]\<rparr>)"
  obtain cs where "length cs = length tcs" "messages (run_calls env ip tcs ?st2) = messages ?st2 @ map tool_message cs"
    using Cons.IH by blast
  then show ?case using r m by (intro exI [of _ "result_content r # cs"]) (simp add: Let_def)
qed simp

lemma asked_simps [simp]:
  "asked (ch_trace (add_message m st)) = asked (ch_trace st)"
  "asked (ch_trace (writeProxyError e st)) = asked (ch_trace st)"
  "asked (ch_trace (send_events st)) = asked (ch_trace st)"
  "asked (ch_trace (snd (ask_model env st))) = Suc (asked (ch_trace st))"
  "asked (ch_trace (stream_answer env st)) = Suc (asked (ch_trace st))"
  by (auto simp: asked_def add_message_def writeProxyError_def send_events_def ask_model_def stream_answer_def
      Let_def split: option.splits)

lemma run_calls_asked: "asked (ch_trace (run_calls env ip tcs st)) = asked (ch_trace st)"
proof (induction tcs arbitrary: st)
  case (Cons tc tcs)
  then show ?case
    using run_tool_asked [of env ip "\<lparr>tl_Name = tc_Name tc, tl_Args = tc_Arguments tc\<rparr>" st]
    by (cases "run_tool env ip \<lparr>tl_Name = tc_Name tc, tl_Args = tc_Arguments tc\<rparr> st") (simp add: Let_def)
qed simp

lemma rounds_transcript:
  "\<exists>turns answer. messages (snd (rounds env ip n st)) = messages st @ concat turns @ answer \<and>
     list_all turn_ok turns \<and> length turns \<le> n \<and> length answer \<le> 1 \<and>
     list_all (\<lambda>m. om_ToolCalls m = []) answer \<and>
     asked (ch_trace (snd (rounds env ip n st))) \<le> asked (ch_trace st) + n"
proof (induction n arbitrary: st)
  case 0
  show ?case by (intro exI [of _ "[]"]) simp
next
  case (Suc n)
  obtain res st1 where ask: "ask_model env st = (res, st1)" by (cases "ask_model env st")
  have m1: "messages st1 = messages st" and a1: "asked (ch_trace st1) = Suc (asked (ch_trace st))"
    using messages_simps(6) [of env st] asked_simps(4) [of env st] by (simp_all add: ask)
  show ?case
  proof (cases res)
    case (Inl e)
    show ?thesis by (intro exI [of _ "[]"]) (simp add: ask Inl m1 a1)
  next
    case (Inr m)
    show ?thesis
    proof (cases "om_ToolCalls m = []")
      case True
      show ?thesis
        by (intro exI [of _ "[]"] exI [of _ "[m]"]) (simp add: ask Inr True m1 a1)
    next
      case False
      let ?st2 = "run_calls env ip (om_ToolCalls m) (add_message m st1)"
      obtain cs where cs: "length cs = length (om_ToolCalls m)"
        "messages ?st2 = (messages st @ [m]) @ map tool_message cs"
        using run_calls_messages [of "om_ToolCalls m" env ip "add_message m st1"] m1 by auto
      have a2: "asked (ch_trace ?st2) = Suc (asked (ch_trace st))" by (simp add: run_calls_asked a1)
      obtain turns answer where IH: "messages (snd (rounds env ip n ?st2)) = messages ?st2 @ concat turns @ answer"
        "list_all turn_ok turns" "length turns \<le> n" "length answer \<le> 1" "list_all (\<lambda>m. om_ToolCalls m = []) answer"
        "asked (ch_trace (snd (rounds env ip n ?st2))) \<le> asked (ch_trace ?st2) + n"
        using Suc.IH [of ?st2] by blast
      have "turn_ok (m # map tool_message cs)" using False cs(1) by (auto simp: turn_ok_def)
      then show ?thesis
        using IH cs False a2
        by (intro exI [of _ "(m # map tool_message cs) # turns"] exI [of _ answer]) (simp add: ask Inr)
    qed
  qed
qed

section \<open>Properties\<close>

text \<open>
  C3: no unsafe tool runs without approval. Whatever the model answers and however prompts end, the
  history of a chat is a sequence of model requests, safe tool runs, refused prompts and granted
  ones: a tool outside the safe list runs only directly after a prompt for exactly that call, to
  which an answer of yes was posted from the client's own address while the chat waited. And
  everything a chat does to the host is what those tool runs do.
\<close>

theorem unsafe_tools_gated:
  assumes "broker_wf b"
  shows "(\<exists>steps. ch_trace (chat env ip req h b) = concat steps \<and> list_all (step_ok env ip) steps) \<and>
         ch_effects (chat env ip req h b) =
           concat (map (effects_of (pe_tools env)) (ch_trace (chat env ip req h b)))"
  using chat_inv_chat [OF assms, of env ip req h] by (simp add: chat_inv_def gated_def traced_def)

definition sample_tools :: tool_host where
  "sample_tools =
     \<lparr>tk_goos = ''linux'', tk_eval = Some, tk_lstat = (\<lambda>_. None), tk_read = (\<lambda>_. None), tk_mkdir = True, tk_open = True,
      tk_write = True, tk_lookpath = (\<lambda>_. None), tk_tempdir = ''/tmp'', tk_PATH = ''/bin'', tk_user = None,
      tk_run = (\<lambda>_ _. ([], None)), tk_key = [], tk_post = (\<lambda>_ _. None), tk_parse = (\<lambda>_. None)\<rparr>"

definition sample_chat_env :: chat_env where
  "sample_chat_env =
     \<lparr>pe_OLLAMA_HOST = [], pe_tools = sample_tools, pe_post = (\<lambda>_ _ _. PostFailed), pe_stream = (\<lambda>_ _. None),
      pe_message = (\<lambda>_. None), pe_request = (\<lambda>_. None), pe_id = (\<lambda>_. ''id''), pe_during = (\<lambda>_. []),
      pe_gave_up = (\<lambda>_. False), pe_flusher = True\<rparr>"

text \<open>A model that calls one tool and then answers, and a client that approves every prompt.\<close>

definition sample_call :: ollamaToolCall where
  "sample_call = \<lparr>tc_Name = ''run_code'', tc_Arguments = None\<rparr>"

definition approving_env :: chat_env where
  "approving_env =
     sample_chat_env\<lparr>pe_post := (\<lambda>n _ _. Body (if n = 0 then ''call'' else ''done'')),
       pe_message := (\<lambda>body. Some \<lparr>om_Role = ''assistant'', om_Content = body, om_Images = [],
                                   om_ToolCalls = (if body = ''call'' then [sample_call] else [])\<rparr>),
       pe_during := (\<lambda>_. [OpRespond ''id'' ''10.100.0.2'' True])\<rparr>"

definition sample_chat :: ollamaChatRequest where
  "sample_chat =
     \<lparr>cr_Model = ''m'', cr_Messages = [], cr_Stream = True, cr_Think = None, cr_Options = None, cr_KeepAlive = [],
      cr_Tools = []\<rparr>"

definition sample_message :: "string \<Rightarrow> ollamaMessage" where
  "sample_message body =
     \<lparr>om_Role = ''assistant'', om_Content = body, om_Images = [],
      om_ToolCalls = (if body = ''call'' then [sample_call] else [])\<rparr>"

lemma sample_asked:
  "ask_model approving_env st =
     (Inr (sample_message (if ch_posts st = 0 then ''call'' else ''done'')), snd (ask_model approving_env st))"
  by (simp add: ask_model_def approving_env_def sample_message_def limit_body_def maxOllamaResponseBytes_def Let_def)

lemma sample_grant:
  "fst (requestInlinePermission approving_env ''10.100.0.2'' sess call st)"
  by (simp add: requestInlinePermission_def approving_env_def sample_chat_env_def RegisterPending_def Respond_def
      Respond_lookup_def Respond_send_def try_send_def Let_def split: prod.splits)

lemma sample_ran:
  "RanUnsafe \<lparr>tl_Name = ''run_code'', tl_Args = None\<rparr> \<in>
     set (ch_trace (run_calls approving_env ''10.100.0.2'' [sample_call] st))"
proof -
  let ?call = "\<lparr>tl_Name = ''run_code'', tl_Args = None\<rparr>"
  obtain st1 where "requestInlinePermission approving_env ''10.100.0.2'' (cr_Model (ch_req st)) ?call st = (True, st1)"
    using sample_grant [of "cr_Model (ch_req st)" ?call st] by (metis (full_types) prod.collapse)
  then show ?thesis
    by (simp add: sample_call_def run_tool_def SafeTools_def add_message_def Let_def split: prod.splits)
qed

text \<open>The trace only grows.\<close>

lemma trace_grows:
  "set (ch_trace st) \<subseteq> set (ch_trace (snd (ask_model env st)))"
  "set (ch_trace st) \<subseteq> set (ch_trace (stream_answer env st))"
  by (auto simp: ask_model_def stream_answer_def writeProxyError_def Let_def split: option.splits)

lemma trace_frame [simp]:
  "ch_trace (add_message m st) = ch_trace st" "ch_trace (send_events st) = ch_trace st"
  "ch_posts (add_message m st) = ch_posts st"
  by (simp_all add: add_message_def send_events_def)

lemma posts_frame: "ch_posts (run_calls env ip tcs st) = ch_posts st"
  by (induction tcs arbitrary: st)
     (auto simp: run_tool_def requestInlinePermission_def Let_def split: prod.splits)

theorem unsafe_tools_gated_witness:
  "RanUnsafe \<lparr>tl_Name = ''run_code'', tl_Args = None\<rparr> \<in>
     set (ch_trace (chat approving_env ''10.100.0.2'' sample_chat (NewHub False) NewPermissionBroker)) \<and>
   (\<exists>steps. ch_trace (chat approving_env ''10.100.0.2'' sample_chat (NewHub False) NewPermissionBroker) = concat steps \<and>
      list_all (step_ok approving_env ''10.100.0.2'') steps)"
proof
  let ?e = approving_env and ?ip = "''10.100.0.2''"
  let ?s0 = "start_chat sample_chat (NewHub False) NewPermissionBroker"
  obtain s1 where a0: "ask_model ?e ?s0 = (Inr (sample_message ''call''), s1)"
    using sample_asked [of ?s0] by (simp add: start_chat_def)
  let ?s2 = "run_calls ?e ?ip [sample_call] (add_message (sample_message ''call'') s1)"
  have "ch_posts ?s2 = ch_posts s1" by (simp only: posts_frame trace_frame)
  moreover have "ch_posts s1 = 1" using a0 by (auto simp: ask_model_def start_chat_def Let_def)
  ultimately obtain s3 where a2: "ask_model ?e ?s2 = (Inr (sample_message ''done''), s3)"
    using sample_asked [of ?s2] by (simp only: one_neq_zero if_False)
  have m: "om_ToolCalls (sample_message ''call'') = [sample_call]" "om_ToolCalls (sample_message ''done'') = []"
    by (simp_all add: sample_message_def)
  have ten: "maxRounds = Suc (Suc 8)" by (simp add: maxRounds_def)
  have "rounds ?e ?ip (Suc (Suc 8)) ?s0 = (True, add_message (sample_message ''done'') s3)"
    by (simp only: rounds.simps a0 a2 m prod.case sum.case if_True if_False refl list.distinct)
  then have c: "chat ?e ?ip sample_chat (NewHub False) NewPermissionBroker =
      stream_answer ?e (send_events (add_message (sample_message ''done'') s3))"
    unfolding chat_def ten by simp
  have "RanUnsafe \<lparr>tl_Name = ''run_code'', tl_Args = None\<rparr> \<in> set (ch_trace ?s2)" by (rule sample_ran)
  then show "RanUnsafe \<lparr>tl_Name = ''run_code'', tl_Args = None\<rparr> \<in>
     set (ch_trace (chat approving_env ''10.100.0.2'' sample_chat (NewHub False) NewPermissionBroker))"
    unfolding c using trace_grows(1) [of ?s2 ?e] a2
      trace_grows(2) [of "send_events (add_message (sample_message ''done'') s3)" ?e]
    by (simp only: trace_frame snd_conv) blast
qed (use unsafe_tools_gated [OF broker_wf_New] in blast)

text \<open>
  C37: chats end and keep a proper transcript. A chat asks the model at most eleven times; what it adds
  to the client's messages is at most ten rounds, each the model's message followed by exactly one
  tool message per call in it, and then at most one message without calls.
\<close>

theorem chat_transcript:
  "\<exists>turns answer. cr_Messages (ch_req (chat env ip req h b)) = cr_Messages req @ concat turns @ answer \<and>
     list_all turn_ok turns \<and> length turns \<le> 10 \<and> length answer \<le> 1 \<and>
     list_all (\<lambda>m. om_ToolCalls m = []) answer \<and>
     asked (ch_trace (chat env ip req h b)) \<le> 11"
proof -
  let ?st = "start_chat req h b"
  obtain ok st where r: "rounds env ip maxRounds ?st = (ok, st)" by (cases "rounds env ip maxRounds ?st")
  obtain turns answer where t: "messages st = messages ?st @ concat turns @ answer"
    "list_all turn_ok turns" "length turns \<le> maxRounds" "length answer \<le> 1" "list_all (\<lambda>m. om_ToolCalls m = []) answer"
    "asked (ch_trace st) \<le> asked (ch_trace ?st) + maxRounds"
    using rounds_transcript [of env ip maxRounds ?st] r by auto
  have s: "messages ?st = cr_Messages req" "asked (ch_trace ?st) = 0"
    by (simp_all add: start_chat_def messages_def asked_def)
  have "messages (chat env ip req h b) = messages st" "asked (ch_trace (chat env ip req h b)) \<le> Suc (asked (ch_trace st))"
    by (simp_all add: chat_def r)
  then show ?thesis using t s by (intro exI [of _ turns] exI [of _ answer]) (simp add: messages_def maxRounds_def)
qed

text \<open>
  The answer the loop ends with is not what the client gets. When the first reply calls no tool,
  nothing of it is written to the client: it is appended to the conversation, and the client gets
  the stream of one more request, which ends with the model's own answer.
\<close>

theorem answer_not_forwarded:
  assumes "ask_model env (start_chat req h b) = (Inr m, st1)" "om_ToolCalls m = []"
    and "pe_stream env (ollamaHost env @ ''/api/chat'') ((ch_req (add_message m st1))\<lparr>cr_Stream := True, cr_Tools := []\<rparr>) =
         Some (Some reads)"
  shows "ch_out (chat env ip req h b) = map Chunk (filter (\<lambda>x. x \<noteq> []) reads) \<and>
         cr_Messages (ch_req (chat env ip req h b)) = cr_Messages req @ [m]"
proof -
  have r: "rounds env ip maxRounds (start_chat req h b) = (True, add_message m st1)"
    using assms(1,2) by (simp add: maxRounds_def numeral_eq_Suc)
  have s: "ch_out st1 = []" "ch_events st1 = []" "cr_Messages (ch_req st1) = cr_Messages req"
    using assms(1) by (auto simp: ask_model_def start_chat_def Let_def)
  show ?thesis
    using assms(3) s by (simp add: chat_def r send_events_def add_message_def stream_answer_def Let_def)
qed

text \<open>The session named in the alert of a prompt is the model's name.\<close>

theorem alert_names_model:
  assumes "NotifyPermission (cr_Model (ch_req st)) (tl_Name call) (pe_id env (ch_prompts st)) (ch_hub st) = (Some al, h')"
    and "tl_Name call \<notin> set SafeTools"
  shows "ch_alerts (snd (run_tool env ip call st)) = ch_alerts st @ [al] \<and> SessionID al = cr_Model (ch_req st)"
  using assms
  by (auto simp: run_tool_def requestInlinePermission_def NotifyPermission_def permission_alert_def Let_def
      split: prod.splits if_splits)

end
