(* ===== verification/Sysinfo.thy ===== *)
theory Sysinfo
  imports Go_Strings Go_Path Interfaces
begin

text \<open>
  \<^verbatim>\<open>internal/sysinfo/sysinfo.go\<close>: what the relay finds out about its host. The environment, the
  user database, the file system and the outputs of commands are parameters.
\<close>

record si_host =
  si_goos :: string
  si_goarch :: string
  si_hostname :: string
  si_getenv :: "string \<Rightarrow> string"
  si_current :: "string option"
  si_lookup :: "string \<Rightarrow> string option"
  si_output :: "string list \<Rightarrow> string option"
  si_lookpath :: "string \<Rightarrow> string option"
  si_exists :: "string \<Rightarrow> bool"
  si_isdir :: "string \<Rightarrow> bool"

record Info =
  in_OS :: string
  in_Arch :: string
  in_Hostname :: string
  in_User :: string
  in_Home :: string
  in_Shell :: string
  in_ShellCommand :: "string list"
  in_TmuxPath :: string
  in_DefaultWorkDir :: string
  in_ProjectsDir :: string
  in_SharedDir :: string

definition detectSharedDir :: "string \<Rightarrow> string" where
  "detectSharedDir home = JoinPath home ''continuum-shared''"

text \<open>The user on the console of a Mac, if it is known and not root.\<close>

definition console_user :: "si_host \<Rightarrow> string option" where
  "console_user h =
     (if si_goos h \<noteq> ''darwin'' then None
      else case si_output h [''stat'', ''-f'', ''%Su'', ''/dev/console''] of
        None \<Rightarrow> None
      | Some out \<Rightarrow> (let u = TrimSpace out in if u \<noteq> [] \<and> u \<noteq> ''root'' then Some u else None))"

definition detectUser :: "si_host \<Rightarrow> string" where
  "detectUser h =
     (if si_getenv h ''SUDO_USER'' \<noteq> [] then si_getenv h ''SUDO_USER''
      else if si_getenv h ''CONTINUUM_USER'' \<noteq> [] then si_getenv h ''CONTINUUM_USER''
      else case si_current h of
        None \<Rightarrow> ''root''
      | Some u \<Rightarrow>
          if u = ''root'' then
            (case console_user h of
               Some c \<Rightarrow> c
             | None \<Rightarrow> if si_lookup h ''ubuntu'' \<noteq> None then ''ubuntu'' else u)
          else u)"

definition detectHome :: "si_host \<Rightarrow> string \<Rightarrow> string" where
  "detectHome h username =
     (case si_lookup h username of
        Some (c # d) \<Rightarrow> c # d
      | _ \<Rightarrow>
          if si_getenv h ''HOME'' \<noteq> [] then si_getenv h ''HOME''
          else if si_goos h = ''darwin'' then ''/Users/'' @ username else ''/home/'' @ username)"

definition detectShellCommand :: "si_host \<Rightarrow> string \<Rightarrow> string list" where
  "detectShellCommand h shell = (if si_goos h = ''darwin'' then [''/bin/zsh'', ''-l''] else [shell, ''-l''])"

text \<open>The shell the user database names, read with \<^verbatim>\<open>dscl\<close> or \<^verbatim>\<open>getent\<close>.\<close>

definition user_shell :: "si_host \<Rightarrow> string \<Rightarrow> string option" where
  "user_shell h username =
     (if si_goos h = ''darwin'' then
        (case si_output h [''dscl'', ''.'', ''-read'', ''/Users/'' @ username, ''UserShell''] of
           None \<Rightarrow> None
         | Some out \<Rightarrow> (let parts = Fields out in if 2 \<le> length parts then Some (last parts) else None))
      else if si_goos h = ''linux'' then
        (case si_output h [''getent'', ''passwd'', username] of
           None \<Rightarrow> None
         | Some out \<Rightarrow>
             (let fields = Split (TrimSpace out) (CHR '':'')
              in if 7 \<le> length fields \<and> fields ! 6 \<noteq> [] then Some (fields ! 6) else None))
      else None)"

definition detectShell :: "si_host \<Rightarrow> string \<Rightarrow> string" where
  "detectShell h username =
     (case (case si_lookup h username of Some (c # d) \<Rightarrow> user_shell h username | _ \<Rightarrow> None) of
        Some s \<Rightarrow> s
      | None \<Rightarrow>
          if si_getenv h ''SHELL'' \<noteq> [] then si_getenv h ''SHELL''
          else if si_goos h = ''darwin'' then ''/bin/zsh'' else ''/bin/bash'')"

definition detectTmux :: "si_host \<Rightarrow> string" where
  "detectTmux h =
     (case si_lookpath h ''tmux'' of
        Some p \<Rightarrow> p
      | None \<Rightarrow>
          (case find (si_exists h)
                  [''/opt/homebrew/bin/tmux'', ''/usr/local/bin/tmux'', ''/usr/bin/tmux'', ''/bin/tmux''] of
             Some c \<Rightarrow> c
           | None \<Rightarrow> ''tmux''))"

definition detectWorkDir :: "si_host \<Rightarrow> string \<Rightarrow> string" where
  "detectWorkDir h home =
     (if si_isdir h (JoinPath home ''projects'') then JoinPath home ''projects''
      else case (if si_goos h = ''darwin''
                 then find (si_isdir h) (map (JoinPath home) [''Projects'', ''Developer'', ''Code'']) else None) of
        Some p \<Rightarrow> p
      | None \<Rightarrow> home)"

definition project_names :: "string list" where
  "project_names = [''projects'', ''Projects'', ''Developer'', ''Code'', ''repos'', ''src'']"

definition detectProjectsDir :: "si_host \<Rightarrow> string \<Rightarrow> string" where
  "detectProjectsDir h home =
     (case find (si_isdir h) (map (JoinPath home) project_names) of
        Some p \<Rightarrow> p
      | None \<Rightarrow> JoinPath home ''projects'')"

definition Detect :: "si_host \<Rightarrow> Info" where
  "Detect h =
     (let user = detectUser h; home = detectHome h user; shell = detectShell h user
      in \<lparr>in_OS = si_goos h, in_Arch = si_goarch h, in_Hostname = si_hostname h, in_User = user, in_Home = home,
          in_Shell = shell, in_ShellCommand = detectShellCommand h shell, in_TmuxPath = detectTmux h,
          in_DefaultWorkDir = detectWorkDir h home, in_ProjectsDir = detectProjectsDir h home,
          in_SharedDir = detectSharedDir home\<rparr>)"

section \<open>The shared directory is no project\<close>

lemma find_map_set: "find P xs = Some x \<Longrightarrow> x \<in> set xs"
  by (auto simp: find_Some_iff)

lemma detectProjectsDir_name: "\<exists>n \<in> set project_names. detectProjectsDir h home = JoinPath home n"
  unfolding detectProjectsDir_def
  by (auto split: option.splits simp: project_names_def dest!: find_map_set)

lemma project_names_plain: "n \<in> set project_names \<Longrightarrow> plain n \<and> n \<noteq> ''continuum-shared''"
  by (auto simp: project_names_def plain_def)

text \<open>Two directories side by side do not contain each other.\<close>

lemma siblings_apart:
  assumes "list_all plain cs" "plain a" "plain b" "a \<noteq> b"
  shows "abs_path (cs @ [a]) \<noteq> abs_path (cs @ [b])" "\<not> HasPrefix (abs_path (cs @ [a])) (abs_path (cs @ [b]) @ [sep])"
proof -
  have inj: "abs_path xs = abs_path ys \<Longrightarrow> list_all plain xs \<Longrightarrow> list_all plain ys \<Longrightarrow> xs = ys" for xs ys
    by (rule abs_path_inj)
  show "abs_path (cs @ [a]) \<noteq> abs_path (cs @ [b])" using inj [of "cs @ [a]" "cs @ [b]"] assms by auto
  show "\<not> HasPrefix (abs_path (cs @ [a])) (abs_path (cs @ [b]) @ [sep])"
  proof
    assume "HasPrefix (abs_path (cs @ [a])) (abs_path (cs @ [b]) @ [sep])"
    then obtain r where r: "abs_path (cs @ [a]) = (abs_path (cs @ [b]) @ [sep]) @ r" by (auto simp: prefix_def)
    have "Split (abs_path (cs @ [a])) sep = Split (abs_path (cs @ [b])) sep @ Split r sep"
      using Split_append_sep [of "abs_path (cs @ [b])" sep r] by (simp add: r)
    then have "[] # cs @ [a] = ([] # cs @ [b]) @ Split r sep"
      using assms(1-3) by (simp add: Split_abs_path)
    then show False using assms(4) by simp
  qed
qed

text \<open>
  Uploads never land in a repository. For an absolute home the shared directory lies directly in it,
  and it is neither the projects directory nor below it.
\<close>

theorem shared_dir_outside_projects:
  assumes "IsAbs (in_Home (Detect h))"
  shows "DirPath (in_SharedDir (Detect h)) = Clean (in_Home (Detect h)) \<and>
         in_SharedDir (Detect h) \<noteq> in_ProjectsDir (Detect h) \<and>
         \<not> HasPrefix (in_SharedDir (Detect h)) (in_ProjectsDir (Detect h) @ [sep])"
proof -
  let ?home = "in_Home (Detect h)"
  have s: "in_SharedDir (Detect h) = JoinPath ?home ''continuum-shared''"
    and p: "in_ProjectsDir (Detect h) = detectProjectsDir h ?home"
    by (simp_all add: Detect_def Let_def detectSharedDir_def)
  obtain n where n: "n \<in> set project_names" "detectProjectsDir h ?home = JoinPath ?home n"
    using detectProjectsDir_name by blast
  have pl: "plain ''continuum-shared''" "plain n" "''continuum-shared'' \<noteq> n"
    using project_names_plain [OF n(1)] by (auto simp: plain_def)
  obtain cs where c: "list_all plain cs" "Clean ?home = abs_path cs"
    "JoinPath ?home ''continuum-shared'' = abs_path (cs @ [''continuum-shared''])"
    using assms pl(1) by (rule JoinPath_plain)
  obtain ds where d: "list_all plain ds" "Clean ?home = abs_path ds" "JoinPath ?home n = abs_path (ds @ [n])"
    using assms pl(2) by (rule JoinPath_plain)
  have "cs = ds" using c d by (intro abs_path_inj) auto
  then show ?thesis
    using siblings_apart [OF c(1) pl] s p n(2) c d pl by (auto simp: DirPath_abs)
qed

definition sample_machine :: si_host where
  "sample_machine =
     \<lparr>si_goos = ''linux'', si_goarch = ''amd64'', si_hostname = ''vps'', si_getenv = (\<lambda>_. []), si_current = Some ''u'',
      si_lookup = [''u'' \<mapsto> ''/home/u''], si_output = (\<lambda>_. None), si_lookpath = (\<lambda>_. None), si_exists = (\<lambda>_. False),
      si_isdir = (\<lambda>_. False)\<rparr>"

theorem shared_dir_outside_projects_witness:
  "in_SharedDir (Detect sample_machine) \<noteq> in_ProjectsDir (Detect sample_machine) \<and>
   DirPath (in_SharedDir (Detect sample_machine)) = Clean ''/home/u''"
proof -
  have home: "in_Home (Detect sample_machine) = ''/home/u''"
    by (simp add: Detect_def sample_machine_def detectUser_def detectHome_def Let_def)
  then have "IsAbs (in_Home (Detect sample_machine))" by (simp add: IsAbs_def)
  from shared_dir_outside_projects [OF this] show ?thesis by (simp add: home)
qed

end
