(* ===== verification/Main_CLI.thy ===== *)
theory Main_CLI
  imports Sysinfo Go_Net Go_Url Go_Json Peers Session_Hub
begin

text \<open>
  \<^verbatim>\<open>main.go\<close>: the command line, the settings of a server start, and the commands that query a
  running relay. The environment, the token file, HTTP and the start of the tunnel are parameters;
  a command is its exit code with what it prints.
\<close>

section \<open>Commands\<close>

datatype command = cmdServe | cmdPeers | cmdStatus | cmdSessions | cmdHelp | cmdUnknown

definition resolveCommand :: "string list \<Rightarrow> command" where
  "resolveCommand args =
     (if length args < 2 then cmdServe
      else
        (let a = args ! 1 in
         if a = ''serve'' then cmdServe
         else if a = ''peers'' then cmdPeers
         else if a = ''status'' then cmdStatus
         else if a = ''sessions'' then cmdSessions
         else if a = ''help'' \<or> a = ''-h'' \<or> a = ''--help'' then cmdHelp
         else cmdUnknown))"

section \<open>The environment\<close>

text \<open>
  \<open>me_http\<close> answers a request (method, URL, token, body): \<open>Inl\<close> when there is no answer, else the
  status and the body or the error of reading it; \<open>me_get_ip\<close> the same for the public address.
  \<open>me_sessions\<close>, \<open>me_peers\<close>, \<open>me_added\<close> decode JSON text; \<open>me_marshal\<close> writes it and \<open>me_pretty\<close>
  indents it; \<open>me_quote\<close> is the verb \<^verbatim>\<open>%q\<close>.
\<close>

datatype wg_start = WgBadConfig | WgInitFailed | WgStartFailed | WgTun | WgNetstack

record main_env =
  me_getenv :: "string \<Rightarrow> string"
  me_env_file :: "string option"
  me_host :: si_host
  me_wg :: "string \<Rightarrow> wg_start"
  me_listen :: "string \<Rightarrow> bool"
  me_apns :: "string \<Rightarrow> string \<Rightarrow> string \<Rightarrow> string \<Rightarrow> bool"
  me_http :: "string \<Rightarrow> string \<Rightarrow> string \<Rightarrow> string option \<Rightarrow> string + (nat \<times> string result)"
  me_get_ip :: "(nat \<times> string option) option"
  me_url_error :: string
  me_sessions :: "string \<Rightarrow> SessionRecord list result"
  me_peers :: "string \<Rightarrow> Peer list result"
  me_added :: "string \<Rightarrow> (string \<times> string \<times> string) result"
  me_pretty :: "string \<Rightarrow> string"
  me_quote :: "string \<Rightarrow> string"
  me_marshal :: "json \<Rightarrow> string"

definition token_key :: string where
  "token_key = ''CONTINUUM_TOKEN=''"

text \<open>The token of a token file: its first line with the key.\<close>

definition file_token :: "string \<Rightarrow> string" where
  "file_token content =
     (case find (\<lambda>l. HasPrefix l token_key) (Split content (CHR 0x0A)) of
        None \<Rightarrow> []
      | Some l \<Rightarrow> TrimPrefix l token_key)"

text \<open>\<open>None\<close>: the error is printed and the program exits.\<close>

definition loadToken :: "main_env \<Rightarrow> string option" where
  "loadToken env =
     (let token = (if me_getenv env ''CONTINUUM_TOKEN'' \<noteq> [] then me_getenv env ''CONTINUUM_TOKEN''
                   else case me_env_file env of None \<Rightarrow> [] | Some content \<Rightarrow> file_token content)
      in if token = [] then None else Some token)"

definition env_or :: "main_env \<Rightarrow> string \<Rightarrow> string \<Rightarrow> string" where
  "env_or env k d = (if me_getenv env k = [] then d else me_getenv env k)"

definition relayAddr :: "main_env \<Rightarrow> string" where
  "relayAddr env = env_or env ''CONTINUUM_RELAY_ADDR'' ''10.100.0.1:7682''"

definition discoverPublicIP :: "main_env \<Rightarrow> string" where
  "discoverPublicIP env =
     (case me_get_ip env of
        None \<Rightarrow> ''0.0.0.0''
      | Some (status, body) \<Rightarrow>
          if status \<noteq> 200 then ''0.0.0.0''
          else case body of
            None \<Rightarrow> ''0.0.0.0''
          | Some data \<Rightarrow> (let ip = TrimSpace data in if ParseIP_ok ip then ip else ''0.0.0.0''))"

section \<open>Starting the server\<close>

definition term_command :: "main_env \<Rightarrow> string list" where
  "term_command env =
     (let c = Fields (me_getenv env ''CONTINUUM_TERMINAL_CMD'')
      in if c = [] then in_ShellCommand (Detect (me_host env)) else c)"

definition term_addr :: "main_env \<Rightarrow> string" where
  "term_addr env =
     (if me_getenv env ''CONTINUUM_TERMINAL_ADDR'' \<noteq> [] then me_getenv env ''CONTINUUM_TERMINAL_ADDR''
      else
        (let host = (case SplitHostPort (relayAddr env) of None \<Rightarrow> ''10.100.0.1'' | Some (h, p) \<Rightarrow> h)
         in JoinHostPort host ''7681''))"

text \<open>The port a netstack listener opens: only the port of the address counts.\<close>

definition listen_port :: "string \<Rightarrow> int option" where
  "listen_port addr =
     (case SplitHostPort addr of
        None \<Rightarrow> None
      | Some (h, p) \<Rightarrow> map_option (\<lambda>n. n mod 65536) (Atoi p))"

definition buildAPNSClient :: "main_env \<Rightarrow> bool" where
  "buildAPNSClient env =
     (let g = me_getenv env in
      g ''APNS_KEY_PATH'' \<noteq> [] \<and> g ''APNS_KEY_ID'' \<noteq> [] \<and> g ''APNS_TEAM_ID'' \<noteq> [] \<and> g ''APNS_BUNDLE_ID'' \<noteq> [] \<and>
      me_apns env (g ''APNS_KEY_PATH'') (g ''APNS_KEY_ID'') (g ''APNS_TEAM_ID'') (g ''APNS_BUNDLE_ID''))"

record settings =
  st_token :: string
  st_relay_addr :: string
  st_log :: string
  st_term_addr :: string
  st_term_cmd :: "string list"
  st_term_user :: string
  st_shared_dir :: string
  st_netstack :: bool
  st_apns :: bool
  st_peers :: "Manager option"

record outcome =
  oc_code :: nat
  oc_out :: "string list"
  oc_err :: "string list"

datatype run = Exit outcome | Serve settings

definition exit_with :: "nat \<Rightarrow> string list \<Rightarrow> string list \<Rightarrow> run" where
  "exit_with c out err = Exit \<lparr>oc_code = c, oc_out = out, oc_err = err\<rparr>"

definition wg_disabled :: "main_env \<Rightarrow> bool" where
  "wg_disabled env \<longleftrightarrow> me_getenv env ''CONTINUUM_WG_DISABLED'' = ''1''"

definition wg_conf_path :: "main_env \<Rightarrow> string" where
  "wg_conf_path env = env_or env ''CONTINUUM_WG_CONFIG'' ''/etc/wireguard/wg0.conf''"

text \<open>The tunnel: whether it runs and whether it is a netstack, or the message the program exits with.\<close>

definition start_tunnel :: "main_env \<Rightarrow> string + (bool \<times> bool)" where
  "start_tunnel env =
     (if wg_disabled env then Inr (False, False)
      else case me_wg env (wg_conf_path env) of
        WgBadConfig \<Rightarrow> Inr (False, False)
      | WgInitFailed \<Rightarrow> Inl ''WireGuard init failed''
      | WgStartFailed \<Rightarrow> Inl ''WireGuard start failed (needs root/CAP_NET_ADMIN)''
      | WgTun \<Rightarrow> Inr (True, False)
      | WgNetstack \<Rightarrow> Inr (True, True))"

definition listen_ok :: "main_env \<Rightarrow> bool \<Rightarrow> string \<Rightarrow> bool" where
  "listen_ok env netstack addr \<longleftrightarrow> \<not> netstack \<or> (listen_port addr \<noteq> None \<and> me_listen env addr)"

definition public_ip :: "main_env \<Rightarrow> string" where
  "public_ip env =
     (if me_getenv env ''CONTINUUM_PUBLIC_IP'' = [] then discoverPublicIP env else me_getenv env ''CONTINUUM_PUBLIC_IP'')"

definition serve :: "main_env \<Rightarrow> run" where
  "serve env =
     (let token = me_getenv env ''CONTINUUM_TOKEN'' in
      if token = [] then exit_with 1 [] [''CONTINUUM_TOKEN environment variable is required'']
      else case start_tunnel env of
        Inl e \<Rightarrow> exit_with 1 [] [e]
      | Inr (tunnel, netstack) \<Rightarrow>
          if \<not> listen_ok env netstack (term_addr env) then exit_with 1 [] [''netstack terminal listener failed'']
          else if \<not> listen_ok env netstack (relayAddr env) then exit_with 1 [] [''netstack relay listener failed'']
          else Serve
            \<lparr>st_token = token, st_relay_addr = relayAddr env,
             st_log = env_or env ''CONTINUUM_RELAY_LOG'' ''/var/log/continuum/relay.log'',
             st_term_addr = term_addr env, st_term_cmd = term_command env,
             st_term_user = env_or env ''CONTINUUM_USER'' (in_User (Detect (me_host env))),
             st_shared_dir = in_SharedDir (Detect (me_host env)), st_netstack = netstack,
             st_apns = buildAPNSClient env,
             st_peers = (if wg_disabled env then None
                         else Some (NewManager (wg_conf_path env) (public_ip env) token tunnel))\<rparr>)"

section \<open>Commands that query a running relay\<close>

definition apiRequest :: "main_env \<Rightarrow> string \<Rightarrow> string \<Rightarrow> string \<Rightarrow> string option \<Rightarrow> string result" where
  "apiRequest env meth url token body =
     (if ParseUrl url = None then Inl (me_url_error env)
      else case me_http env meth url token body of
        Inl e \<Rightarrow> Inl (''request failed (is the relay running?): '' @ e)
      | Inr (status, Inl e) \<Rightarrow> Inl (''reading response body: '' @ e)
      | Inr (status, Inr data) \<Rightarrow>
          if 400 \<le> status then Inl (''server returned '' @ Itoa (int status) @ '': '' @ TrimSpace data) else Inr data)"

definition usage :: "string list" where
  "usage =
     [''Usage: continuum-relay [command]'', [], ''Commands:'',
      ''  serve              Run the relay server (default when no command is given)'',
      ''  status             Show relay health and session count'',
      ''  sessions           List sessions known to the running relay'',
      ''  peers <subcommand> Manage WireGuard peers (list, add, remove)'',
      ''  help               Show this help'', [],
      ''status, sessions, and peers query the already-running relay over HTTP.'',
      ''Only `serve` (or no command) starts the server '' @ [CHR 0xE2, CHR 0x80, CHR 0x94] @ '' use systemctl to manage it.'']"

definition no_token :: run where
  "no_token = exit_with 1 [] [''error: CONTINUUM_TOKEN not set and not found in /etc/continuum/env'']"

definition runStatusCLI :: "main_env \<Rightarrow> run" where
  "runStatusCLI env =
     (let addr = relayAddr env in
      case loadToken env of
        None \<Rightarrow> no_token
      | Some token \<Rightarrow>
          (case apiRequest env ''GET'' (''http://'' @ addr @ ''/health'') token None of
             Inl e \<Rightarrow> exit_with 1 [''relay: DOWN ('' @ e @ '')''] []
           | Inr _ \<Rightarrow>
               (case apiRequest env ''GET'' (''http://'' @ addr @ ''/api/sessions'') token None of
                  Inl e \<Rightarrow> exit_with 1 [''relay: UP at '' @ addr @ '', but session query failed: '' @ e] []
                | Inr resp \<Rightarrow>
                    (case me_sessions env resp of
                       Inl e \<Rightarrow> exit_with 1 [''relay: UP at '' @ addr @ '' (could not parse session list: '' @ e @ '')''] []
                     | Inr sessions \<Rightarrow>
                         exit_with 0 [''relay: UP at '' @ addr @ [CHR 0x20, CHR 0xE2, CHR 0x80, CHR 0x94, CHR 0x20] @
                                      Itoa (int (length sessions)) @ '' session(s)''] []))))"

text \<open>The verb \<^verbatim>\<open>%-ns\<close>: padded on the right to \<open>n\<close> characters (not bytes).\<close>

definition runes :: "string \<Rightarrow> nat" where
  "runes s = length (filter (\<lambda>c. \<not> (128 \<le> byte c \<and> byte c < 192)) s)"

definition pad :: "nat \<Rightarrow> string \<Rightarrow> string" where
  "pad n s = s @ replicate (n - runes s) (CHR 0x20)"

definition session_row :: "string \<Rightarrow> string \<Rightarrow> string \<Rightarrow> string \<Rightarrow> string \<Rightarrow> string" where
  "session_row a b c d e = Join [pad 24 a, pad 12 b, pad 10 c, pad 8 d, e] '' ''"

definition runSessionsCLI :: "main_env \<Rightarrow> run" where
  "runSessionsCLI env =
     (case loadToken env of
        None \<Rightarrow> no_token
      | Some token \<Rightarrow>
          (case apiRequest env ''GET'' (''http://'' @ relayAddr env @ ''/api/sessions'') token None of
             Inl e \<Rightarrow> exit_with 1 [] [''error: '' @ e]
           | Inr resp \<Rightarrow>
               (case me_sessions env resp of
                  Inl e \<Rightarrow> exit_with 1 [] [''error parsing response: '' @ e]
                | Inr [] \<Rightarrow> exit_with 0 [''No sessions.''] []
                | Inr ss \<Rightarrow>
                    exit_with 0 (session_row ''NAME'' ''TYPE'' ''STATUS'' ''SOURCE'' ''PROJECT'' #
                      map (\<lambda>s. session_row (sr_Name s) (sr_Type s) (sr_Status s) (sr_Source s) (sr_Project s)) ss) [])))"

definition peers_usage :: "string list" where
  "peers_usage =
     [''Usage: continuum-relay peers <command>'', [], ''Commands:'',
      ''  list          Show all configured peers'',
      ''  add [name]    Add a new peer and show QR payload'',
      ''  remove <num>  Remove peer by index'']"

definition peer_row :: "string \<Rightarrow> string \<Rightarrow> string \<Rightarrow> string \<Rightarrow> string" where
  "peer_row a b c d = Join [pad 6 a, pad 16 b, pad 20 c, d] '' ''"

definition short_key :: "string \<Rightarrow> string" where
  "short_key k = (if 20 < length k then take 20 k @ [CHR 0xE2, CHR 0x80, CHR 0xA6] else k)"

definition peers_list :: "main_env \<Rightarrow> string \<Rightarrow> string \<Rightarrow> run" where
  "peers_list env url token =
     (case apiRequest env ''GET'' url token None of
        Inl e \<Rightarrow> exit_with 1 [] [''error: '' @ e]
      | Inr resp \<Rightarrow>
          (case me_peers env resp of
             Inl e \<Rightarrow> exit_with 1 [] [''error parsing response: '' @ e]
           | Inr [] \<Rightarrow> exit_with 0 [''No peers configured.''] []
           | Inr ps \<Rightarrow>
               exit_with 0 (peer_row ''INDEX'' ''IP'' ''NAME'' ''PUBLIC KEY'' #
                 map (\<lambda>p. peer_row (Itoa (int (pr_Index p))) (pr_IP p) (pr_Name p) (short_key (pr_PublicKey p))) ps) []))"

definition peers_add :: "main_env \<Rightarrow> string \<Rightarrow> string \<Rightarrow> string list \<Rightarrow> run" where
  "peers_add env url token args =
     (let name = (if 1 < length args then args ! 1 else ''device'')
      in case apiRequest env ''POST'' url token (Some (me_marshal env (JObj [(''name'', Go_Json.json.JStr name)]))) of
           Inl e \<Rightarrow> exit_with 1 [] [''error: '' @ e]
         | Inr resp \<Rightarrow>
             (case me_added env resp of
                Inl e \<Rightarrow> exit_with 1 [] [''error parsing response: '' @ e]
              | Inr (n, ip, qr) \<Rightarrow>
                  exit_with 0 [''Added peer '' @ [CHR 0x27] @ n @ [CHR 0x27] @ '' (IP: '' @ ip @ '')'', [],
                     ''Continuum QR payload (scan with the iOS app):'', [], me_pretty env qr, [],
                     [CHR 0xE2, CHR 0x9A, CHR 0xA0, CHR 0xEF, CHR 0xB8, CHR 0x8F] @ ''  Contains private key '' @
                     [CHR 0xE2, CHR 0x80, CHR 0x94] @ '' do not share.''] []))"

definition peers_remove :: "main_env \<Rightarrow> string \<Rightarrow> string \<Rightarrow> string list \<Rightarrow> run" where
  "peers_remove env url token args =
     (if length args < 2 then exit_with 1 [] [''usage: continuum-relay peers remove <index>'']
      else case Atoi (args ! 1) of
        None \<Rightarrow> exit_with 1 [] [''error: index must be a positive integer'']
      | Some idx \<Rightarrow>
          if idx < 1 then exit_with 1 [] [''error: index must be a positive integer'']
          else case apiRequest env ''DELETE'' (url @ ''?index='' @ Itoa idx) token None of
            Inl e \<Rightarrow> exit_with 1 [] [''error: '' @ e]
          | Inr _ \<Rightarrow> exit_with 0 [''Removed peer #'' @ Itoa idx @ ''.''] [])"

definition runPeersCLI :: "main_env \<Rightarrow> string list \<Rightarrow> run" where
  "runPeersCLI env args =
     (case loadToken env of
        None \<Rightarrow> no_token
      | Some token \<Rightarrow>
          (let url = ''http://'' @ relayAddr env @ ''/api/peers'';
               cmd = (case args of [] \<Rightarrow> ''help'' | c # _ \<Rightarrow> c)
           in if cmd = ''list'' \<or> cmd = ''ls'' then peers_list env url token
              else if cmd = ''add'' then peers_add env url token args
              else if cmd = ''remove'' \<or> cmd = ''rm'' then peers_remove env url token args
              else if cmd = ''help'' \<or> cmd = ''-h'' \<or> cmd = ''--help'' then exit_with 0 peers_usage []
              else exit_with 2 [] ((''error: unknown peers subcommand '' @ me_quote env cmd) # [] # peers_usage)))"

definition main :: "main_env \<Rightarrow> string list \<Rightarrow> run" where
  "main env args =
     (case resolveCommand args of
        cmdPeers \<Rightarrow> runPeersCLI env (drop 2 args)
      | cmdStatus \<Rightarrow> runStatusCLI env
      | cmdSessions \<Rightarrow> runSessionsCLI env
      | cmdHelp \<Rightarrow> exit_with 0 usage []
      | cmdUnknown \<Rightarrow>
          exit_with 2 [] ((''continuum-relay: unknown command '' @ me_quote env (args ! 1)) # [] # usage)
      | cmdServe \<Rightarrow> serve env)"

section \<open>Properties\<close>

lemma queries_exit:
  "\<exists>o'. runStatusCLI env = Exit o'" "\<exists>o'. runSessionsCLI env = Exit o'" "\<exists>o'. runPeersCLI env args = Exit o'"
proof -
  show "\<exists>o'. runStatusCLI env = Exit o'"
    by (auto simp: runStatusCLI_def Let_def exit_with_def no_token_def split: option.splits sum.splits)
  show "\<exists>o'. runSessionsCLI env = Exit o'"
    by (auto simp: runSessionsCLI_def Let_def exit_with_def no_token_def split: option.splits sum.splits list.splits)
  have "\<exists>o'. peers_list env u t = Exit o'" "\<exists>o'. peers_add env u t args = Exit o'"
    "\<exists>o'. peers_remove env u t args = Exit o'" for u t
    by (auto simp: peers_list_def peers_add_def peers_remove_def Let_def exit_with_def
        split: option.splits sum.splits list.splits)
  then show "\<exists>o'. runPeersCLI env args = Exit o'"
    unfolding runPeersCLI_def Let_def no_token_def by (auto simp: exit_with_def split: option.splits)
qed

lemma main_serve:
  assumes "main env args = Serve s"
  shows "resolveCommand args = cmdServe" "st_token s = me_getenv env ''CONTINUUM_TOKEN''" "st_token s \<noteq> []"
    "st_peers s = (if wg_disabled env then None else
        Some (NewManager (wg_conf_path env) (public_ip env) (st_token s) (\<exists>n. start_tunnel env = Inr (True, n))))"
proof -
  show c: "resolveCommand args = cmdServe"
    using assms queries_exit(1,2) [of env] queries_exit(3) [of env "drop 2 args"]
    by (auto simp: main_def exit_with_def split: command.splits)
  have "serve env = Serve s" using assms c by (simp add: main_def)
  then show "st_token s = me_getenv env ''CONTINUUM_TOKEN''" "st_token s \<noteq> []"
    "st_peers s = (if wg_disabled env then None else
        Some (NewManager (wg_conf_path env) (public_ip env) (st_token s) (\<exists>n. start_tunnel env = Inr (True, n))))"
    by (auto simp: serve_def Let_def exit_with_def split: if_splits sum.splits)
qed

lemma serve_peers_token: "main env args = Serve s \<Longrightarrow> st_peers s = Some mgr \<Longrightarrow> mg_authToken mgr = st_token s"
  using main_serve(4) [of env args s] by (auto simp: NewManager_def split: if_splits)

text \<open>
  C38: only \<^verbatim>\<open>serve\<close> starts a server. If the program starts a server, it was called without a command or
  with \<^verbatim>\<open>serve\<close>; the server's token is the non-empty one of the environment, and it is the one that
  new peers are given. An unknown command exits with code 2.
\<close>

theorem only_serve_serves:
  assumes "main env args = Serve s"
  shows "(length args < 2 \<or> args ! 1 = ''serve'') \<and>
         st_token s = me_getenv env ''CONTINUUM_TOKEN'' \<and> st_token s \<noteq> [] \<and>
         (case st_peers s of None \<Rightarrow> me_getenv env ''CONTINUUM_WG_DISABLED'' = ''1''
                           | Some m \<Rightarrow> mg_authToken m = st_token s)"
  using main_serve [OF assms] by (auto simp: resolveCommand_def Let_def wg_disabled_def NewManager_def split: if_splits)

definition sample_main :: main_env where
  "sample_main =
     \<lparr>me_getenv = (\<lambda>_. [])(''CONTINUUM_TOKEN'' := ''t'', ''CONTINUUM_WG_DISABLED'' := ''1''), me_env_file = None,
      me_host = sample_machine, me_wg = (\<lambda>_. WgTun), me_listen = (\<lambda>_. True), me_apns = (\<lambda>_ _ _ _. False),
      me_http = (\<lambda>_ _ _ _. Inl ''down''), me_get_ip = None, me_url_error = [], me_sessions = (\<lambda>_. Inr []),
      me_peers = (\<lambda>_. Inr []), me_added = (\<lambda>_. Inl []), me_pretty = (\<lambda>s. s), me_quote = (\<lambda>s. s), me_marshal = (\<lambda>_. [])\<rparr>"

theorem only_serve_serves_witness:
  "\<exists>s. main sample_main [''continuum-relay'', ''serve''] = Serve s \<and> st_token s = ''t''"
proof -
  have w: "start_tunnel sample_main = Inr (False, False)"
    by (simp add: start_tunnel_def wg_disabled_def sample_main_def)
  have t: "me_getenv sample_main ''CONTINUUM_TOKEN'' = ''t''" by (simp add: sample_main_def)
  obtain s where s: "main sample_main [''continuum-relay'', ''serve''] = Serve s"
    by (simp add: main_def resolveCommand_def serve_def w t listen_ok_def Let_def)
  from only_serve_serves [OF s] s t show ?thesis by auto
qed

text \<open>
  A public address is always an address: whatever the service answers, what is written into the
  payload of a new peer parses as an address, if need be the placeholder.
\<close>

theorem public_ip_parses: "ParseIP_ok (discoverPublicIP env)"
proof -
  have "ParseIP_ok ''0.0.0.0''" by code_simp
  then show ?thesis by (auto simp: discoverPublicIP_def Let_def split: option.splits)
qed

lemma SplitHostPort_host:
  assumes "SplitHostPort hp = Some (h, p)"
  shows "CHR ''['' \<notin> set h \<and> CHR '']'' \<notin> set h"
proof -
  have "set hp = set a \<union> insert c (set b)" if "rev hp = a @ c # b" for a b c
    using arg_cong [OF that, of set] by simp
  then show ?thesis
    using assms by (fastforce simp: SplitHostPort_def split_last_def Cut_Some_iff split: option.splits if_splits)
qed

text \<open>
  The terminal listens where the relay does. Without an address of its own the terminal server gets
  the host of the relay's address, of either family, and port 7681.
\<close>

theorem terminal_beside_relay:
  assumes "me_getenv env ''CONTINUUM_TERMINAL_ADDR'' = []" "SplitHostPort (relayAddr env) = Some (h, p)"
  shows "SplitHostPort (term_addr env) = Some (h, ''7681'')"
  using SplitHostPort_JoinHostPort [of "''7681''" h] SplitHostPort_host [OF assms(2)] assms
  by (simp add: term_addr_def)

theorem terminal_beside_relay_witness:
  "SplitHostPort (term_addr sample_main) = Some (''10.100.0.1'', ''7681'')"
proof -
  have r: "relayAddr sample_main = ''10.100.0.1:7682''"
    by (simp add: relayAddr_def env_or_def sample_main_def)
  have s: "SplitHostPort (relayAddr sample_main) = Some (''10.100.0.1'', ''7682'')" unfolding r by code_simp
  show ?thesis by (rule terminal_beside_relay [OF _ s]) (simp add: sample_main_def)
qed

end
