(* ===== verification/Go_Mux.thy ===== *)
theory Go_Mux
  imports Go_Path Go_Url
begin

text \<open>
  Go's \<^verbatim>\<open>http.ServeMux\<close> for patterns without method, host and wildcards: a pattern is a path that
  names one resource, or everything below it when it ends in a slash. A request is matched by the
  segments of its escaped path, after the path was brought into canonical form; a path that is
  not canonical is answered with a redirect.
\<close>

section \<open>Canonical paths\<close>

definition cleanPath :: "string \<Rightarrow> string" where
  "cleanPath p =
     (if p = [] then [sep]
      else
        (let p = (if hd p \<noteq> sep then sep # p else p); np = Clean p
         in if last p = sep \<and> np \<noteq> [sep] then np @ [sep] else np))"

section \<open>Patterns and segments\<close>

text \<open>The literal segments of a pattern, and whether it ends in a slash.\<close>

definition parse_pattern :: "string \<Rightarrow> string list \<times> bool" where
  "parse_pattern p =
     (let ss = Split (tl p) sep in if last ss = [] then (butlast ss, True) else (ss, False))"

definition pathUnescape :: "string \<Rightarrow> string" where
  "pathUnescape s = (case unescape EncodePath s of None \<Rightarrow> s | Some u \<Rightarrow> u)"

text \<open>The segments of a path; the slash it may end in is a segment of its own.\<close>

definition path_segs :: "string \<Rightarrow> string list" where
  "path_segs path =
     (if path = [] then []
      else
        (let ss = Split (tl path) sep
         in map pathUnescape (butlast ss) @ [if last ss = [] then [sep] else pathUnescape (last ss)]))"

definition matches_pattern :: "string \<Rightarrow> string \<Rightarrow> bool" where
  "matches_pattern pat path =
     (case parse_pattern pat of
        (lits, False) \<Rightarrow> path_segs path = lits
      | (lits, True) \<Rightarrow> length lits < length (path_segs path) \<and> take (length lits) (path_segs path) = lits)"

text \<open>The more specific of two patterns that match the same path: a literal end, or more segments.\<close>

definition more_specific :: "string \<Rightarrow> string \<Rightarrow> bool" where
  "more_specific p q \<longleftrightarrow> \<not> snd (parse_pattern p) \<or> length (fst (parse_pattern q)) < length (fst (parse_pattern p))"

fun mux_match :: "(string \<times> 'h) list \<Rightarrow> string \<Rightarrow> (string \<times> 'h) option" where
  "mux_match [] path = None"
| "mux_match ((pat, h) # tab) path =
     (case mux_match tab path of
        None \<Rightarrow> if matches_pattern pat path then Some (pat, h) else None
      | Some (q, g) \<Rightarrow> if matches_pattern pat path \<and> more_specific pat q then Some (pat, h) else Some (q, g))"

definition exact_match :: "string \<Rightarrow> string \<Rightarrow> bool" where
  "exact_match pat path =
     (case parse_pattern pat of
        (lits, False) \<Rightarrow> True
      | (lits, True) \<Rightarrow> HasSuffix path [sep] \<and> Suc (length lits) = count_list path sep)"

section \<open>Finding the handler\<close>

datatype 'h mux_result = MuxRedirect | MuxNone | MuxFound 'h

definition found_exact :: "(string \<times> 'h) list \<Rightarrow> string \<Rightarrow> bool" where
  "found_exact tab path = (case mux_match tab path of None \<Rightarrow> False | Some (pat, h) \<Rightarrow> exact_match pat path)"

definition find_handler :: "(string \<times> 'h) list \<Rightarrow> string \<Rightarrow> string \<Rightarrow> 'h mux_result" where
  "find_handler tab meth escaped =
     (let path = (if meth = ''CONNECT'' then escaped else cleanPath escaped) in
      if \<not> found_exact tab path \<and> \<not> HasSuffix path [sep] \<and> found_exact tab (path @ [sep]) then MuxRedirect
      else if path \<noteq> escaped then MuxRedirect
      else case mux_match tab path of None \<Rightarrow> MuxNone | Some (pat, h) \<Rightarrow> MuxFound h)"

section \<open>Paths without escapes\<close>

lemma unescape_plain: "CHR ''%'' \<notin> set s \<Longrightarrow> unescape EncodePath s = Some s"
  by (induction s) (auto simp: plain_ok_def)

lemma pathUnescape_plain: "CHR ''%'' \<notin> set s \<Longrightarrow> pathUnescape s = s"
  by (simp add: pathUnescape_def unescape_plain)

lemma path_segs_plain:
  assumes "CHR ''%'' \<notin> set t"
  shows "path_segs (sep # t) = butlast (Split t sep) @ [if last (Split t sep) = [] then [sep] else last (Split t sep)]"
proof -
  have p: "pathUnescape s = s" if "s \<in> set (Split t sep)" for s
    using that assms Split_piece_subset [of s t sep] by (intro pathUnescape_plain) blast
  have "map pathUnescape (butlast (Split t sep)) = butlast (Split t sep)"
    by (rule map_idI) (simp add: p in_set_butlastD)
  moreover have "pathUnescape (last (Split t sep)) = last (Split t sep)" by (simp add: p)
  ultimately show ?thesis by (simp add: path_segs_def Let_def)
qed

lemma Split_inject: "Split a c = Split b c \<longleftrightarrow> a = b"
  by (metis Join_Split)

text \<open>A pattern without a slash at its end matches itself.\<close>

lemma matches_literal:
  assumes "CHR ''%'' \<notin> set t" "last (Split p sep) \<noteq> []"
  shows "matches_pattern (sep # p) (sep # t) \<longleftrightarrow> t = p"
proof -
  obtain xs x where p: "Split p sep = xs @ [x]" by (metis Split_not_Nil rev_exhaust)
  obtain ys y where t: "Split t sep = ys @ [y]" by (metis Split_not_Nil rev_exhaust)
  have "x \<noteq> [sep]" using Split_pieces [of x p sep] p by auto
  then have "path_segs (sep # t) = Split p sep \<longleftrightarrow> Split t sep = Split p sep"
    using assms(2) by (auto simp: path_segs_plain [OF assms(1)] p t)
  then show ?thesis
    using assms(2) by (simp add: matches_pattern_def parse_pattern_def Let_def Split_inject)
qed

text \<open>A pattern with a slash at its end matches what begins with it.\<close>

lemma parse_below: "parse_pattern (sep # p @ [sep]) = (Split p sep, True)"
  using Split_append_sep [of p sep "[]"] by (simp add: parse_pattern_def)

lemma matches_below:
  assumes "CHR ''%'' \<notin> set t"
  shows "matches_pattern (sep # p @ [sep]) (sep # t) \<longleftrightarrow> HasPrefix t (p @ [sep])"
proof
  assume "HasPrefix t (p @ [sep])"
  then obtain r where "t = p @ sep # r" by (auto simp: prefix_def)
  then show "matches_pattern (sep # p @ [sep]) (sep # t)"
    using path_segs_plain [OF assms]
    by (simp add: matches_pattern_def parse_below Split_append_sep butlast_append)
next
  let ?l = "Split p sep" and ?ss = "Split t sep"
  assume "matches_pattern (sep # p @ [sep]) (sep # t)"
  then have m: "length ?l < length (path_segs (sep # t))" "take (length ?l) (path_segs (sep # t)) = ?l"
    by (simp_all only: matches_pattern_def parse_below prod.case bool.case)
  obtain ys y where t: "?ss = ys @ [y]" by (metis Split_not_Nil rev_exhaust)
  have n: "length ?l < length ?ss" "take (length ?l) ?ss = ?l"
    using m by (simp_all add: path_segs_plain [OF assms] t)
  have "?ss = ?l @ drop (length ?l) ?ss" by (metis append_take_drop_id n(2))
  moreover have "drop (length ?l) ?ss \<noteq> []" using n(1) by simp
  ultimately have "Join ?ss [sep] = Join ?l [sep] @ [sep] @ Join (drop (length ?l) ?ss) [sep]"
    by (metis Join_append Split_not_Nil)
  then have "t = p @ sep # Join (drop (length ?l) ?ss) [sep]" by simp
  then show "HasPrefix t (p @ [sep])" by (metis append.assoc append_Cons append_Nil prefixI)
qed

text \<open>The first of several patterns on a path without escapes.\<close>

lemma mux_match_literal:
  assumes "CHR ''%'' \<notin> set t" "last (Split p sep) \<noteq> []"
  shows "map_option snd (mux_match ((sep # p, h) # tab) (sep # t)) =
           (if t = p then Some h else map_option snd (mux_match tab (sep # t)))"
proof -
  have "more_specific (sep # p) q" for q
    using assms(2) by (simp add: more_specific_def parse_pattern_def Let_def)
  then show ?thesis using matches_literal [OF assms] by (auto split: option.splits)
qed

lemma mux_match_below:
  assumes "CHR ''%'' \<notin> set t" "HasPrefix t (p @ [sep]) \<Longrightarrow> mux_match tab (sep # t) = None"
  shows "map_option snd (mux_match ((sep # p @ [sep], h) # tab) (sep # t)) =
           (if HasPrefix t (p @ [sep]) then Some h else map_option snd (mux_match tab (sep # t)))"
  using assms(2) matches_below [OF assms(1), of p] by (auto split: option.splits)

lemma mux_match_mem: "mux_match tab path = Some x \<Longrightarrow> x \<in> set tab"
  by (induction tab path arbitrary: x rule: mux_match.induct) (auto split: option.splits if_splits)

lemma cleanPath_abs: "IsAbs (cleanPath p)"
proof (cases "p = []")
  case False
  let ?p = "if hd p \<noteq> sep then sep # p else p"
  have "IsAbs ?p" using False by (cases p) (simp_all add: IsAbs_def)
  from Clean_abs [OF this] have "IsAbs (Clean ?p)" by simp
  then have "IsAbs (Clean ?p)" "IsAbs (Clean ?p @ [sep])" by (simp_all add: IsAbs_def)
  then show ?thesis by (simp only: cleanPath_def Let_def False if_False split: if_split) simp
qed (simp add: cleanPath_def IsAbs_def)

end
