(* ===== verification/Relay_Server.thy ===== *)
theory Relay_Server
  imports Client_Proofs Chat_Proxy Files Webproxy Peers Sysinfo Go_Mux
begin

text \<open>
  \<^verbatim>\<open>internal/relay/server.go\<close>: the routes of the HTTP server and the handlers that are its own. A
  request is handled by its route's handler on the state of all components; what a library answers
  (the upgrade to a WebSocket, the reading of JSON) is a parameter.
\<close>

section \<open>Requests and state\<close>

text \<open>\<open>rq_EscapedPath\<close> is the path as the client sent it, of which \<open>req_Path\<close> is the decoded form.\<close>

record full_request = http_request +
  rq_EscapedPath :: string
  rq_Header :: headers
  rq_RawQuery :: string
  rq_Host :: string

abbreviation plain_request :: "full_request \<Rightarrow> http_request" where
  "plain_request r \<equiv> http_request.truncate r"

record Server =
  sv_peers :: "Manager option"
  sv_info :: Info

record server_state =
  ss_relay :: Relay
  ss_broker :: PermissionBroker
  ss_conf :: conf_fs
  ss_shared :: fs

text \<open>
  \<open>se_json\<close> reads the first JSON value of a body of which only so many bytes can be read;
  \<open>se_accept\<close> is the status a failed upgrade was answered with; \<open>se_messages\<close> are the messages of a
  socket, with the environment each is handled in.
\<close>

record server_env =
  se_now :: time
  se_later :: time
  se_tmux :: "string option"
  se_random :: string
  se_json :: "nat \<Rightarrow> string \<Rightarrow> json option"
  se_accept :: "nat option"
  se_messages :: "(client_env \<times> json option) list"
  se_chat :: chat_env
  se_peers :: peer_env
  se_files :: file_env
  se_upload :: "(part list \<times> bool) option"
  se_backend :: "proxy_request \<Rightarrow> proxy_response option"

datatype payload =
    PSessions "SessionRecord list"
  | PInfo Info
  | PPeers "Peer list"
  | PAdded AddResult
  | PFiles files_reply
  | PProxy proxy_response
  | PSocket "effects list"
  | PChat chat_state

type_synonym handler = "full_request \<Rightarrow> server_state \<Rightarrow> payload http_response \<times> server_state"

fun wrap :: "('a \<Rightarrow> payload) \<Rightarrow> 'a http_response \<Rightarrow> payload http_response" where
  "wrap f (HttpError n e) = HttpError n e"
| "wrap f (HttpReply n None) = HttpReply n None"
| "wrap f (HttpReply n (Some x)) = HttpReply n (Some (f x))"

definition newClientID :: "server_env \<Rightarrow> string" where
  "newClientID env = hex_encode (se_random env)"

definition hub_of :: "server_state \<Rightarrow> Hub" where "hub_of s = rl_hub (ss_relay s)"

definition auth_of :: "server_state \<Rightarrow> Authenticator" where "auth_of s = rl_auth (ss_relay s)"

definition with_auth :: "Authenticator \<Rightarrow> server_state \<Rightarrow> server_state" where
  "with_auth a s = s\<lparr>ss_relay := (ss_relay s)\<lparr>rl_auth := a\<rparr>\<rparr>"

text \<open>The check every handler begins with: a refused request ends with 401.\<close>

definition authed :: "server_env \<Rightarrow> handler \<Rightarrow> handler" where
  "authed env inner r s =
     (let (ok, a) = ValidateRequest (se_now env) (se_later env) (plain_request r) (auth_of s);
          s1 = with_auth a s
      in if \<not> ok then (Unauthorized, s1) else inner r s1)"

section \<open>Handlers\<close>

definition handleWebSocket :: "server_env \<Rightarrow> handler" where
  "handleWebSocket env =
     authed env (\<lambda>r s.
       case se_accept env of
         Some code \<Rightarrow> (HttpReply code None, s)
       | None \<Rightarrow>
           (let (es, rl) = HandleClient (newClientID env) (se_messages env) (ss_relay s)
            in (HttpReply 101 (Some (PSocket es)), s\<lparr>ss_relay := rl\<rparr>)))"

text \<open>The body of a permission response: its id and verdict, after an error \<open>None\<close>.\<close>

fun decode_permission :: "(string \<times> json) list \<Rightarrow> string \<times> bool \<Rightarrow> (string \<times> bool) option" where
  "decode_permission [] x = Some x"
| "decode_permission ((k, v) # fs) (i, a) =
     (if map lower_char k = ''id'' then
        (case v of json.JStr s \<Rightarrow> decode_permission fs (s, a) | JNull \<Rightarrow> decode_permission fs (i, a) | _ \<Rightarrow> None)
      else if map lower_char k = ''allow'' then
        (case v of JBool b \<Rightarrow> decode_permission fs (i, b) | JNull \<Rightarrow> decode_permission fs (i, a) | _ \<Rightarrow> None)
      else decode_permission fs (i, a))"

fun unmarshal_permission :: "json option \<Rightarrow> (string \<times> bool) option" where
  "unmarshal_permission (Some (JObj fs)) = decode_permission fs ([], False)"
| "unmarshal_permission (Some JNull) = Some ([], False)"
| "unmarshal_permission _ = None"

definition handlePermissionResponse :: "server_env \<Rightarrow> handler" where
  "handlePermissionResponse env =
     authed env (\<lambda>r s.
       if req_Method r \<noteq> ''POST'' then (HttpError 405 ''Method not allowed'', s)
       else
         (case unmarshal_permission (se_json env 4096 (req_Body r)) of
            None \<Rightarrow> (HttpError 400 ''invalid request'', s)
          | Some (rid, allow) \<Rightarrow>
              if rid = [] then (HttpError 400 ''invalid request'', s)
              else
                (let (ok, b) = Respond rid (clientIP (plain_request r)) allow (ss_broker s)
                 in (HttpReply 200 None, s\<lparr>ss_broker := b\<rparr>))))"

definition handleSessions :: "server_env \<Rightarrow> handler" where
  "handleSessions env =
     authed env (\<lambda>r s.
       if req_Method r \<noteq> ''GET'' then (HttpError 405 ''method not allowed'', s)
       else (HttpReply 200 (Some (PSessions (ListSessions (se_tmux env) (hub_of s)))), s))"

definition handleInfo :: "server_env \<Rightarrow> Server \<Rightarrow> handler" where
  "handleInfo env srv =
     authed env (\<lambda>r s.
       if req_Method r \<noteq> ''GET'' then (HttpError 405 ''method not allowed'', s)
       else (HttpReply 200 (Some (PInfo (sv_info srv))), s))"

definition run_files ::
  "(http_request \<Rightarrow> fs \<Rightarrow> files_reply http_response \<times> fs) \<Rightarrow> handler" where
  "run_files h r s =
     (let (resp, fs') = h (plain_request r) (ss_shared s) in (wrap PFiles resp, s\<lparr>ss_shared := fs'\<rparr>))"

definition handleFiles :: "server_env \<Rightarrow> Server \<Rightarrow> handler" where
  "handleFiles env srv r s =
     (if req_Method r = ''GET'' then run_files (HandleList (se_files env) (in_SharedDir (sv_info srv))) r s
      else if req_Method r = ''DELETE'' then run_files (HandleDelete (se_files env) (in_SharedDir (sv_info srv))) r s
      else (HttpError 405 ''method not allowed'', s))"

text \<open>The name for a new peer: \<^verbatim>\<open>device\<close> when the body gives none.\<close>

definition peer_name :: "server_env \<Rightarrow> string \<Rightarrow> string" where
  "peer_name env body =
     (case unmarshal_strings [''name''] (se_json env 4096 body) of
        None \<Rightarrow> ''device''
      | Some m \<Rightarrow> if m ''name'' = [] then ''device'' else m ''name'')"

definition peers_request :: "server_env \<Rightarrow> Manager \<Rightarrow> handler" where
  "peers_request env mgr r s =
     (if req_Method r = ''GET'' then
        (case List mgr (ss_conf s) of
           Inl e \<Rightarrow> (HttpError 500 e, s)
         | Inr ps \<Rightarrow> (HttpReply 200 (Some (PPeers ps)), s))
      else if req_Method r = ''POST'' then
        (case Add (se_peers env) mgr (peer_name env (req_Body r)) (ss_conf s) of
           (Inl e, fs', calls) \<Rightarrow> (HttpError 400 e, s\<lparr>ss_conf := fs'\<rparr>)
         | (Inr res, fs', calls) \<Rightarrow> (HttpReply 201 (Some (PAdded res)), s\<lparr>ss_conf := fs'\<rparr>))
      else if req_Method r = ''DELETE'' then
        (case Atoi (query_get (plain_request r) ''index'') of
           None \<Rightarrow> (HttpError 400 ''invalid index parameter'', s)
         | Some idx \<Rightarrow>
             if idx < 1 then (HttpError 400 ''invalid index parameter'', s)
             else
               (case Remove (se_peers env) mgr idx (ss_conf s) of
                  (Some e, fs', calls) \<Rightarrow>
                    (HttpError (if Contains e ''out of range'' then 404 else 500) e, s\<lparr>ss_conf := fs'\<rparr>)
                | (None, fs', calls) \<Rightarrow> (HttpReply 204 None, s\<lparr>ss_conf := fs'\<rparr>)))
      else (HttpError 405 ''method not allowed'', s))"

definition handlePeers :: "server_env \<Rightarrow> Server \<Rightarrow> handler" where
  "handlePeers env srv =
     authed env (\<lambda>r s.
       case sv_peers srv of
         None \<Rightarrow> (HttpError 503 ''peer management not available'', s)
       | Some mgr \<Rightarrow> peers_request env mgr r s)"

text \<open>The chat endpoint checks its request itself; its hub and broker come back with the chat.\<close>

definition handle_chat :: "server_env \<Rightarrow> handler" where
  "handle_chat env r s =
     (case handleChatProxy (se_chat env) (se_now env) (se_later env) (plain_request r) (auth_of s) (hub_of s) (ss_broker s) of
        (ChatError n e, a) \<Rightarrow> (HttpError n e, with_auth a s)
      | (ChatStream st, a) \<Rightarrow>
          (HttpReply 200 (Some (PChat st)),
           (with_auth a s)\<lparr>ss_relay := (ss_relay (with_auth a s))\<lparr>rl_hub := ch_hub st\<rparr>, ss_broker := ch_broker st\<rparr>))"

definition to_proxy :: "full_request \<Rightarrow> proxy_request" where
  "to_proxy r =
     \<lparr>px_Method = req_Method r, px_Scheme = [], px_URLHost = [], px_Host = rq_Host r, px_Path = req_Path r,
      px_RawQuery = rq_RawQuery r, px_Header = rq_Header r, px_Body = req_Body r\<rparr>"

definition handle_proxy :: "server_env \<Rightarrow> handler" where
  "handle_proxy env r s = (wrap PProxy (snd (Handler (se_backend env) (to_proxy r))), s)"

section \<open>Routes\<close>

datatype endpoint =
    EpWs | EpChat | EpPermission | EpPeers | EpInfo | EpSessions | EpFiles | EpDownload | EpUpload | EpProxy | EpHealth

definition routes :: "(string \<times> endpoint) list" where
  "routes =
     [(''/ws'', EpWs), (''/api/chat'', EpChat), (''/api/permission'', EpPermission), (''/api/peers'', EpPeers),
      (''/api/info'', EpInfo), (''/api/sessions'', EpSessions), (''/api/files'', EpFiles),
      (''/api/files/download'', EpDownload), (''/api/files/upload'', EpUpload), (''/proxy/'', EpProxy),
      (''/health'', EpHealth)]"

fun endpoint_handler :: "server_env \<Rightarrow> Server \<Rightarrow> endpoint \<Rightarrow> handler" where
  "endpoint_handler env srv EpWs = handleWebSocket env"
| "endpoint_handler env srv EpChat = handle_chat env"
| "endpoint_handler env srv EpPermission = handlePermissionResponse env"
| "endpoint_handler env srv EpPeers = handlePeers env srv"
| "endpoint_handler env srv EpInfo = handleInfo env srv"
| "endpoint_handler env srv EpSessions = handleSessions env"
| "endpoint_handler env srv EpFiles = authed env (handleFiles env srv)"
| "endpoint_handler env srv EpDownload =
     authed env (run_files (HandleDownload (se_files env) (in_SharedDir (sv_info srv))))"
| "endpoint_handler env srv EpUpload =
     authed env (run_files (HandleUpload (se_files env) (in_SharedDir (sv_info srv)) (se_upload env)))"
| "endpoint_handler env srv EpProxy = authed env (handle_proxy env)"
| "endpoint_handler env srv EpHealth = (\<lambda>r s. (HttpReply 200 None, s))"

definition serve_request :: "server_env \<Rightarrow> Server \<Rightarrow> handler" where
  "serve_request env srv r s =
     (case find_handler routes (req_Method r) (rq_EscapedPath r) of
        MuxRedirect \<Rightarrow> (HttpReply 301 None, s)
      | MuxNone \<Rightarrow> (HttpError 404 ''404 page not found'', s)
      | MuxFound ep \<Rightarrow> endpoint_handler env srv ep r s)"

text \<open>The endpoint of a request, if it gets to one.\<close>

abbreviation routed :: "full_request \<Rightarrow> endpoint \<Rightarrow> bool" where
  "routed r ep \<equiv> find_handler routes (req_Method r) (rq_EscapedPath r) = MuxFound ep"

section \<open>Which paths reach which endpoint\<close>

text \<open>The routes as a reader of the source has them in mind: all are exact but one, a prefix.\<close>

definition route :: "string \<Rightarrow> endpoint option" where
  "route path =
     (if HasPrefix path ''/proxy/'' then Some EpProxy
      else if path = ''/ws'' then Some EpWs
      else if path = ''/api/chat'' then Some EpChat
      else if path = ''/api/permission'' then Some EpPermission
      else if path = ''/api/peers'' then Some EpPeers
      else if path = ''/api/info'' then Some EpInfo
      else if path = ''/api/sessions'' then Some EpSessions
      else if path = ''/api/files'' then Some EpFiles
      else if path = ''/api/files/download'' then Some EpDownload
      else if path = ''/api/files/upload'' then Some EpUpload
      else if path = ''/health'' then Some EpHealth
      else None)"

lemma mux_match_routes:
  assumes "CHR ''%'' \<notin> set t"
  shows "map_option snd (mux_match routes (sep # t)) = route (sep # t)"
proof -
  have health: "map_option snd (mux_match [(''/health'', EpHealth)] (sep # t)) = (if t = ''health'' then Some EpHealth else None)"
    using mux_match_literal [OF assms, of "''health''" EpHealth "[]"] by simp
  have "map_option snd (mux_match [(''/proxy/'', EpProxy), (''/health'', EpHealth)] (sep # t)) =
      (if HasPrefix t ''proxy/'' then Some EpProxy else if t = ''health'' then Some EpHealth else None)"
    using mux_match_below [OF assms, of "''proxy''" "[(''/health'', EpHealth)]" EpProxy] health
    by (auto split: if_splits)
  then show ?thesis
    unfolding routes_def route_def
    by (simp del: mux_match.simps add: mux_match_literal [OF assms])
qed

lemma route_slash: "route (path @ [sep]) = (if HasPrefix (path @ [sep]) ''/proxy/'' then Some EpProxy else None)"
  by (auto simp: route_def append_eq_Cons_conv)

lemma found_exact_routes:
  assumes "CHR ''%'' \<notin> set t"
  shows "found_exact routes (sep # t) \<longleftrightarrow>
     (\<exists>ep. route (sep # t) = Some ep \<and>
        (ep = EpProxy \<longrightarrow> HasSuffix (sep # t) [sep] \<and> count_list (sep # t) sep = 2))"
proof (cases "mux_match routes (sep # t)")
  case None
  then show ?thesis using mux_match_routes [OF assms] by (simp add: found_exact_def)
next
  case (Some x)
  obtain pat ep where x: "x = (pat, ep)" by (cases x)
  have mem: "(pat, ep) \<in> set routes" using mux_match_mem Some x by blast
  have lit: "ep \<noteq> EpProxy \<Longrightarrow> \<not> snd (parse_pattern pat)"
    using mem by (auto simp: routes_def parse_pattern_def)
  have "parse_pattern ''/proxy/'' = ([''proxy''], True)" by (simp add: parse_pattern_def)
  moreover have "ep = EpProxy \<Longrightarrow> pat = ''/proxy/''" using mem by (auto simp: routes_def)
  ultimately have "exact_match pat (sep # t) \<longleftrightarrow>
      (ep = EpProxy \<longrightarrow> HasSuffix (sep # t) [sep] \<and> count_list (sep # t) sep = 2)"
    using lit by (cases "ep = EpProxy"; cases "parse_pattern pat")
      (auto simp: exact_match_def split: bool.splits)
  moreover have "route (sep # t) = Some ep" using mux_match_routes [OF assms] Some x by simp
  ultimately show ?thesis using Some x by (simp add: found_exact_def)
qed

section \<open>Authentication in front of every handler\<close>

lemma with_auth_simps [simp]:
  "ss_broker (with_auth a s) = ss_broker s" "ss_conf (with_auth a s) = ss_conf s"
  "ss_shared (with_auth a s) = ss_shared s" "hub_of (with_auth a s) = hub_of s" "auth_of (with_auth a s) = a"
  "rl_files (ss_relay (with_auth a s)) = rl_files (ss_relay s)" "rl_hub (ss_relay (with_auth a s)) = hub_of s"
  by (simp_all add: with_auth_def hub_of_def auth_of_def)

lemma truncate_authorization [simp]: "req_Authorization (plain_request r) = req_Authorization r"
  by (simp add: http_request.defs)

text \<open>A refused check keeps the token and touches the failures of the caller's address only.\<close>

definition refusal :: "full_request \<Rightarrow> server_state \<Rightarrow> Authenticator \<Rightarrow> bool" where
  "refusal r s a \<longleftrightarrow>
     auth_token a = auth_token (auth_of s) \<and>
     (\<forall>ip. ip \<noteq> clientIP (plain_request r) \<longrightarrow> failures_of a ip = failures_of (auth_of s) ip)"

lemma refused:
  assumes "extractBearer (req_Authorization r) \<noteq> auth_token (auth_of s)"
  obtains a where "ValidateRequest now now' (plain_request r) (auth_of s) = (False, a)" "refusal r s a"
proof -
  obtain ok a where v: "ValidateRequest now now' (plain_request r) (auth_of s) = (ok, a)"
    by (rule prod.exhaust)
  have "\<not> ok" using bearer.check_sound [of now now' "plain_request r" "auth_of s"] v assms by auto
  moreover have "a = snd (validate now now' (clientIP (plain_request r))
      (extractBearer (req_Authorization r)) (auth_of s))"
    using v by (simp add: ValidateRequest_def)
  then have "refusal r s a" by (simp add: refusal_def failures_of_validate)
  ultimately show ?thesis using that v by simp
qed

lemma authed_refused:
  assumes "extractBearer (req_Authorization r) \<noteq> auth_token (auth_of s)"
  shows "\<exists>a. authed env inner r s = (Unauthorized, with_auth a s) \<and> refusal r s a"
proof -
  obtain a where "ValidateRequest (se_now env) (se_later env) (plain_request r) (auth_of s) = (False, a)"
    "refusal r s a"
    using assms by (rule refused)
  then show ?thesis unfolding authed_def by (intro exI [of _ a]) (simp add: Let_def)
qed

lemma chat_refused:
  assumes "extractBearer (req_Authorization r) \<noteq> auth_token (auth_of s)"
  shows "\<exists>a. handle_chat env r s = (Unauthorized, with_auth a s) \<and> refusal r s a"
proof -
  obtain a where "ValidateRequest (se_now env) (se_later env) (plain_request r) (auth_of s) = (False, a)"
    "refusal r s a"
    using assms by (rule refused)
  then show ?thesis
    unfolding handle_chat_def handleChatProxy_def
    by (intro exI [of _ a]) (simp add: Let_def Unauthorized_def)
qed

text \<open>Every endpoint but the health check refuses.\<close>

lemma endpoint_refused:
  assumes "extractBearer (req_Authorization r) \<noteq> auth_token (auth_of s)" "ep \<noteq> EpHealth"
  shows "\<exists>a. endpoint_handler env srv ep r s = (Unauthorized, with_auth a s) \<and> refusal r s a"
  using assms(2) authed_refused [OF assms(1)] chat_refused [OF assms(1)]
  by (cases ep)
     (simp_all add: handleWebSocket_def handlePermissionResponse_def handlePeers_def handleInfo_def handleSessions_def)

lemma serve_refused:
  assumes "extractBearer (req_Authorization r) \<noteq> auth_token (auth_of s)"
  shows "snd (serve_request env srv r s) = s \<or>
         (\<exists>a. snd (serve_request env srv r s) = with_auth a s \<and> refusal r s a)"
proof (cases "find_handler routes (req_Method r) (rq_EscapedPath r)")
  case (MuxFound ep)
  then show ?thesis
    using endpoint_refused [OF assms, of ep env srv] by (cases "ep = EpHealth") (auto simp: serve_request_def)
qed (simp_all add: serve_request_def)

text \<open>The requests of outsiders, one after the other.\<close>

fun serve_all :: "Server \<Rightarrow> (server_env \<times> full_request) list \<Rightarrow> server_state \<Rightarrow> server_state" where
  "serve_all srv [] s = s"
| "serve_all srv ((env, r) # rs) s = serve_all srv rs (snd (serve_request env srv r s))"

text \<open>The states outsiders, none of them at the address \<open>ip\<close>, can bring about from \<open>s\<close>.\<close>

definition unharmed :: "string \<Rightarrow> server_state \<Rightarrow> server_state \<Rightarrow> bool" where
  "unharmed ip s t \<longleftrightarrow>
     (\<exists>a. t = with_auth a s \<and> auth_token a = auth_token (auth_of s) \<and>
          failures_of a ip = failures_of (auth_of s) ip)"

lemma with_auth_self: "with_auth (auth_of s) s = s"
  by (simp add: with_auth_def auth_of_def)

lemma with_auth_twice: "with_auth b (with_auth a s) = with_auth b s"
  by (simp add: with_auth_def)

lemma unharmed_refl: "unharmed ip s s"
  unfolding unharmed_def by (rule exI [of _ "auth_of s"]) (simp add: with_auth_self)

lemma unharmed_trans: "unharmed ip s t \<Longrightarrow> unharmed ip t u \<Longrightarrow> unharmed ip s u"
  by (auto simp: unharmed_def with_auth_twice)

lemma refused_unharmed:
  assumes "extractBearer (req_Authorization r) \<noteq> auth_token (auth_of s)" "clientIP (plain_request r) \<noteq> ip"
  shows "unharmed ip s (snd (serve_request env srv r s))"
  using serve_refused [OF assms(1), of env srv] unharmed_refl [of ip s] assms(2)
  by (auto simp: unharmed_def refusal_def)

lemma outsiders_unharmed:
  assumes "\<forall>(env, r) \<in> set rs. extractBearer (req_Authorization r) \<noteq> auth_token (auth_of s) \<and>
             clientIP (plain_request r) \<noteq> ip"
  shows "unharmed ip s (serve_all srv rs s)"
  using assms
proof (induction rs arbitrary: s)
  case (Cons q rs)
  obtain env r where q: "q = (env, r)" by (rule prod.exhaust)
  let ?s1 = "snd (serve_request env srv r s)"
  have 1: "unharmed ip s ?s1" using Cons.prems q by (intro refused_unharmed) auto
  then have "auth_token (auth_of ?s1) = auth_token (auth_of s)" by (auto simp: unharmed_def)
  then have "unharmed ip ?s1 (serve_all srv rs ?s1)" using Cons.prems by (intro Cons.IH) auto
  then show ?case using unharmed_trans [OF 1] q by simp
qed (simp add: unharmed_refl)

text \<open>The check of a request depends on the token and its own address's failures only.\<close>

lemma validate_cong:
  assumes "auth_token a = auth_token b" "failures_of a (clientIP q) = failures_of b (clientIP q)"
  shows "fst (ValidateRequest now now' q a) = fst (ValidateRequest now now' q b)"
  using assms by (simp add: ValidateRequest_def fst_validate checked_def fst_isLocked)

section \<open>Prompts are answered by posts only\<close>

lemma authed_other_broker:
  assumes "\<And>r s. ss_broker (snd (inner r s)) = ss_broker s"
  shows "ss_broker (snd (authed env inner r s)) = ss_broker s"
  using assms by (auto simp: authed_def Let_def split: prod.splits)

lemma run_files_broker: "ss_broker (snd (run_files h r s)) = ss_broker s"
  by (simp add: run_files_def Let_def split: prod.splits)

lemma peers_request_broker: "ss_broker (snd (peers_request env mgr r s)) = ss_broker s"
  by (auto simp: peers_request_def split: sum.splits prod.splits option.splits)

lemma other_endpoints_broker:
  assumes "ep \<noteq> EpChat" "ep \<noteq> EpPermission"
  shows "ss_broker (snd (endpoint_handler env srv ep r s)) = ss_broker s"
  using assms
  by (cases ep)
     (auto simp: handleWebSocket_def handlePeers_def handleInfo_def handleSessions_def handleFiles_def handle_proxy_def
        run_files_broker peers_request_broker
        intro!: authed_other_broker split: option.splits prod.splits)

lemma permission_broker:
  "ss_broker (snd (handlePermissionResponse env r s)) = ss_broker s \<or>
   (extractBearer (req_Authorization r) = auth_token (auth_of s) \<and> req_Method r = ''POST'' \<and>
    (\<exists>rid v. unmarshal_permission (se_json env 4096 (req_Body r)) = Some (rid, v) \<and>
       ss_broker (snd (handlePermissionResponse env r s)) =
         run_op (OpRespond rid (clientIP (plain_request r)) v) (ss_broker s)))"
proof -
  obtain ok a where v: "ValidateRequest (se_now env) (se_later env) (plain_request r) (auth_of s) = (ok, a)"
    by (rule prod.exhaust)
  show ?thesis
  proof (cases ok)
    case True
    then have "extractBearer (req_Authorization r) = auth_token (auth_of s)"
      using bearer.check_sound [of "se_now env" "se_later env" "plain_request r" "auth_of s"] v by simp
    then show ?thesis
      using v True by (auto simp: handlePermissionResponse_def authed_def Let_def split: option.splits prod.splits)
  next
    case False
    then show ?thesis using v by (simp add: handlePermissionResponse_def authed_def Let_def)
  qed
qed

section \<open>Properties\<close>

lemma find_handler_routes:
  assumes "cleanPath path = path" "CHR ''%'' \<notin> set path"
  shows "find_handler routes meth path =
           (case route path of
              Some ep \<Rightarrow> MuxFound ep
            | None \<Rightarrow> if path = ''/proxy'' then MuxRedirect else MuxNone)"
proof -
  obtain t where t: "path = sep # t" "CHR ''%'' \<notin> set t"
    using cleanPath_abs [of path] assms by (auto simp: IsAbs_def prefix_def)
  have slash: "found_exact routes (path @ [sep]) \<longleftrightarrow> HasPrefix (path @ [sep]) ''/proxy/'' \<and> count_list path sep = 1"
    using found_exact_routes [of "t @ [sep]"] t route_slash [of path] by (auto simp: suffix_def)
  have only: "path = ''/proxy''" if below: "HasPrefix (path @ [sep]) ''/proxy/''" and one: "count_list path sep = 1"
  proof -
    obtain r where r: "path @ [sep] = ''/proxy/'' @ r" using below unfolding prefix_def by blast
    have "r = []"
    proof (rule ccontr)
      assume "r \<noteq> []"
      then obtain q where "r = q @ [sep]" using r by (metis append_butlast_last_id last_appendR last_snoc)
      then have "path = ''/proxy/'' @ q" using r by simp
      then show False using one by simp
    qed
    then show ?thesis using r by simp
  qed
  have redirect: "(\<not> found_exact routes path \<and> \<not> HasSuffix path [sep] \<and> found_exact routes (path @ [sep])) \<longleftrightarrow> path = ''/proxy''"
  proof
    assume "path = ''/proxy''"
    moreover have "route ''/proxy'' = None" by (simp add: route_def routes_def)
    ultimately show "\<not> found_exact routes path \<and> \<not> HasSuffix path [sep] \<and> found_exact routes (path @ [sep])"
      using found_exact_routes [OF t(2)] t(1) slash by (simp add: suffix_def)
  qed (use slash only in blast)
  have "route ''/proxy'' = None" by (simp add: route_def routes_def)
  then show ?thesis
    using mux_match_routes [OF t(2)] t(1) assms(1) redirect
    by (auto simp: find_handler_def Let_def split: option.splits)
qed

text \<open>
  C40: the mux serves exactly these routes. A request whose path has no percent sign (and, for the method
  CONNECT, is canonical) is redirected when its path is not in canonical form; otherwise each of the ten exact paths reaches its
  own handler, everything below \<^verbatim>\<open>/proxy/\<close> the proxy behind the check of the token, the path \<^verbatim>\<open>/proxy\<close> is
  redirected, and every other path is answered with 404. (An escaped path is matched by its decoded segments;
  that is not part of this statement.)
\<close>

theorem mux_serves_routes:
  assumes "CHR ''%'' \<notin> set (rq_EscapedPath r)"
    and "req_Method r \<noteq> ''CONNECT'' \<or> cleanPath (rq_EscapedPath r) = rq_EscapedPath r"
  shows "serve_request env srv r s =
    (let path = rq_EscapedPath r; dir = in_SharedDir (sv_info srv) in
     if cleanPath path \<noteq> path then (HttpReply 301 None, s)
     else if path = ''/ws'' then handleWebSocket env r s
     else if path = ''/api/chat'' then handle_chat env r s
     else if path = ''/api/permission'' then handlePermissionResponse env r s
     else if path = ''/api/peers'' then handlePeers env srv r s
     else if path = ''/api/info'' then handleInfo env srv r s
     else if path = ''/api/sessions'' then handleSessions env r s
     else if path = ''/api/files'' then authed env (handleFiles env srv) r s
     else if path = ''/api/files/download'' then authed env (run_files (HandleDownload (se_files env) dir)) r s
     else if path = ''/api/files/upload'' then authed env (run_files (HandleUpload (se_files env) dir (se_upload env))) r s
     else if path = ''/health'' then (HttpReply 200 None, s)
     else if HasPrefix path ''/proxy/'' then authed env (handle_proxy env) r s
     else if path = ''/proxy'' then (HttpReply 301 None, s)
     else (HttpError 404 ''404 page not found'', s))"
proof (cases "cleanPath (rq_EscapedPath r) = rq_EscapedPath r")
  case True
  have "serve_request env srv r s =
      (case route (rq_EscapedPath r) of
         Some ep \<Rightarrow> endpoint_handler env srv ep r s
       | None \<Rightarrow> if rq_EscapedPath r = ''/proxy'' then (HttpReply 301 None, s) else (HttpError 404 ''404 page not found'', s))"
    using find_handler_routes [OF True assms(1), of "req_Method r"] by (simp add: serve_request_def split: option.split)
  then show ?thesis using True by (simp add: route_def Let_def)
next
  case False
  then have "find_handler routes (req_Method r) (rq_EscapedPath r) = MuxRedirect"
    using assms(2) by (simp add: find_handler_def Let_def)
  then show ?thesis using False by (simp add: serve_request_def)
qed

text \<open>
  C2: nothing without the token. A request that does not carry the current token is answered with 401,
  or with a redirect or 404 where it gets to no endpoint, or with the empty answer of the health
  check; and whatever the route, the hub, the pending prompts, the peers, the shared files and the
  token are as they were.
\<close>

theorem authentication_required:
  assumes "extractBearer (req_Authorization r) \<noteq> auth_token (auth_of s)" "serve_request env srv r s = (resp, s')"
  shows "(resp = Unauthorized \<or> (routed r EpHealth \<and> resp = HttpReply 200 None) \<or>
            ((\<nexists>ep. routed r ep) \<and> status_of resp \<in> {301, 404})) \<and>
         hub_of s' = hub_of s \<and> ss_broker s' = ss_broker s \<and> ss_conf s' = ss_conf s \<and> ss_shared s' = ss_shared s \<and>
         rl_files (ss_relay s') = rl_files (ss_relay s) \<and> auth_token (auth_of s') = auth_token (auth_of s)"
proof (cases "find_handler routes (req_Method r) (rq_EscapedPath r)")
  case (MuxFound ep)
  show ?thesis
  proof (cases "ep = EpHealth")
    case True
    then show ?thesis using assms(2) MuxFound by (auto simp: serve_request_def)
  next
    case False
    obtain a where "endpoint_handler env srv ep r s = (Unauthorized, with_auth a s)" "refusal r s a"
      using endpoint_refused [OF assms(1) False] by blast
    then show ?thesis using assms(2) MuxFound by (auto simp: serve_request_def refusal_def)
  qed
qed (use assms(2) in \<open>auto simp: serve_request_def\<close>)

definition sample_peer_host :: peer_env where
  "sample_peer_host =
     \<lparr>pe_live = (\<lambda>_. None), pe_rand = Inl ''no randomness'', pe_base_mult = (\<lambda>s. s), pe_open = None, pe_append = None,
      pe_tmp = None, pe_rename = None, pe_hostname = None\<rparr>"

definition sample_server_env :: server_env where
  "sample_server_env =
     \<lparr>se_now = 0, se_later = 0, se_tmux = None, se_random = ''12345678'', se_json = (\<lambda>_ _. None), se_accept = None,
      se_messages = [], se_chat = sample_chat_env, se_peers = sample_peer_host, se_files = sample_files, se_upload = None,
      se_backend = (\<lambda>_. None)\<rparr>"

definition sample_server :: Server where
  "sample_server = \<lparr>sv_peers = None, sv_info = Detect sample_machine\<rparr>"

definition sample_state :: server_state where
  "sample_state =
     \<lparr>ss_relay = sample_relay, ss_broker = NewPermissionBroker, ss_conf = \<lparr>fs_conf = None, fs_tmp = None\<rparr>,
      ss_shared = Map.empty\<rparr>"

definition sample_full_request :: "string \<Rightarrow> full_request" where
  "sample_full_request path =
     \<lparr>req_Method = ''GET'', req_Path = path, req_Query = [], req_RemoteAddr = ''10.100.0.2:5000'',
      req_Authorization = ''Bearer wrong'', req_Body = [], rq_EscapedPath = path, rq_Header = Map.empty, rq_RawQuery = [], rq_Host = []\<rparr>"

theorem mux_serves_routes_witness:
  "serve_request sample_server_env sample_server (sample_full_request ''/api/info'') sample_state =
     handleInfo sample_server_env sample_server (sample_full_request ''/api/info'') sample_state \<and>
   serve_request sample_server_env sample_server (sample_full_request ''/proxy/3000/'') sample_state =
     authed sample_server_env (handle_proxy sample_server_env) (sample_full_request ''/proxy/3000/'') sample_state \<and>
   serve_request sample_server_env sample_server (sample_full_request ''/api//info'') sample_state =
     (HttpReply 301 None, sample_state)"
proof -
  have c: "cleanPath ''/api/info'' = ''/api/info''" "cleanPath ''/proxy/3000/'' = ''/proxy/3000/''"
    "cleanPath ''/api//info'' \<noteq> ''/api//info''" by code_simp+
  have r: "rq_EscapedPath (sample_full_request p) = p" "req_Method (sample_full_request p) = ''GET''" for p
    by (simp_all add: sample_full_request_def)
  note m = mux_serves_routes [where r = "sample_full_request p" for p, unfolded r Let_def]
  show ?thesis
    by (subst m; (subst m)?; (subst m)?; simp add: c)
qed

theorem authentication_required_witness:
  "\<exists>s'. serve_request sample_server_env sample_server (sample_full_request ''/api/files'') sample_state = (Unauthorized, s') \<and>
     ss_shared s' = ss_shared sample_state"
proof -
  let ?r = "sample_full_request ''/api/files''"
  obtain resp s' where h: "serve_request sample_server_env sample_server ?r sample_state = (resp, s')"
    by (cases "serve_request sample_server_env sample_server ?r sample_state")
  have "extractBearer ''Bearer wrong'' = ''wrong''" by code_simp
  moreover have "sample_token \<noteq> ''wrong''" by (simp add: sample_token_def numeral_eq_Suc)
  ultimately have b: "extractBearer (req_Authorization ?r) \<noteq> auth_token (auth_of sample_state)"
    by (simp add: sample_full_request_def sample_state_def auth_of_def sample_relay_def New_def)
  have "find_handler routes ''GET'' ''/api/files'' = MuxFound EpFiles" by code_simp
  then have "routed ?r EpFiles" by (simp add: sample_full_request_def)
  then show ?thesis using authentication_required [OF b h] h by auto
qed

text \<open>
  C10: outsiders harm nobody. Any number of requests without the token, from other addresses
  than that of \<open>q\<close>, leaves everything but failure counts as it was, and \<open>q\<close> passes the token check
  afterwards exactly if it would have passed it before: nobody is locked out by somebody else.
\<close>

theorem outsiders_harmless:
  assumes "\<forall>(env, r) \<in> set rs. extractBearer (req_Authorization r) \<noteq> auth_token (auth_of s) \<and>
             clientIP (plain_request r) \<noteq> clientIP q"
  shows "(\<exists>a. serve_all srv rs s = with_auth a s \<and> auth_token a = auth_token (auth_of s)) \<and>
         fst (ValidateRequest now now' q (auth_of (serve_all srv rs s))) =
           fst (ValidateRequest now now' q (auth_of s))"
proof -
  obtain a where a: "serve_all srv rs s = with_auth a s" "auth_token a = auth_token (auth_of s)"
    "failures_of a (clientIP q) = failures_of (auth_of s) (clientIP q)"
    using outsiders_unharmed [OF assms] by (auto simp: unharmed_def)
  then show ?thesis using validate_cong [OF a(2,3)] by auto
qed

theorem outsiders_harmless_witness:
  "\<exists>a. serve_all sample_server (replicate 9 (sample_server_env, sample_full_request ''/ws'')) sample_state =
         with_auth a sample_state \<and> auth_token a = sample_token"
proof -
  let ?r = "sample_full_request ''/ws''" and ?q = "plain_request (sample_full_request ''/ws'')\<lparr>req_RemoteAddr := ''10.100.0.9:1''\<rparr>"
  have "extractBearer ''Bearer wrong'' = ''wrong''" by code_simp
  moreover have "sample_token \<noteq> ''wrong''" by (simp add: sample_token_def numeral_eq_Suc)
  ultimately have b: "extractBearer (req_Authorization ?r) \<noteq> auth_token (auth_of sample_state)"
    by (simp add: sample_full_request_def sample_state_def auth_of_def sample_relay_def New_def)
  have "clientIP_loop ''10.100.0.2:5000'' 15 = ''10.100.0.2''" "clientIP_loop ''10.100.0.9:1'' 12 = ''10.100.0.9''"
    by (simp_all add: numeral_eq_Suc)
  then have c: "clientIP (plain_request ?r) \<noteq> clientIP ?q"
    by (simp add: clientIP_def sample_full_request_def http_request.defs)
  have t: "auth_token (auth_of sample_state) = sample_token"
    by (simp add: sample_state_def auth_of_def sample_relay_def New_def)
  have "\<forall>(env, r) \<in> set (replicate 9 (sample_server_env, ?r)). extractBearer (req_Authorization r) \<noteq>
      auth_token (auth_of sample_state) \<and> clientIP (plain_request r) \<noteq> clientIP ?q"
    using b c by auto
  from outsiders_harmless [OF this, of sample_server 0 0] show ?thesis unfolding t by blast
qed

text \<open>
  C11: prompts are answered by their owners' posts. Apart from a chat, which registers and removes its
  own prompts, a request changes the pending prompts only as an authenticated post to the
  permission endpoint, and then exactly as a response from its sender's address.
\<close>

theorem prompts_answered_by_posts:
  "routed r EpChat \<or> ss_broker (snd (serve_request env srv r s)) = ss_broker s \<or>
   (routed r EpPermission \<and> req_Method r = ''POST'' \<and>
    extractBearer (req_Authorization r) = auth_token (auth_of s) \<and>
    (\<exists>rid v. unmarshal_permission (se_json env 4096 (req_Body r)) = Some (rid, v) \<and>
       ss_broker (snd (serve_request env srv r s)) =
         run_op (OpRespond rid (clientIP (plain_request r)) v) (ss_broker s)))"
proof (cases "find_handler routes (req_Method r) (rq_EscapedPath r)")
  case (MuxFound ep)
  show ?thesis
  proof (cases "ep = EpPermission")
    case True
    then show ?thesis using permission_broker [of env r s] MuxFound by (auto simp: serve_request_def)
  qed (use MuxFound other_endpoints_broker [of ep env srv r s] in \<open>auto simp: serve_request_def\<close>)
qed (simp_all add: serve_request_def)

text \<open>
  The answer to a permission response tells nothing. It depends on the request and the token only,
  not on the prompts that are pending: nobody learns from it which prompts exist or whose they are.
\<close>

theorem permission_reply_uniform:
  "fst (handlePermissionResponse env r s) = fst (handlePermissionResponse env r (s\<lparr>ss_broker := b\<rparr>))"
proof -
  have a: "auth_of (s\<lparr>ss_broker := b\<rparr>) = auth_of s" by (simp add: auth_of_def)
  show ?thesis
    by (simp add: handlePermissionResponse_def authed_def a Let_def split: prod.splits option.splits)
qed

text \<open>
  A removal that succeeded on the tunnel can be answered with 404: the error of rewriting the file
  contains the words that the handler takes for an index that does not exist.
\<close>

theorem removed_but_not_found:
  assumes "Remove (se_peers env) mgr idx (ss_conf s) = (Some e, fs', [LiveRemove k])" "Contains e ''out of range''"
    and "req_Method r = ''DELETE''" "Atoi (query_get (plain_request r) ''index'') = Some idx" "1 \<le> idx"
  shows "status_of (fst (peers_request env mgr r s)) = 404"
  using assms by (simp add: peers_request_def)

end
