(* ===== verification/Spec2Isabelle.thy ===== *)
theory Spec2Isabelle
  imports Auth Detector Permission WG_Server Peers_Proofs Session_Hub_Proofs Projects_Proofs Files Webproxy
    Client_Proofs Terminal Tools_Proofs Chat_Proxy Sysinfo Main_CLI Relay_Server
begin

text \<open>
  \<^bold>\<open>What the program is.\<close> continuum-relay runs on a developer's host and serves one iOS app over a
  WireGuard tunnel. \<^verbatim>\<open>main.go\<close> reads the settings from the environment, brings the tunnel up
  (\<^verbatim>\<open>internal/wg\<close>), makes one shared authenticator (\<^verbatim>\<open>internal/auth\<close>) and starts the terminal server
  (\<^verbatim>\<open>internal/terminal\<close>), the relay server (\<^verbatim>\<open>internal/relay/server.go\<close>) and the status detector
  (\<^verbatim>\<open>internal/detector\<close>). The relay server routes requests to the session hub and its WebSocket
  protocol (\<^verbatim>\<open>hub.go\<close>, \<^verbatim>\<open>session.go\<close>, \<^verbatim>\<open>client.go\<close>), to the chat proxy, its tools and the permission
  broker (\<^verbatim>\<open>chat_proxy.go\<close>, \<^verbatim>\<open>internal/tools\<close>, \<^verbatim>\<open>permission.go\<close>), to the shared files
  (\<^verbatim>\<open>internal/files\<close>), the peers (\<^verbatim>\<open>internal/peers\<close>), the projects (\<^verbatim>\<open>internal/projects\<close>) and the
  web proxy (\<^verbatim>\<open>internal/webproxy\<close>). Pushes leave through \<^verbatim>\<open>internal/apns\<close>. The same binary is the
  command line that queries a running relay.

  \<^bold>\<open>How it is modelled.\<close> A Go struct is a record with the fields in the order of the source, an
  enumeration a datatype or the strings it stands for, a Go map a partial map (where the order of
  iteration shows, an association list, or the order is an argument), a byte slice or string a char list, an error the left side
  of a sum. A method that mutates its receiver returns the new record; a handler returns its
  answer with the new state; what it did to the world (files written, commands run, requests sent)
  is a returned list or a map of files. Waiting and interleaving are step relations. An instant
  is an int in nanoseconds and is always an argument. Machine integers are int with their
  range written out where the code can reach it, and words where bits are used.

  \<^bold>\<open>Libraries of Go.\<close>
  \<^item> \<open>Go_Strings\<close>, \<open>Go_Path\<close>, \<open>Go_Encoding\<close>, \<open>Go_Net\<close>, \<open>Go_Url\<close>: what the program uses of \<^verbatim>\<open>strings\<close>,
    \<^verbatim>\<open>strconv\<close>, \<^verbatim>\<open>path/filepath\<close>, \<^verbatim>\<open>encoding\<close>, \<^verbatim>\<open>net\<close> and \<^verbatim>\<open>net/url\<close>, as executable functions on bytes,
    with the facts about them that the components share.
  \<^item> \<open>Go_Mux\<close>: the matching of \<^verbatim>\<open>http.ServeMux\<close>, with its redirects to canonical paths.
  \<^item> \<open>Go_Http\<close>, \<open>Go_Json\<close>: requests, answers and JSON values. The text form of JSON is not
    modelled: a decoder is an argument, or the handler is given the decoded value.
  \<^item> \<open>Interfaces\<close>: the contracts between components as locales. \<open>keyed_store\<close> (a guarded map: hub
    sessions, activity tokens, pending prompts), \<open>path_guard\<close> (a check that lets no path escape its
    base: shared files, projects), \<open>request_guard\<close> (a credential check with a lockout: bearer and
    basic), \<open>env_policy\<close> (which variables a child process sees: git, shells, tools) and
    \<open>invariant_system\<close> (an invariant kept by every step). Each is interpreted on the model in the
    theory that provides it.

  \<^bold>\<open>Components.\<close>
  \<^item> \<open>Auth\<close> (\<^verbatim>\<open>auth.go\<close>): bearer and basic checks, failures per address, the lockout, rotation. Shown:
    the number of checked guesses in a window is bounded whatever is interleaved, a lockout ends and refused
    calls do not extend it, the failure table stays bounded.
  \<^item> \<open>Detector\<close> (\<^verbatim>\<open>detector.go\<close>): the tracker and one poll. Shown: an update reports exactly the
    changes of state, and reports of a session alternate over every history of polls.
  \<^item> \<open>WG_Config\<close>, \<open>WG_Server\<close> (\<^verbatim>\<open>config.go\<close>, \<^verbatim>\<open>server.go\<close>): the parser, and the start, stop and live
    changes of the tunnel. Shown: the text for the device has the lines of the protocol and nothing
    a config value could inject; every resource of a failed start is closed once.
  \<^item> \<open>Peers\<close>, \<open>Peers_Proofs\<close> (\<^verbatim>\<open>peers.go\<close>): listing, adding and removing. Shown: addresses are never
    shared as long as no append is cut short (and are when one is), an added peer is listed, a removal takes exactly that block, a failed removal from
    the tunnel leaves the file alone, what a failed addition leaves behind.
  \<^item> \<open>Apns\<close> (\<^verbatim>\<open>client.go\<close> of apns): token cache and the two kinds of push. Shown: over the log of the
    tokens that were built, no request carries one that is older than its cache time.
  \<^item> \<open>Session_Hub\<close>, \<open>Session_Hub_Proofs\<close> (\<^verbatim>\<open>hub.go\<close>, \<^verbatim>\<open>session.go\<close>): sessions, discovery, devices, clients and
    alerts. Shown: every cap of the hub holds on every history, one prompt alerts once, each change
    the detector reports reaches every client with room, a working directory is confined.
  \<^item> \<open>Permission\<close> (\<^verbatim>\<open>permission.go\<close>): the broker and its interleavings. Shown: a prompt is granted only
    by an answer from the address that asked.
  \<^item> \<open>Projects\<close>, \<open>Projects_Proofs\<close> (\<^verbatim>\<open>manager.go\<close>, \<^verbatim>\<open>status.go\<close>): clone, pull, list, status, delete. Shown: only
    paths below the base are deleted, which branches the status names and which it misses, what the origin is after a
    sync, and no error text shows the token.
  \<^item> \<open>Files\<close> (\<^verbatim>\<open>files.go\<close>): the shared directory. Shown: no handler reads or changes a path outside it;
    an upload can be downloaded.
  \<^item> \<open>Webproxy\<close> (\<^verbatim>\<open>webproxy.go\<close>): the proxy to local servers. Shown: it connects to no blocked port and
    passes no credential on; a rewritten redirect leads to the same place.
  \<^item> \<open>Client\<close>, \<open>Client_Proofs\<close> (\<^verbatim>\<open>client.go\<close>): every message of the protocol. Shown: a connection
    changes the hub as a specification of the messages says, the hub only holds validated input, a rotation happens in the
    file and in memory or in neither.
  \<^item> \<open>Terminal\<close> (\<^verbatim>\<open>internal/terminal/server.go\<close>): login, the shell's command, environment and credentials,
    and the frames. Shown: exactly which environment the shell sees, without a secret; its input is the concatenation of the input frames.
  \<^item> \<open>Tools\<close>, \<open>Tools_Proofs\<close>, \<open>Chat_Proxy\<close> (\<^verbatim>\<open>internal/tools\<close>, \<^verbatim>\<open>chat_proxy.go\<close>): the five tools and the rounds of a
    chat. Shown: a tool that is not safe runs only after the asking client itself posted a yes for that call, the paths
    that are read and written are confined, output is bounded, a chat asks the model a bounded number of times.
  \<^item> \<open>Relay_Server\<close> (\<^verbatim>\<open>internal/relay/server.go\<close>): the routes over the state of all components. Shown: without the
    token a request changes nothing but the failure table, and outsiders lock nobody else out; a prompt is
    answered by an authenticated post only; the mux serves exactly the listed routes.
  \<^item> \<open>Sysinfo\<close>, \<open>Main_CLI\<close> (\<^verbatim>\<open>sysinfo.go\<close>, \<^verbatim>\<open>main.go\<close>): probes of the host, settings, commands. Shown: only an
    explicit or empty command starts a server.
  \<^item> This theory: what spans components. A rotation reaches the relay, the terminal server and the
    command line; it does not reach the payload of a peer added later.

  \<^bold>\<open>Parameters.\<close> The answers of code that is not in the repository, as functions or
  record fields: the clock, random bytes, curve25519, the WireGuard device, git, tmux, the file system's
  errors, Apple's servers, the chat model, the hosted search, the web backend, the decoding of JSON text.
  A theorem holds for every value of them unless it names a hypothesis, and then its witness has an instance.

  \<^bold>\<open>Bounds and fuel.\<close> Every loop is a structural recursion or has a termination proof. The loops
  over strings recurse on a decreasing length. The rounds of a chat recurse on the code's own bound of ten.
  The loop of a connection recurses on the list of frames that arrive. No theorem assumes that fuel suffices.

  \<^bold>\<open>Not modelled.\<close> Log lines and \<^verbatim>\<open>internal/logging\<close> (pure output); ping and keep-alive goroutines, read
  and write deadlines and HTTP timeouts (they show as the error of the operation they end); accepting
  connections and TLS; the address a redirect of \<^verbatim>\<open>http.ServeMux\<close> leads to; hop-by-hop headers of
  \<^verbatim>\<open>httputil.ReverseProxy\<close>; signal handling; the release of the pseudo terminal; cryptography
  (ECDSA and curve25519 are parameters). Go's mutexes make each operation atomic, so an operation is one step.

  \<^bold>\<open>Plan.\<close> Next: the interleavings of several client goroutines over one hub; the shutdown order of \<^verbatim>\<open>main\<close>; the remaining branches of the terminal's
  connection handler; a single JSON datatype for \<open>Peers\<close> and \<open>Go_Json\<close>.
\<close>

section \<open>A rotation reaches every component\<close>

lemma token_keys: "Main_CLI.token_key = Client.token_key"
  by (simp add: Main_CLI.token_key_def Client.token_key_def)

lemma file_token_find:
  "find (\<lambda>l. HasPrefix l Client.token_key) (Split content (CHR 0x0A)) = Some (Client.token_key @ tok) \<Longrightarrow>
     file_token content = tok"
  by (simp add: file_token_def token_keys)

text \<open>
  C4: a rotation reaches every component. After a rotation that was answered with success, the relay
  accepts a request exactly if it carries the new token (and its address is not locked out), the
  terminal server accepts a login exactly if its password is the new token, and a command that
  can read the token file finds the new one there; it uses it unless its environment names a token,
  which wins over the file.
\<close>

theorem rotation_end_to_end:
  assumes "on_rotate_token cenv m r = (eff, r')" "ef_sent eff = [JObj [(''type'', json.JStr ''token_rotated'')]]"
    and "me_env_file menv = rl_files r' envPath"
  shows "(fst (ValidateRequest now now' q (rl_auth r')) \<longleftrightarrow>
            checked now (clientIP q) (rl_auth r') \<and> extractBearer (req_Authorization q) = cm_Token m) \<and>
         (fst (ValidateBasic now now' ''continuum'' q (rl_auth r')) \<longleftrightarrow>
            checked now (clientIP q) (rl_auth r') \<and> extractBasic (req_Authorization q) ''continuum'' = cm_Token m) \<and>
         loadToken menv = Some (if me_getenv menv ''CONTINUUM_TOKEN'' = [] then cm_Token m
                                else me_getenv menv ''CONTINUUM_TOKEN'')"
proof -
  have ok: "tokenRe (cm_Token m)" "rl_auth r' = UpdateToken (cm_Token m) (rl_auth r)"
    "\<exists>new. rl_files r' envPath = Some new \<and>
       find (\<lambda>l. HasPrefix l Client.token_key) (Split new (CHR 0x0A)) = Some (Client.token_key @ cm_Token m)"
    using rotation_success [OF assms(1,2)] by blast+
  have ne: "cm_Token m \<noteq> []" using ok(1) by (auto simp: tokenRe_def matches_class_def)
  have tok: "auth_token (rl_auth r') = cm_Token m" using ok(2) by (simp add: UpdateToken_def)
  have "loadToken menv = Some (if me_getenv menv ''CONTINUUM_TOKEN'' = [] then cm_Token m
                               else me_getenv menv ''CONTINUUM_TOKEN'')"
    using ok(3) file_token_find ne assms(3) by (auto simp: loadToken_def Let_def)
  then show ?thesis using tok ne by (auto simp: ValidateRequest_def ValidateBasic_def fst_validate)
qed

theorem rotation_end_to_end_witness:
  "\<exists>eff r'. on_rotate_token sample_env sample_rotation sample_relay = (eff, r') \<and>
     loadToken (sample_main\<lparr>me_getenv := \<lambda>_. [], me_env_file := rl_files r' envPath\<rparr>) = Some sample_token \<and>
     \<not> fst (ValidateRequest 0 0 (plain_request (sample_full_request ''/ws'')) (rl_auth r'))"
proof -
  let ?q = "plain_request (sample_full_request ''/ws'')"
  obtain eff r' where r: "on_rotate_token sample_env sample_rotation sample_relay = (eff, r')"
    "ef_sent eff = [JObj [(''type'', json.JStr ''token_rotated'')]]"
    using sample_rotation_succeeds by blast
  let ?env = "sample_main\<lparr>me_getenv := \<lambda>_. [], me_env_file := rl_files r' envPath\<rparr>"
  have e: "me_env_file ?env = rl_files r' envPath" by simp
  have "extractBearer ''Bearer wrong'' = ''wrong''" by code_simp
  moreover have "sample_token \<noteq> ''wrong''" by (simp add: sample_token_def numeral_eq_Suc)
  ultimately have "extractBearer (req_Authorization ?q) \<noteq> cm_Token sample_rotation"
    by (simp add: sample_full_request_def sample_rotation_def)
  then show ?thesis using rotation_end_to_end [OF r e, of 0 0 ?q] r by (auto simp: sample_rotation_def)
qed

section \<open>What a rotation does not reach\<close>

text \<open>
  A peer added after a rotation is given the token the server was started with: the manager of
  the peers keeps it. With that token the new device is refused.
\<close>

theorem stale_token_in_payload:
  assumes "main menv args = Serve s" "st_peers s = Some mgr"
    and "Add penv mgr name fs = (Inr res, fs', calls)"
    and "on_rotate_token cenv m r = (eff, r')" "ef_sent eff = [JObj [(''type'', json.JStr ''token_rotated'')]]"
    and "cm_Token m \<noteq> st_token s" "extractBearer (req_Authorization q) = st_token s"
  shows "(''authToken'', json_value.JStr (st_token s)) \<in> set (ar_QRPayload res) \<and>
         \<not> fst (ValidateRequest now now' q (rl_auth r'))"
proof -
  have "mg_authToken mgr = st_token s"
    using serve_peers_token [OF assms(1,2)] .
  moreover have "(''authToken'', json_value.JStr (mg_authToken mgr)) \<in> set (ar_QRPayload res)"
    using assms(3) by (auto simp: Add_def Let_def qr_payload_def split: if_splits sum.splits option.splits prod.splits)
  moreover have "auth_token (rl_auth r') = cm_Token m"
    using rotation_success [OF assms(4,5)] by (simp add: UpdateToken_def)
  ultimately show ?thesis using assms(6,7) by (auto simp: ValidateRequest_def fst_validate)
qed

end
